theory Spec2Isabelle
  imports Complex_Main
begin

section \<open>Python values and errors\<close>

text \<open>
  A Python or numpy float is modelled by the extended real it denotes: a finite float
  by its real number, with exact arithmetic (no rounding, no overflow), and the three
  values \<open>inf\<close>, \<open>-inf\<close> and \<open>nan\<close> with the rules of IEEE arithmetic. The model has
  one zero, which stands for the positive zero.
\<close>

datatype pyfloat = Finite real | PosInf | NegInf | NaN

fun is_finite :: "pyfloat \<Rightarrow> bool" where
  "is_finite (Finite x) = True"
| "is_finite PosInf = False"
| "is_finite NegInf = False"
| "is_finite NaN = False"

text \<open>The infinity with the sign of a number, \<open>nan\<close> for zero: \<open>inf * s\<close> and \<open>s / 0\<close>.\<close>

definition f_inf :: "real \<Rightarrow> pyfloat" where
  "f_inf s = (if s = 0 then NaN else if 0 < s then PosInf else NegInf)"

fun f_neg :: "pyfloat \<Rightarrow> pyfloat" where
  "f_neg (Finite x) = Finite (- x)"
| "f_neg PosInf = NegInf"
| "f_neg NegInf = PosInf"
| "f_neg NaN = NaN"

fun f_abs :: "pyfloat \<Rightarrow> pyfloat" where
  "f_abs (Finite x) = Finite \<bar>x\<bar>"
| "f_abs PosInf = PosInf"
| "f_abs NegInf = PosInf"
| "f_abs NaN = NaN"

fun f_add :: "pyfloat \<Rightarrow> pyfloat \<Rightarrow> pyfloat" where
  "f_add (Finite x) (Finite y) = Finite (x + y)"
| "f_add (Finite x) PosInf = PosInf"
| "f_add (Finite x) NegInf = NegInf"
| "f_add PosInf (Finite y) = PosInf"
| "f_add NegInf (Finite y) = NegInf"
| "f_add PosInf PosInf = PosInf"
| "f_add NegInf NegInf = NegInf"
| "f_add PosInf NegInf = NaN"
| "f_add NegInf PosInf = NaN"
| "f_add NaN b = NaN"
| "f_add a NaN = NaN"

definition f_sub :: "pyfloat \<Rightarrow> pyfloat \<Rightarrow> pyfloat" where
  "f_sub a b = f_add a (f_neg b)"

fun f_mul :: "pyfloat \<Rightarrow> pyfloat \<Rightarrow> pyfloat" where
  "f_mul (Finite x) (Finite y) = Finite (x * y)"
| "f_mul (Finite x) PosInf = f_inf x"
| "f_mul (Finite x) NegInf = f_inf (- x)"
| "f_mul PosInf (Finite y) = f_inf y"
| "f_mul NegInf (Finite y) = f_inf (- y)"
| "f_mul PosInf PosInf = PosInf"
| "f_mul NegInf NegInf = PosInf"
| "f_mul PosInf NegInf = NegInf"
| "f_mul NegInf PosInf = NegInf"
| "f_mul NaN b = NaN"
| "f_mul a NaN = NaN"

text \<open>
  The division of numpy, which does not raise: a finite number divided by zero is an
  infinity of its sign, \<open>0 / 0\<close> and \<open>inf / inf\<close> are \<open>nan\<close>.
\<close>

fun f_div :: "pyfloat \<Rightarrow> pyfloat \<Rightarrow> pyfloat" where
  "f_div (Finite x) (Finite y) = (if y = 0 then f_inf x else Finite (x / y))"
| "f_div (Finite x) PosInf = Finite 0"
| "f_div (Finite x) NegInf = Finite 0"
| "f_div PosInf (Finite y) = (if 0 \<le> y then PosInf else NegInf)"
| "f_div NegInf (Finite y) = (if 0 \<le> y then NegInf else PosInf)"
| "f_div PosInf PosInf = NaN"
| "f_div NegInf NegInf = NaN"
| "f_div PosInf NegInf = NaN"
| "f_div NegInf PosInf = NaN"
| "f_div NaN b = NaN"
| "f_div a NaN = NaN"

text \<open>\<open>a < b\<close> on floats: false as soon as one of them is \<open>nan\<close>.\<close>

fun f_less :: "pyfloat \<Rightarrow> pyfloat \<Rightarrow> bool" where
  "f_less (Finite x) (Finite y) = (x < y)"
| "f_less (Finite x) PosInf = True"
| "f_less NegInf (Finite y) = True"
| "f_less NegInf PosInf = True"
| "f_less (Finite x) NegInf = False"
| "f_less PosInf b = False"
| "f_less NegInf NegInf = False"
| "f_less NaN b = False"
| "f_less a NaN = False"

text \<open>
  The exceptions the source raises. The exception of line 275 of corrections.py is a
  plain \<open>Exception\<close>, named NumericalInstability after the spec; it carries the number
  in its message.
\<close>

datatype py_error =
    ValueError
  | TypeError
  | ZeroDivisionError
  | IndexError
  | OverflowError
  | UnboundLocalError
  | NumericalInstability pyfloat

text \<open>\<open>int(x)\<close> of a finite float truncates towards zero.\<close>

definition py_int :: "real \<Rightarrow> int" where
  "py_int x = (if 0 \<le> x then \<lfloor>x\<rfloor> else \<lceil>x\<rceil>)"

text \<open>\<open>[*range(a, b)]\<close> over Python's unbounded integers.\<close>

definition py_range :: "int \<Rightarrow> int \<Rightarrow> int list" where
  "py_range a b = [a..b - 1]"

text \<open>
  \<open>xs[i]\<close> on a list or a one-dimensional array: a negative index counts from the
  end, an index outside \<open>-n \<le> i < n\<close> raises IndexError.
\<close>

definition py_get :: "'a list \<Rightarrow> int \<Rightarrow> py_error + 'a" where
  "py_get xs i =
     (if 0 \<le> i \<and> i < int (length xs) then Inr (xs ! nat i)
      else if - int (length xs) \<le> i \<and> i < 0 then Inr (xs ! nat (int (length xs) + i))
      else Inl IndexError)"

text \<open>The same on a 3-tuple (\<open>lattice.abc\<close>, the fractional coordinates).\<close>

type_synonym vec3 = "real \<times> real \<times> real"

definition list3 :: "'a \<times> 'a \<times> 'a \<Rightarrow> 'a list" where
  "list3 t = (case t of (a, b, c) \<Rightarrow> [a, b, c])"

definition py_get3 :: "'a \<times> 'a \<times> 'a \<Rightarrow> int \<Rightarrow> py_error + 'a" where
  "py_get3 t i = py_get (list3 t) i"

section \<open>Defect.get_charge_states (defect/core.py)\<close>

text \<open>
  The fields of \<open>Defect\<close>; the structure and the site are objects of pymatgen's core
  and stay abstract.
\<close>

record ('s, 'p) defect =
  "structure" :: 's
  site :: 'p
  symprec :: real
  angle_tolerance :: real
  multiplicity :: int
  oxi_state :: pyfloat

text \<open>\<open>float.is_integer()\<close>: true exactly for the finite floats with no fractional part.\<close>

fun is_integer :: "pyfloat \<Rightarrow> bool" where
  "is_integer (Finite x) = (of_int \<lfloor>x\<rfloor> = x)"
| "is_integer PosInf = False"
| "is_integer NegInf = False"
| "is_integer NaN = False"

text \<open>\<open>int(self.oxi_state)\<close>: OverflowError on an infinity, ValueError on a nan.\<close>

fun int_of_pyfloat :: "pyfloat \<Rightarrow> py_error + int" where
  "int_of_pyfloat (Finite x) = Inr (py_int x)"
| "int_of_pyfloat PosInf = Inl OverflowError"
| "int_of_pyfloat NegInf = Inl OverflowError"
| "int_of_pyfloat NaN = Inl ValueError"

definition get_charge_states :: "('s, 'p) defect \<Rightarrow> py_error + int list" where
  "get_charge_states self =
     (if is_integer (oxi_state self) then
        (case int_of_pyfloat (oxi_state self) of
           Inl e \<Rightarrow> Inl e
         | Inr oxi \<Rightarrow>
             if oxi \<ge> 0 then Inr (py_range (-1) (oxi + 2))
             else Inr (py_range (oxi - 1) 2))
      else Inl ValueError)"

section \<open>Collaborators of the corrections module (defects/corrections.py)\<close>

text \<open>
  What a caller hands to the corrections (the lattice, the charge, the profiles and
  grids, the tolerances) holds finite floats: real numbers. The floats the corrections
  compute from them, and the dielectric constant, which the corrections may have
  computed as the mean of a diagonal, are extended.

  pymatgen's \<open>Lattice\<close>, as far as the corrections read it: the rows of the matrix
  (\<open>get_cartesian_coords(1)\<close>), the lengths \<open>abc\<close>, the lengths of the reciprocal
  lattice (\<open>reciprocal_lattice.abc\<close>) and the volume.
\<close>

record lattice =
  matrix :: "vec3 \<times> vec3 \<times> vec3"
  abc :: vec3
  reciprocal_abc :: vec3
  volume :: real

text \<open>\<open>QModel\<close> (defects/utils.py, not among the sources): taken as a parameter.\<close>

record q_model =
  rho_rec :: "real \<Rightarrow> real"
  rho_rec_limit0 :: real

text \<open>
  The names imported from defects/utils.py (the two unit constants, \<open>eV_to_k\<close>,
  \<open>generate_reciprocal_vectors_squared\<close>) and scipy's \<open>integrate.quad\<close> (its first
  component): parameters of the model.
\<close>

record utils =
  ang_to_bohr :: real
  hart_to_ev :: real
  eV_to_k :: "real \<Rightarrow> real"
  generate_reciprocal_vectors_squared :: "vec3 \<Rightarrow> vec3 \<Rightarrow> vec3 \<Rightarrow> real \<Rightarrow> real list"
  quad :: "(real \<Rightarrow> real) \<Rightarrow> real \<Rightarrow> real \<Rightarrow> real"

section \<open>numpy operations on one-dimensional arrays\<close>

text \<open>\<open>np.roll(xs, k)\<close>: a new array with \<open>result[i] = xs[(i - k) mod n]\<close>.\<close>

definition np_roll :: "'a list \<Rightarrow> int \<Rightarrow> 'a list" where
  "np_roll xs k =
     (let n = length xs in map (\<lambda>i. xs ! nat ((int i - k) mod int n)) [0..<n])"

text \<open>
  \<open>np.arange(start, stop, 1, dtype=int)\<close>: \<open>ceil(stop - start)\<close> entries; the first
  is \<open>start\<close> cast to an integer, and the step that fills the array is the cast of
  \<open>start + 1\<close> minus the cast of \<open>start\<close>.
\<close>

definition np_arange_int :: "real \<Rightarrow> real \<Rightarrow> int list" where
  "np_arange_int start stop =
     (let first = py_int start; delta = py_int (start + 1) - first
      in map (\<lambda>k. first + int k * delta) [0..<nat \<lceil>stop - start\<rceil>])"

text \<open>
  \<open>a - b\<close> on two one-dimensional arrays: elementwise, an array of length one is
  broadcast, any other mismatch of lengths raises ValueError.
\<close>

definition np_sub :: "pyfloat list \<Rightarrow> pyfloat list \<Rightarrow> py_error + pyfloat list" where
  "np_sub a b =
     (if length a = length b then Inr (map2 f_sub a b)
      else if length a = 1 then Inr (map (\<lambda>y. f_sub (hd a) y) b)
      else if length b = 1 then Inr (map (\<lambda>y. f_sub y (hd b)) a)
      else Inl ValueError)"

text \<open>The sum of an array; \<open>np.mean\<close> divides it by the length (\<open>nan\<close> for no entries).\<close>

primrec f_sum :: "pyfloat list \<Rightarrow> pyfloat" where
  "f_sum [] = Finite 0"
| "f_sum (x # xs) = f_add x (f_sum xs)"

definition np_mean :: "pyfloat list \<Rightarrow> pyfloat" where
  "np_mean xs = f_div (f_sum xs) (Finite (real (length xs)))"

text \<open>
  \<open>xs.max()\<close> of an array with at least one entry: \<open>nan\<close> as soon as one entry is,
  the largest entry otherwise.
\<close>

definition f_max :: "pyfloat \<Rightarrow> pyfloat \<Rightarrow> pyfloat" where
  "f_max a b = (if a = NaN \<or> b = NaN then NaN else if f_less a b then b else a)"

definition np_max :: "pyfloat list \<Rightarrow> pyfloat" where
  "np_max xs = foldl f_max (hd xs) (tl xs)"

text \<open>
  \<open>np.fft.fft\<close> of a complex array whose imaginary parts are zero, given by its real
  parts: the discrete Fourier transform \<open>X[k] = sum_j x[j] exp(-2 pi i j k / n)\<close>, as
  pairs of real and imaginary part. A sample enters a sum as it is where the factor is
  1 (\<open>j k\<close> a multiple of \<open>n\<close>), and scaled by the cosine and the negated sine
  elsewhere. The library computes these sums by a fast algorithm, in another order;
  where a sample is an infinity or a \<open>nan\<close> and the length has several odd factors,
  that order can decide between an infinity and a \<open>nan\<close> in an entry, and the
  model takes the sums as they are written here.
\<close>

definition fft_term :: "nat \<Rightarrow> pyfloat \<Rightarrow> nat \<Rightarrow> nat \<Rightarrow> pyfloat \<times> pyfloat" where
  "fft_term n x j k =
     (if (j * k) mod n = 0 then (x, Finite 0)
      else (f_mul x (Finite (cos (2 * pi * real j * real k / real n))),
            f_mul x (Finite (- sin (2 * pi * real j * real k / real n)))))"

definition np_fft :: "pyfloat list \<Rightarrow> (pyfloat \<times> pyfloat) list" where
  "np_fft xs =
     (let n = length xs
      in map (\<lambda>k. (f_sum (map (\<lambda>j. fst (fft_term n (xs ! j) j k)) [0..<n]),
                   f_sum (map (\<lambda>j. snd (fft_term n (xs ! j) j k)) [0..<n]))) [0..<n])"

text \<open>
  A complex number divided by a float \<open>c\<close>, as numpy's loop for complex division does
  it for the divisor \<open>c + 0j\<close>: with \<open>rat = 0 / c\<close> and \<open>scl = 1 / c\<close> the quotient of
  \<open>a + b j\<close> is \<open>(a + b * rat) * scl + (b - a * rat) * scl j\<close>; for \<open>c = 0\<close> it is
  \<open>a / 0 + (b / 0) j\<close>.
\<close>

definition np_cdiv :: "pyfloat \<times> pyfloat \<Rightarrow> real \<Rightarrow> pyfloat \<times> pyfloat" where
  "np_cdiv z c =
     (case z of (a, b) \<Rightarrow>
        if c = 0 then (f_div a (Finite 0), f_div b (Finite 0))
        else (f_mul (f_add a (f_mul b (Finite 0))) (Finite (1 / c)),
              f_mul (f_sub b (f_mul a (Finite 0))) (Finite (1 / c))))"

section \<open>perform_pot_corr\<close>

text \<open>Lines 242-247: the defect's position on the axis, shifted by one axis length at most.\<close>

definition wrap_axbulkval :: "real \<Rightarrow> real \<Rightarrow> real" where
  "wrap_axbulkval axfracval len =
     (let axbulkval = axfracval * len
      in if axbulkval < 0 then axbulkval + len
         else if axbulkval > len then axbulkval - len
         else axbulkval)"

definition defect_axis_position :: "lattice \<Rightarrow> vec3 option \<Rightarrow> int \<Rightarrow> py_error + real" where
  "defect_axis_position lat defect_frac_coords axis =
     (case defect_frac_coords of
        None \<Rightarrow> Inl TypeError
      | Some coords \<Rightarrow>
          (case py_get3 coords axis of
             Inl e \<Rightarrow> Inl e
           | Inr axfracval \<Rightarrow>
               (case py_get3 (abc lat) axis of
                  Inl e \<Rightarrow> Inl e
                | Inr len \<Rightarrow> Inr (wrap_axbulkval axfracval len))))"

text \<open>
  Lines 250-252: the loop \<open>for i in range(nx): if axbulkval < axis_grid[i]: break\<close>,
  started at index \<open>i\<close> on the rest of the grid. Its value is \<open>i\<close> after the loop:
  the index of the break, the last index when there is no break, and nothing when
  the grid is empty (\<open>i\<close> is never bound).
\<close>

fun roll_scan :: "real \<Rightarrow> real list \<Rightarrow> nat \<Rightarrow> nat option" where
  "roll_scan axbulkval [] i = None"
| "roll_scan axbulkval [g] i = Some i"
| "roll_scan axbulkval (g # g' # gs) i =
     (if axbulkval < g then Some i else roll_scan axbulkval (g' # gs) (Suc i))"

text \<open>Lines 249-255: both profiles rolled by \<open>len(axis_grid) - i\<close>, unless \<open>axbulkval\<close> is 0.\<close>

definition shift_profiles ::
  "real \<Rightarrow> real list \<Rightarrow> real list \<Rightarrow> real list \<Rightarrow> py_error + (real list \<times> real list)" where
  "shift_profiles axbulkval axis_grid pureavg defavg =
     (if axbulkval \<noteq> 0 then
        (case roll_scan axbulkval axis_grid 0 of
           None \<Rightarrow> Inl UnboundLocalError
         | Some i \<Rightarrow>
             (let rollind = int (length axis_grid) - int i
              in Inr (np_roll pureavg rollind, np_roll defavg rollind)))
      else Inr (pureavg, defavg))"

text \<open>Lines 259-261: the step of the reciprocal grid, in atomic units.\<close>

definition reciprocal_step :: "utils \<Rightarrow> lattice \<Rightarrow> int \<Rightarrow> py_error + real" where
  "reciprocal_step U lat axis =
     (case py_get3 (reciprocal_abc lat) axis of
        Inl e \<Rightarrow> Inl e
      | Inr dg \<Rightarrow> if ang_to_bohr U = 0 then Inl ZeroDivisionError else Inr (dg / ang_to_bohr U))"

text \<open>Line 266: \<open>np.roll(np.arange(-nx / 2, nx / 2, 1, dtype=int), int(nx / 2)) * dg\<close>.\<close>

definition g_grid :: "nat \<Rightarrow> real \<Rightarrow> real list" where
  "g_grid nx dg =
     map (\<lambda>m. real_of_int m * dg)
       (np_roll (np_arange_int (- (real nx / 2)) (real nx / 2)) (py_int (real nx / 2)))"

text \<open>
  Line 265, the right-hand side \<open>4 * np.pi * -q / dielectric * q_model.rho_rec_limit0\<close>:
  Python floats, whose division by zero raises.
\<close>

definition v_G_limit :: "real \<Rightarrow> pyfloat \<Rightarrow> q_model \<Rightarrow> py_error + pyfloat" where
  "v_G_limit q dielectric qm =
     (if dielectric = Finite 0 then Inl ZeroDivisionError
      else Inr (f_mul (f_div (Finite (4 * pi * (- q))) dielectric) (Finite (rho_rec_limit0 qm))))"

text \<open>
  Line 268, one bin: \<open>4 * np.pi / (dielectric * g2) * -q * q_model.rho_rec(g2)\<close> on
  arrays, where numpy divides by zero without raising. The product of a negative
  dielectric constant and the square 0 is the negative zero of the floats, and the
  quotient by it is \<open>-inf\<close>.
\<close>

definition v_G_bin :: "real \<Rightarrow> pyfloat \<Rightarrow> q_model \<Rightarrow> real \<Rightarrow> pyfloat" where
  "v_G_bin q dielectric qm g2 =
     (let quotient =
            (if g2 = 0 \<and> is_finite dielectric \<and> f_less dielectric (Finite 0) then NegInf
             else f_div (Finite (4 * pi)) (f_mul dielectric (Finite g2)))
      in f_mul (f_mul quotient (Finite (- q))) (Finite (rho_rec qm g2)))"

text \<open>
  Lines 264-269: the real parts of \<open>v_G\<close> (its imaginary parts are zero). Bin 0 holds
  the limit of the charge model, its assignment needs a bin 0 (IndexError); the other
  bins come from the squares of \<open>g[1:]\<close>; line 269 overwrites the bin \<open>nx // 2\<close> of an
  even grid.
\<close>

definition build_v_G ::
  "nat \<Rightarrow> real \<Rightarrow> pyfloat \<Rightarrow> q_model \<Rightarrow> real \<Rightarrow> py_error + pyfloat list" where
  "build_v_G nx q dielectric qm dg =
     (case v_G_limit q dielectric qm of
        Inl e \<Rightarrow> Inl e
      | Inr v0 \<Rightarrow>
          if nx = 0 then Inl IndexError
          else
            (let v = v0 # map (v_G_bin q dielectric qm) (tl (map (\<lambda>y. y * y) (g_grid nx dg)))
             in Inr (if nx mod 2 = 0 then v[nx div 2 := Finite 0] else v)))"

text \<open>
  Lines 272-277: the transform, the test \<open>abs(np.imag(v_R).max()) > mad_tol\<close> with its
  exception (carrying the maximum), the division by the volume in bohr and the real
  part in eV. The maximum of an array with no entry raises ValueError.
\<close>

definition real_space_potential ::
  "utils \<Rightarrow> lattice \<Rightarrow> real \<Rightarrow> pyfloat list \<Rightarrow> py_error + pyfloat list" where
  "real_space_potential U lat mad_tol v_G =
     (let v_R = np_fft v_G
      in if v_R = [] then Inl ValueError
         else
           (let imax = np_max (map snd v_R)
            in if f_less (Finite mad_tol) (f_abs imax) then Inl (NumericalInstability imax)
               else Inr (map (\<lambda>z. f_mul (fst (np_cdiv z (volume lat * ang_to_bohr U ^ 3)))
                                    (Finite (hart_to_ev U))) v_R)))"

text \<open>
  The spec's words for the test of line 274: the imaginary residual of the transformed
  array is the maximum absolute value of its imaginary components.
\<close>

definition spec_imaginary_residual :: "(pyfloat \<times> pyfloat) list \<Rightarrow> pyfloat" where
  "spec_imaginary_residual v_R = np_max (map (\<lambda>z. f_abs (snd z)) v_R)"

text \<open>Line 280: \<open>short = defavg - pureavg - v_R\<close>; \<open>dft_diff\<close> of line 308 is its first part.\<close>

definition dft_difference :: "real list \<Rightarrow> real list \<Rightarrow> py_error + pyfloat list" where
  "dft_difference defavg pureavg = np_sub (map Finite defavg) (map Finite pureavg)"

definition short_range :: "real list \<Rightarrow> real list \<Rightarrow> pyfloat list \<Rightarrow> py_error + pyfloat list" where
  "short_range defavg pureavg v_R =
     (case dft_difference defavg pureavg of
        Inl e \<Rightarrow> Inl e
      | Inr d \<Rightarrow> np_sub d v_R)"

text \<open>Line 281: \<open>checkdis = int((widthsample / 2) / (axis_grid[1] - axis_grid[0]))\<close>.\<close>

definition checkdis_of :: "real list \<Rightarrow> real \<Rightarrow> py_error + int" where
  "checkdis_of axis_grid widthsample =
     (case py_get axis_grid 1 of
        Inl e \<Rightarrow> Inl e
      | Inr g1 \<Rightarrow>
          (case py_get axis_grid 0 of
             Inl e \<Rightarrow> Inl e
           | Inr g0 \<Rightarrow>
               if g1 - g0 = 0 then Inl ZeroDivisionError
               else Inr (py_int ((widthsample / 2) / (g1 - g0)))))"

text \<open>A list comprehension \<open>[xs[i] for i in idx]\<close>: the first failing read ends it.\<close>

fun py_gets :: "'a list \<Rightarrow> int list \<Rightarrow> py_error + 'a list" where
  "py_gets xs [] = Inr []"
| "py_gets xs (i # idx) =
     (case py_get xs i of
        Inl e \<Rightarrow> Inl e
      | Inr v \<Rightarrow> (case py_gets xs idx of Inl e \<Rightarrow> Inl e | Inr vs \<Rightarrow> Inr (v # vs)))"

text \<open>
  Lines 281-290: the window \<open>mid - checkdis .. mid + checkdis\<close> of \<open>short\<close>, then the
  two reads of \<open>axis_grid\<close> that the debug message evaluates. An empty window makes
  \<open>scipy.stats.describe\<close> (line 315) raise ValueError.
\<close>

definition sampling_window ::
  "real list \<Rightarrow> pyfloat list \<Rightarrow> real \<Rightarrow> py_error + (int \<times> int \<times> pyfloat list)" where
  "sampling_window axis_grid short widthsample =
     (case checkdis_of axis_grid widthsample of
        Inl e \<Rightarrow> Inl e
      | Inr checkdis \<Rightarrow>
          (let mid = int (length short) div 2
           in case py_gets short (py_range (mid - checkdis) (mid + checkdis + 1)) of
                Inl e \<Rightarrow> Inl e
              | Inr tmppot \<Rightarrow>
                  (case py_gets axis_grid [mid - checkdis, mid + checkdis] of
                     Inl e \<Rightarrow> Inl e
                   | Inr region \<Rightarrow>
                       if tmppot = [] then Inl ValueError
                       else Inr (mid - checkdis, mid + checkdis + 1, tmppot))))"

text \<open>
  The metadata of lines 304-317; \<open>scipy.stats.describe\<close> is kept as its argument, the
  sampled window.
\<close>

record pot_metadata =
  plot_Vr :: "pyfloat list"
  plot_x :: "real list"
  plot_dft_diff :: "pyfloat list"
  plot_final_shift :: "pyfloat list"
  plot_check :: "int \<times> int"
  stats_sample :: "pyfloat list"
  potcorr :: pyfloat

text \<open>Lines 259-269 together: the model potential in reciprocal space.\<close>

definition model_potential ::
  "utils \<Rightarrow> nat \<Rightarrow> lattice \<Rightarrow> real \<Rightarrow> int \<Rightarrow> pyfloat \<Rightarrow> q_model \<Rightarrow> py_error + pyfloat list" where
  "model_potential U nx lat q axis dielectric qm =
     (case reciprocal_step U lat axis of
        Inl e \<Rightarrow> Inl e
      | Inr dg \<Rightarrow> build_v_G nx q dielectric qm dg)"

text \<open>Lines 280-317: the short-range part, its sampled window, the constant and the metadata.\<close>

definition align_window ::
  "real list \<Rightarrow> real list \<Rightarrow> real list \<Rightarrow> real \<Rightarrow> pyfloat list \<Rightarrow> real \<Rightarrow>
   py_error + (pyfloat \<times> pot_metadata)" where
  "align_window axis_grid pureavg defavg q v_R widthsample =
     (case short_range defavg pureavg v_R of
        Inl e \<Rightarrow> Inl e
      | Inr short \<Rightarrow>
     (case sampling_window axis_grid short widthsample of
        Inl e \<Rightarrow> Inl e
      | Inr (lo, hi, tmppot) \<Rightarrow>
     (case dft_difference defavg pureavg of
        Inl e \<Rightarrow> Inl e
      | Inr diff \<Rightarrow>
          (let C = f_neg (np_mean tmppot);
               pot_corr = f_mul (Finite (- q)) C
           in Inr (pot_corr,
                \<lparr>plot_Vr = map (\<lambda>elmnt. f_sub elmnt C) v_R,
                 plot_x = axis_grid,
                 plot_dft_diff = diff,
                 plot_final_shift = map (\<lambda>j. f_add (short ! j) C) [0..<length v_R],
                 plot_check = (lo, hi),
                 stats_sample = tmppot,
                 potcorr = f_mul (Finite (- q)) C\<rparr>)))))"

text \<open>
  Lines 257-319: what follows the shift, from the profiles that have the defect at
  index 0.
\<close>

definition align_shifted ::
  "utils \<Rightarrow> real list \<Rightarrow> real list \<Rightarrow> real list \<Rightarrow> lattice \<Rightarrow> real \<Rightarrow> int \<Rightarrow> pyfloat \<Rightarrow>
   q_model \<Rightarrow> real \<Rightarrow> real \<Rightarrow> py_error + (pyfloat \<times> pot_metadata)" where
  "align_shifted U axis_grid pureavg defavg lat q axis dielectric qm mad_tol widthsample =
     (case model_potential U (length axis_grid) lat q axis dielectric qm of
        Inl e \<Rightarrow> Inl e
      | Inr v_G \<Rightarrow>
     (case real_space_potential U lat mad_tol v_G of
        Inl e \<Rightarrow> Inl e
      | Inr v_R \<Rightarrow> align_window axis_grid pureavg defavg q v_R widthsample))"

text \<open>Lines 238-319.\<close>

definition perform_pot_corr ::
  "utils \<Rightarrow> real list \<Rightarrow> real list \<Rightarrow> real list \<Rightarrow> lattice \<Rightarrow> real \<Rightarrow> vec3 option \<Rightarrow> int \<Rightarrow>
   pyfloat \<Rightarrow> q_model \<Rightarrow> real \<Rightarrow> real \<Rightarrow> py_error + (pyfloat \<times> pot_metadata)" where
  "perform_pot_corr U axis_grid pureavg defavg lat q defect_frac_coords axis dielectric qm
     mad_tol widthsample =
     (case defect_axis_position lat defect_frac_coords axis of
        Inl e \<Rightarrow> Inl e
      | Inr axbulkval \<Rightarrow>
     (case shift_profiles axbulkval axis_grid pureavg defavg of
        Inl e \<Rightarrow> Inl e
      | Inr (pureavg', defavg') \<Rightarrow>
          align_shifted U axis_grid pureavg' defavg' lat q axis dielectric qm mad_tol
            widthsample))"

text \<open>
  Inputs on which no step of \<open>perform_pot_corr\<close> raises or leaves the finite floats:
  coordinates are given and the axis is one of the tuple; the grid has an even length
  of at least two and both profiles have its length; the constants, the volume, the
  reciprocal length and the grid spacing are not zero; the tolerance is not negative;
  the sampled window lies inside the grid.
\<close>

definition well_formed_pot_input ::
  "utils \<Rightarrow> real list \<Rightarrow> real list \<Rightarrow> real list \<Rightarrow> lattice \<Rightarrow> vec3 option \<Rightarrow> int \<Rightarrow> real \<Rightarrow>
   real \<Rightarrow> bool" where
  "well_formed_pot_input U axis_grid pureavg defavg lat coords axis mad_tol widthsample =
     (coords \<noteq> None \<and> - 3 \<le> axis \<and> axis < 3
      \<and> even (length axis_grid) \<and> 2 \<le> length axis_grid
      \<and> length pureavg = length axis_grid \<and> length defavg = length axis_grid
      \<and> ang_to_bohr U \<noteq> 0 \<and> volume lat \<noteq> 0 \<and> 0 \<le> mad_tol
      \<and> projr (py_get3 (reciprocal_abc lat) axis) \<noteq> 0
      \<and> axis_grid ! 1 - axis_grid ! 0 \<noteq> 0
      \<and> 0 \<le> py_int ((widthsample / 2) / (axis_grid ! 1 - axis_grid ! 0))
      \<and> int (length axis_grid) div 2
           + py_int ((widthsample / 2) / (axis_grid ! 1 - axis_grid ! 0))
         < int (length axis_grid))"

section \<open>perform_es_corr\<close>

text \<open>
  Modelled from the spec: \<open>converge\<close> of defects/utils.py is not among the sources.
  The spec (4.2): evaluate \<open>f\<close> at increasing cutoffs; stop when two consecutive
  values differ by less than the tolerance, or when the cutoff exceeds the maximal
  cutoff, and then still return the last computed value. The cutoffs grow additively
  by the initial cutoff and the difference is the absolute one. A loop that never
  stops is \<open>None\<close>.
\<close>

partial_function (option) converge_loop ::
  "(real \<Rightarrow> pyfloat) \<Rightarrow> real \<Rightarrow> real \<Rightarrow> real \<Rightarrow> real \<Rightarrow> pyfloat option \<Rightarrow> pyfloat option" where
  "converge_loop f step tol max_cutoff c prev =
     (if (prev \<noteq> None \<and> f_less (f_abs (f_sub (f c) (the prev))) (Finite tol)) \<or> max_cutoff < c
      then Some (f c)
      else converge_loop f step tol max_cutoff (c + step) (Some (f c)))"

definition converge :: "(real \<Rightarrow> pyfloat) \<Rightarrow> real \<Rightarrow> real \<Rightarrow> real \<Rightarrow> pyfloat option" where
  "converge f initial_cutoff tol max_cutoff =
     converge_loop f initial_cutoff tol max_cutoff initial_cutoff None"

text \<open>
  \<open>round(x, 6)\<close>: a finite float to the nearest multiple of \<open>10^-6\<close>, a tie to the even
  one; an infinity or a \<open>nan\<close> is returned as it is.
\<close>

definition round_half_even :: "real \<Rightarrow> int" where
  "round_half_even y =
     (let f = \<lfloor>y\<rfloor>; d = y - of_int f
      in if d < 1 / 2 then f else if 1 / 2 < d then f + 1
         else if even f then f else f + 1)"

fun py_round6 :: "pyfloat \<Rightarrow> pyfloat" where
  "py_round6 (Finite y) = Finite (of_int (round_half_even (y * 10 ^ 6)) / 10 ^ 6)"
| "py_round6 PosInf = PosInf"
| "py_round6 NegInf = NegInf"
| "py_round6 NaN = NaN"

definition scale3 :: "real \<Rightarrow> vec3 \<Rightarrow> vec3" where
  "scale3 c v = (case v of (a, b, d) \<Rightarrow> (c * a, c * b, c * d))"

definition cross3 :: "vec3 \<Rightarrow> vec3 \<Rightarrow> vec3" where
  "cross3 u v =
     (case u of (u1, u2, u3) \<Rightarrow> case v of (v1, v2, v3) \<Rightarrow>
        (u2 * v3 - u3 * v2, u3 * v1 - u1 * v3, u1 * v2 - u2 * v1))"

definition dot3 :: "vec3 \<Rightarrow> vec3 \<Rightarrow> real" where
  "dot3 u v =
     (case u of (u1, u2, u3) \<Rightarrow> case v of (v1, v2, v3) \<Rightarrow> u1 * v1 + u2 * v2 + u3 * v3)"

text \<open>Lines 165-167: the lattice vectors in bohr and the volume they span.\<close>

definition bohr_vectors :: "utils \<Rightarrow> lattice \<Rightarrow> vec3 \<times> vec3 \<times> vec3" where
  "bohr_vectors U lat =
     (case matrix lat of (r1, r2, r3) \<Rightarrow>
        (scale3 (ang_to_bohr U) r1, scale3 (ang_to_bohr U) r2, scale3 (ang_to_bohr U) r3))"

definition bohr_volume :: "utils \<Rightarrow> lattice \<Rightarrow> real" where
  "bohr_volume U lat = (case bohr_vectors U lat of (a1, a2, a3) \<Rightarrow> dot3 a1 (cross3 a2 a3))"

text \<open>Lines 169-175: the energy of the isolated charge up to a cutoff.\<close>

definition e_iso :: "utils \<Rightarrow> real \<Rightarrow> q_model \<Rightarrow> real \<Rightarrow> real \<Rightarrow> pyfloat" where
  "e_iso U q qm step encut =
     (let gcut = eV_to_k U encut
      in Finite (quad U (\<lambda>g. (rho_rec qm (g * g)) ^ 2) step gcut * q ^ 2 / pi))"

text \<open>
  Lines 177-183: the energy of the periodic images up to a cutoff. The divisions by
  \<open>g2\<close> and by the volume are numpy's: a zero there gives an infinity or a \<open>nan\<close>.
\<close>

definition e_per :: "utils \<Rightarrow> lattice \<Rightarrow> real \<Rightarrow> q_model \<Rightarrow> real \<Rightarrow> pyfloat" where
  "e_per U lat q qm encut =
     (case bohr_vectors U lat of (a1, a2, a3) \<Rightarrow>
        (let vol = bohr_volume U lat;
             g2s = generate_reciprocal_vectors_squared U a1 a2 a3 encut;
             eper = f_sum (map (\<lambda>g2. f_div (Finite ((rho_rec qm g2) ^ 2)) (Finite g2)) g2s);
             eper1 = f_mul eper (f_div (Finite (q ^ 2 * 2 * (3141593 / 1000000))) (Finite vol))
         in f_add eper1
              (f_div (Finite (q ^ 2 * 4 * (3141593 / 1000000) * rho_rec_limit0 qm))
                 (Finite vol))))"

text \<open>
  Lines 185-196. \<open>None\<close> when one of the two calls of \<open>converge\<close> does not return; the
  division by the dielectric constant is numpy's.
\<close>

definition perform_es_corr ::
  "utils \<Rightarrow> lattice \<Rightarrow> real \<Rightarrow> pyfloat \<Rightarrow> q_model \<Rightarrow> real \<Rightarrow> real \<Rightarrow> real \<Rightarrow> pyfloat option" where
  "perform_es_corr U lat q dielectric qm energy_cutoff mad_tol step =
     (case converge (e_iso U q qm step) 5 mad_tol energy_cutoff of
        None \<Rightarrow> None
      | Some eiso \<Rightarrow>
          (case converge (e_per U lat q qm) 5 mad_tol energy_cutoff of
             None \<Rightarrow> None
           | Some eper \<Rightarrow>
               Some (py_round6 (f_mul (f_div (f_sub eiso eper) dielectric)
                                  (Finite (hart_to_ev U))))))"

section \<open>get_freysoldt_correction\<close>

text \<open>
  The dielectric argument: a Python number, or an array-like tensor given by its rows.
\<close>

datatype dielectric_arg = Scalar real | Tensor "real list list"

text \<open>\<open>np.diag\<close> of a two-dimensional array: the entries \<open>m[i][i]\<close>.\<close>

definition np_diag :: "real list list \<Rightarrow> real list" where
  "np_diag m = map (\<lambda>i. m ! i ! i) [0..<min (length m) (length (hd m))]"

text \<open>
  Lines 84-87: the number itself, or the mean of the diagonal, which is \<open>nan\<close> when the
  diagonal has no entry.
\<close>

definition dielectric_scalar :: "dielectric_arg \<Rightarrow> pyfloat" where
  "dielectric_scalar d =
     (case d of
        Scalar v \<Rightarrow> Finite v
      | Tensor m \<Rightarrow> np_mean (map Finite (np_diag m)))"

text \<open>
  pymatgen's \<open>Locpot\<close>, as far as it is read: the two methods called with the axes
  0, 1, 2 and the lattice of its structure.
\<close>

record locpot =
  get_axis_grid :: "int \<Rightarrow> real list"
  get_average_along_axis :: "int \<Rightarrow> real list"
  structure_lattice :: lattice

text \<open>The calls the orchestrator makes, in order.\<close>

datatype call = Call_perform_es_corr | Call_perform_pot_corr int

record frey_corr =
  freysoldt_electrostatic :: pyfloat
  freysoldt_potential_alignment :: pyfloat

text \<open>
  Lines 111-128: the loop over the zipped axes, from the dictionaries and the calls
  made so far. An exception of \<open>perform_pot_corr\<close> ends it.
\<close>

fun pot_corr_loop ::
  "utils \<Rightarrow> locpot \<Rightarrow> locpot \<Rightarrow> lattice \<Rightarrow> real \<Rightarrow> vec3 option \<Rightarrow> pyfloat \<Rightarrow> q_model \<Rightarrow> real \<Rightarrow>
   int list \<Rightarrow> (int \<times> pyfloat) list \<Rightarrow> (int \<times> pot_metadata) list \<Rightarrow> call list \<Rightarrow>
   call list \<times> (py_error + ((int \<times> pyfloat) list \<times> (int \<times> pot_metadata) list))" where
  "pot_corr_loop U defect_locpot bulk_locpot lat q coords dielectric qm mad_tol []
     pot_corrs plot_data calls = (calls, Inr (pot_corrs, plot_data))"
| "pot_corr_loop U defect_locpot bulk_locpot lat q coords dielectric qm mad_tol (axis # axes)
     pot_corrs plot_data calls =
     (case perform_pot_corr U (get_axis_grid defect_locpot axis)
             (get_average_along_axis bulk_locpot axis)
             (get_average_along_axis defect_locpot axis)
             lat q coords axis dielectric qm mad_tol 1 of
        Inl e \<Rightarrow> (calls @ [Call_perform_pot_corr axis], Inl e)
      | Inr (tmp_pot_corr, md) \<Rightarrow>
          pot_corr_loop U defect_locpot bulk_locpot lat q coords dielectric qm mad_tol axes
            (pot_corrs @ [(axis, tmp_pot_corr)]) (plot_data @ [(axis, md)])
            (calls @ [Call_perform_pot_corr axis]))"

text \<open>
  Lines 89-137, with the dielectric constant as the float of lines 84-87. The result is
  the list of calls made and, unless \<open>converge\<close> does not return, the exception or the
  pair of the correction and the plot data.
\<close>

definition freysoldt_with_scalar ::
  "utils \<Rightarrow> real \<Rightarrow> pyfloat \<Rightarrow> locpot \<Rightarrow> locpot \<Rightarrow> vec3 option \<Rightarrow> real \<Rightarrow> real \<Rightarrow>
   q_model \<Rightarrow> real \<Rightarrow>
   (call list \<times> (py_error + (frey_corr \<times> (int \<times> pot_metadata) list))) option" where
  "freysoldt_with_scalar U q eps defect_locpot bulk_locpot defect_frac_coords
     energy_cutoff mad_tol qm step =
     (let lat = structure_lattice defect_locpot
      in case perform_es_corr U lat q eps qm energy_cutoff mad_tol step of
           None \<Rightarrow> None
         | Some es_corr \<Rightarrow>
             (case pot_corr_loop U defect_locpot bulk_locpot lat q defect_frac_coords eps
                     qm mad_tol [0, 1, 2] [] [] [Call_perform_es_corr] of
                (calls, Inl e) \<Rightarrow> Some (calls, Inl e)
              | (calls, Inr (pot_corrs, plot_data)) \<Rightarrow>
                  Some (calls,
                    Inr (\<lparr>freysoldt_electrostatic = es_corr,
                          freysoldt_potential_alignment = np_mean (map snd pot_corrs)\<rparr>,
                         plot_data))))"

text \<open>Lines 83-137.\<close>

definition get_freysoldt_correction ::
  "utils \<Rightarrow> real \<Rightarrow> dielectric_arg \<Rightarrow> locpot \<Rightarrow> locpot \<Rightarrow> vec3 option \<Rightarrow> real \<Rightarrow> real \<Rightarrow>
   q_model \<Rightarrow> real \<Rightarrow>
   (call list \<times> (py_error + (frey_corr \<times> (int \<times> pot_metadata) list))) option" where
  "get_freysoldt_correction U q dielectric defect_locpot bulk_locpot defect_frac_coords
     energy_cutoff mad_tol qm step =
     freysoldt_with_scalar U q (dielectric_scalar dielectric) defect_locpot bulk_locpot
       defect_frac_coords energy_cutoff mad_tol qm step"

section \<open>The corrections on a store of objects\<close>

text \<open>
  Python passes references: the arrays, the lattice and the potentials a caller hands
  over are objects the callee could write to. Here the objects live in a store, the
  functions take addresses, and every statement of the source that creates an array
  allocates, every statement that assigns into an array writes. Numbers (the charge,
  a scalar dielectric constant) are immutable and passed as values. \<open>Floats\<close> are the
  arrays of finite floats (the caller's, and their rolled copies), \<open>Ext_floats\<close> and
  \<open>Complexes\<close> the arrays the corrections compute.
\<close>

datatype obj =
    Floats "real list"
  | Ext_floats "pyfloat list"
  | Complexes "(pyfloat \<times> pyfloat) list"
  | Matrix "real list list"
  | Lattice_obj lattice
  | Locpot_obj locpot

record store =
  mem :: "nat \<Rightarrow> obj option"
  next_addr :: nat

text \<open>A new object: numpy and pymatgen functions that return a new array or a copy.\<close>

definition alloc :: "obj \<Rightarrow> store \<Rightarrow> nat \<times> store" where
  "alloc v st =
     (next_addr st, st\<lparr>mem := (mem st)(next_addr st \<mapsto> v), next_addr := Suc (next_addr st)\<rparr>)"

text \<open>An assignment into the object at an address (\<open>v_G[...] = ...\<close>, \<open>v_R /= ...\<close>).\<close>

definition write_obj :: "nat \<Rightarrow> obj \<Rightarrow> store \<Rightarrow> store" where
  "write_obj a v st = st\<lparr>mem := (mem st)(a \<mapsto> v)\<rparr>"

definition floats_at :: "store \<Rightarrow> nat \<Rightarrow> real list" where
  "floats_at st a = (case mem st a of Some (Floats xs) \<Rightarrow> xs | _ \<Rightarrow> [])"

definition ext_floats_at :: "store \<Rightarrow> nat \<Rightarrow> pyfloat list" where
  "ext_floats_at st a = (case mem st a of Some (Ext_floats xs) \<Rightarrow> xs | _ \<Rightarrow> [])"

definition complexes_at :: "store \<Rightarrow> nat \<Rightarrow> (pyfloat \<times> pyfloat) list" where
  "complexes_at st a = (case mem st a of Some (Complexes zs) \<Rightarrow> zs | _ \<Rightarrow> [])"

text \<open>What a read of a missing object or of one of another kind stands for.\<close>

definition null_lattice :: lattice where
  "null_lattice =
     \<lparr>matrix = ((0, 0, 0), (0, 0, 0), (0, 0, 0)), abc = (0, 0, 0),
      reciprocal_abc = (0, 0, 0), volume = 0\<rparr>"

definition lattice_at :: "store \<Rightarrow> nat \<Rightarrow> lattice" where
  "lattice_at st a = (case mem st a of Some (Lattice_obj l) \<Rightarrow> l | _ \<Rightarrow> null_lattice)"

definition locpot_at :: "store \<Rightarrow> nat \<Rightarrow> locpot" where
  "locpot_at st a =
     (case mem st a of Some (Locpot_obj l) \<Rightarrow> l
      | _ \<Rightarrow> \<lparr>get_axis_grid = (\<lambda>axis. []), get_average_along_axis = (\<lambda>axis. []),
               structure_lattice = null_lattice\<rparr>)"

definition matrix_at :: "store \<Rightarrow> nat \<Rightarrow> real list list" where
  "matrix_at st a = (case mem st a of Some (Matrix m) \<Rightarrow> m | _ \<Rightarrow> [])"

text \<open>
  Lines 249-255 on the store: \<open>np.roll\<close> returns new arrays, to which the local names
  \<open>pureavg\<close> and \<open>defavg\<close> are rebound; without a roll they keep naming the caller's
  arrays.
\<close>

definition shift_profiles_st ::
  "real \<Rightarrow> nat \<Rightarrow> nat \<Rightarrow> nat \<Rightarrow> store \<Rightarrow> store \<times> (py_error + (nat \<times> nat))" where
  "shift_profiles_st axbulkval axis_grid pureavg defavg st =
     (case shift_profiles axbulkval (floats_at st axis_grid) (floats_at st pureavg)
             (floats_at st defavg) of
        Inl e \<Rightarrow> (st, Inl e)
      | Inr (pu, de) \<Rightarrow>
          if axbulkval \<noteq> 0 then
            (case alloc (Floats pu) st of (pureavg', st1) \<Rightarrow>
             case alloc (Floats de) st1 of (defavg', st2) \<Rightarrow> (st2, Inr (pureavg', defavg')))
          else (st, Inr (pureavg, defavg)))"

text \<open>
  Lines 259-269 on the store: \<open>np.empty\<close> allocates \<open>v_G\<close>, the grid \<open>g\<close> and its
  squares \<open>g2\<close> are new arrays, and the assignments of lines 265, 268 and 269 write
  into \<open>v_G\<close> (one write here, with the content they leave).
\<close>

definition model_potential_st ::
  "utils \<Rightarrow> nat \<Rightarrow> lattice \<Rightarrow> real \<Rightarrow> int \<Rightarrow> pyfloat \<Rightarrow> q_model \<Rightarrow> store \<Rightarrow>
   store \<times> (py_error + nat)" where
  "model_potential_st U nx lat q axis dielectric qm st =
     (case reciprocal_step U lat axis of
        Inl e \<Rightarrow> (st, Inl e)
      | Inr dg \<Rightarrow>
          (case alloc (Complexes (replicate nx (Finite 0, Finite 0))) st of (v_G, st1) \<Rightarrow>
           case build_v_G nx q dielectric qm dg of
             Inl e \<Rightarrow> (st1, Inl e)
           | Inr v \<Rightarrow>
               (case alloc (Floats (g_grid nx dg)) st1 of (g, st2) \<Rightarrow>
                case alloc (Floats (tl (map (\<lambda>y. y * y) (floats_at st2 g)))) st2 of (g2, st3) \<Rightarrow>
                  (write_obj v_G (Complexes (map (\<lambda>x. (x, Finite 0)) v)) st3, Inr v_G))))"

text \<open>
  Lines 272-277 on the store: \<open>np.fft.fft\<close> returns a new array \<open>v_R\<close>, line 276
  divides it in place, line 277 rebinds the name to a new array of reals.
\<close>

definition real_space_potential_st ::
  "utils \<Rightarrow> lattice \<Rightarrow> real \<Rightarrow> nat \<Rightarrow> store \<Rightarrow> store \<times> (py_error + nat)" where
  "real_space_potential_st U lat mad_tol v_G st =
     (case alloc (Complexes (np_fft (map fst (complexes_at st v_G)))) st of (v_R, st1) \<Rightarrow>
        if complexes_at st1 v_R = [] then (st1, Inl ValueError)
        else
          (let imax = np_max (map snd (complexes_at st1 v_R))
           in if f_less (Finite mad_tol) (f_abs imax) then (st1, Inl (NumericalInstability imax))
              else
                (let st2 = write_obj v_R
                       (Complexes (map (\<lambda>z. np_cdiv z (volume lat * ang_to_bohr U ^ 3))
                          (complexes_at st1 v_R))) st1
                 in case alloc (Ext_floats (map (\<lambda>z. f_mul (fst z) (Finite (hart_to_ev U)))
                                   (complexes_at st2 v_R))) st2 of
                      (v_R', st3) \<Rightarrow> (st3, Inr v_R'))))"

text \<open>
  Lines 280-317 on the store: \<open>short\<close>, the sampled window, \<open>final_shift\<close>, the shifted
  \<open>v_R\<close> and \<open>dft_diff\<close> are new objects; the metadata keeps the caller's \<open>axis_grid\<close>
  itself under \<open>x\<close>, whose address is returned with it.
\<close>

definition align_window_st ::
  "nat \<Rightarrow> nat \<Rightarrow> nat \<Rightarrow> real \<Rightarrow> nat \<Rightarrow> real \<Rightarrow> store \<Rightarrow>
   store \<times> (py_error + (pyfloat \<times> pot_metadata \<times> nat))" where
  "align_window_st axis_grid pureavg defavg q v_R widthsample st =
     (case align_window (floats_at st axis_grid) (floats_at st pureavg) (floats_at st defavg) q
             (ext_floats_at st v_R) widthsample of
        Inl e \<Rightarrow> (st, Inl e)
      | Inr (pot_corr, md) \<Rightarrow>
          (case alloc (Ext_floats (stats_sample md)) st of (tmppot, st1) \<Rightarrow>
           case alloc (Ext_floats (plot_final_shift md)) st1 of (final_shift, st2) \<Rightarrow>
           case alloc (Ext_floats (plot_Vr md)) st2 of (v_R', st3) \<Rightarrow>
           case alloc (Ext_floats (plot_dft_diff md)) st3 of (dft_diff, st4) \<Rightarrow>
             (st4, Inr (pot_corr, md, axis_grid))))"

text \<open>\<open>perform_pot_corr\<close> on the store, from the addresses of its array arguments and of the lattice.\<close>

definition perform_pot_corr_st ::
  "utils \<Rightarrow> nat \<Rightarrow> nat \<Rightarrow> nat \<Rightarrow> nat \<Rightarrow> real \<Rightarrow> vec3 option \<Rightarrow> int \<Rightarrow> pyfloat \<Rightarrow> q_model \<Rightarrow>
   real \<Rightarrow> real \<Rightarrow> store \<Rightarrow> store \<times> (py_error + (pyfloat \<times> pot_metadata \<times> nat))" where
  "perform_pot_corr_st U axis_grid pureavg defavg lattice_ref q defect_frac_coords axis
     dielectric qm mad_tol widthsample st =
     (let lat = lattice_at st lattice_ref
      in case defect_axis_position lat defect_frac_coords axis of
           Inl e \<Rightarrow> (st, Inl e)
         | Inr axbulkval \<Rightarrow>
        (case shift_profiles_st axbulkval axis_grid pureavg defavg st of
           (st1, Inl e) \<Rightarrow> (st1, Inl e)
         | (st1, Inr (pureavg', defavg')) \<Rightarrow>
        (case model_potential_st U (length (floats_at st1 axis_grid)) lat q axis dielectric qm st1 of
           (st2, Inl e) \<Rightarrow> (st2, Inl e)
         | (st2, Inr v_G) \<Rightarrow>
        (case real_space_potential_st U lat mad_tol v_G st2 of
           (st3, Inl e) \<Rightarrow> (st3, Inl e)
         | (st3, Inr v_R) \<Rightarrow>
             align_window_st axis_grid pureavg' defavg' q v_R widthsample st3))))"

text \<open>
  \<open>perform_es_corr\<close> on the store: it reads the lattice; the lattice vectors in bohr
  are a new array.
\<close>

definition perform_es_corr_st ::
  "utils \<Rightarrow> nat \<Rightarrow> real \<Rightarrow> pyfloat \<Rightarrow> q_model \<Rightarrow> real \<Rightarrow> real \<Rightarrow> real \<Rightarrow> store \<Rightarrow>
   (store \<times> pyfloat) option" where
  "perform_es_corr_st U lattice_ref q dielectric qm energy_cutoff mad_tol step st =
     (let lat = lattice_at st lattice_ref
      in case alloc (Matrix (case bohr_vectors U lat of (a1, a2, a3) \<Rightarrow> [list3 a1, list3 a2, list3 a3]))
                st of
           (a, st1) \<Rightarrow>
             (case perform_es_corr U lat q dielectric qm energy_cutoff mad_tol step of
                None \<Rightarrow> None
              | Some r \<Rightarrow> Some (st1, r)))"

text \<open>The dielectric argument on the store: a number, or the address of a matrix.\<close>

datatype dielectric_ref = Scalar_value real | Tensor_at nat

definition dielectric_arg_at :: "store \<Rightarrow> dielectric_ref \<Rightarrow> dielectric_arg" where
  "dielectric_arg_at st d =
     (case d of Scalar_value v \<Rightarrow> Scalar v | Tensor_at a \<Rightarrow> Tensor (matrix_at st a))"

text \<open>Lines 91-93 on the store: each method call of a potential returns a new list or array.\<close>

fun alloc_all :: "real list list \<Rightarrow> store \<Rightarrow> nat list \<times> store" where
  "alloc_all [] st = ([], st)"
| "alloc_all (xs # xss) st =
     (case alloc (Floats xs) st of (a, st1) \<Rightarrow>
      case alloc_all xss st1 of (as, st2) \<Rightarrow> (a # as, st2))"

text \<open>Lines 111-128 on the store, from the zipped addresses of the three axes.\<close>

fun pot_corr_loop_st ::
  "utils \<Rightarrow> nat \<Rightarrow> real \<Rightarrow> vec3 option \<Rightarrow> pyfloat \<Rightarrow> q_model \<Rightarrow> real \<Rightarrow>
   (nat \<times> nat \<times> nat \<times> int) list \<Rightarrow> (int \<times> pyfloat) list \<Rightarrow> (int \<times> pot_metadata) list \<Rightarrow>
   call list \<Rightarrow> store \<Rightarrow>
   store \<times> call list \<times> (py_error + ((int \<times> pyfloat) list \<times> (int \<times> pot_metadata) list))" where
  "pot_corr_loop_st U lattice_ref q coords dielectric qm mad_tol [] pot_corrs plot_data calls st =
     (st, calls, Inr (pot_corrs, plot_data))"
| "pot_corr_loop_st U lattice_ref q coords dielectric qm mad_tol ((x, pureavg, defavg, axis) # rest)
     pot_corrs plot_data calls st =
     (case perform_pot_corr_st U x pureavg defavg lattice_ref q coords axis dielectric qm mad_tol 1
             st of
        (st1, Inl e) \<Rightarrow> (st1, calls @ [Call_perform_pot_corr axis], Inl e)
      | (st1, Inr (tmp_pot_corr, md, x_ref)) \<Rightarrow>
          pot_corr_loop_st U lattice_ref q coords dielectric qm mad_tol rest
            (pot_corrs @ [(axis, tmp_pot_corr)]) (plot_data @ [(axis, md)])
            (calls @ [Call_perform_pot_corr axis]) st1)"

text \<open>
  \<open>get_freysoldt_correction\<close> on the store, from the dielectric argument and the
  addresses of the two potentials; line 96 copies the lattice.
\<close>

definition get_freysoldt_correction_st ::
  "utils \<Rightarrow> real \<Rightarrow> dielectric_ref \<Rightarrow> nat \<Rightarrow> nat \<Rightarrow> vec3 option \<Rightarrow> real \<Rightarrow> real \<Rightarrow> q_model \<Rightarrow>
   real \<Rightarrow> store \<Rightarrow>
   (store \<times> call list \<times> (py_error + (frey_corr \<times> (int \<times> pot_metadata) list))) option" where
  "get_freysoldt_correction_st U q dielectric defect_locpot bulk_locpot defect_frac_coords
     energy_cutoff mad_tol qm step st =
     (let eps = dielectric_scalar (dielectric_arg_at st dielectric)
      in case alloc_all (map (get_axis_grid (locpot_at st defect_locpot)) [0, 1, 2]) st of
             (list_axis_grid, st1) \<Rightarrow>
           case alloc_all (map (get_average_along_axis (locpot_at st1 defect_locpot)) [0, 1, 2]) st1 of
             (list_defect_plnr_avg_esp, st2) \<Rightarrow>
           case alloc_all (map (get_average_along_axis (locpot_at st2 bulk_locpot)) [0, 1, 2]) st2 of
             (list_bulk_plnr_avg_esp, st3) \<Rightarrow>
           case alloc (Lattice_obj (structure_lattice (locpot_at st3 defect_locpot))) st3 of
             (lattice_ref, st4) \<Rightarrow>
           (case perform_es_corr_st U lattice_ref q eps qm energy_cutoff mad_tol step st4 of
              None \<Rightarrow> None
            | Some (st5, es_corr) \<Rightarrow>
                (case pot_corr_loop_st U lattice_ref q defect_frac_coords eps qm mad_tol
                        (zip list_axis_grid (zip list_bulk_plnr_avg_esp
                           (zip list_defect_plnr_avg_esp [0, 1, 2])))
                        [] [] [Call_perform_es_corr] st5 of
                   (st6, calls, Inl e) \<Rightarrow> Some (st6, calls, Inl e)
                 | (st6, calls, Inr (pot_corrs, plot_data)) \<Rightarrow>
                     Some (st6, calls,
                       Inr (\<lparr>freysoldt_electrostatic = es_corr,
                             freysoldt_potential_alignment = np_mean (map snd pot_corrs)\<rparr>,
                            plot_data)))))"

text \<open>
  What a call leaves of the objects below an address: the store only grows and every
  object below the address is the one it was.
\<close>

definition unchanged_below :: "nat \<Rightarrow> store \<Rightarrow> store \<Rightarrow> bool" where
  "unchanged_below n st st' =
     (n \<le> next_addr st \<and> next_addr st \<le> next_addr st' \<and> (\<forall>a < n. mem st' a = mem st a))"

section \<open>Sample inputs\<close>

text \<open>A cubic cell of 10 angstrom, a Gaussian charge model and the unit constants.\<close>

definition cubic10 :: lattice where
  "cubic10 = \<lparr>matrix = ((10, 0, 0), (0, 10, 0), (0, 0, 10)), abc = (10, 10, 10),
     reciprocal_abc = (2 * pi / 10, 2 * pi / 10, 2 * pi / 10), volume = 1000\<rparr>"

definition gauss_model :: q_model where
  "gauss_model = \<lparr>rho_rec = (\<lambda>g2. exp (- g2 / 4)), rho_rec_limit0 = - 1 / 4\<rparr>"

definition sample_utils :: utils where
  "sample_utils =
     \<lparr>ang_to_bohr = 18897 / 10000, hart_to_ev = 272114 / 10000,
      eV_to_k = (\<lambda>encut. sqrt encut),
      generate_reciprocal_vectors_squared = (\<lambda>a1 a2 a3 encut. [1, 2, 4]),
      quad = (\<lambda>f a b. (b - a) * f a)\<rparr>"

text \<open>The real-space model potential of the sample inputs, at both grid points.\<close>

definition sample_v :: real where
  "sample_v = pi / (1000 * (18897 / 10000) ^ 3) * (272114 / 10000)"


text \<open>
  Two potentials on a grid of two points per axis; the defect's average depends on the
  axis.
\<close>

definition sample_defect_locpot :: locpot where
  "sample_defect_locpot =
     \<lparr>get_axis_grid = (\<lambda>axis. [0, 5]),
      get_average_along_axis = (\<lambda>axis. [3, 5 + of_int axis]),
      structure_lattice = cubic10\<rparr>"

definition sample_bulk_locpot :: locpot where
  "sample_bulk_locpot =
     \<lparr>get_axis_grid = (\<lambda>axis. [0, 5]),
      get_average_along_axis = (\<lambda>axis. [1, 2]),
      structure_lattice = cubic10\<rparr>"

text \<open>
  A store holding the objects of a caller: the two potentials, a lattice and three
  profiles of two grid points.
\<close>

definition sample_store :: store where
  "sample_store =
     \<lparr>mem = Map.empty(0 \<mapsto> Locpot_obj sample_defect_locpot, 1 \<mapsto> Locpot_obj sample_bulk_locpot,
              2 \<mapsto> Lattice_obj cubic10, 3 \<mapsto> Floats [0, 5], 4 \<mapsto> Floats [1, 2],
              5 \<mapsto> Floats [3, 5]),
      next_addr = 6\<rparr>"

section \<open>Defect.get_charge_states: the charge states of an oxidation state\<close>

lemma py_int_of_int: "py_int (of_int n) = n"
  by (simp add: py_int_def)

lemma is_integer_iff: "is_integer v \<longleftrightarrow> (\<exists>n. v = Finite (of_int n))"
proof (cases v)
  case (Finite r)
  have "(of_int \<lfloor>r\<rfloor> = r) \<longleftrightarrow> (\<exists>n. r = of_int n)"
    by (metis of_int_floor_cancel)
  with Finite show ?thesis by simp
qed simp_all

text \<open>
  C10. \<open>get_charge_states\<close> raises exactly when the oxidation state is not an integer,
  and what it raises is ValueError; for the integer \<open>n\<close> it returns \<open>-1 .. n + 1\<close>
  when \<open>n \<ge> 0\<close> and \<open>n - 1 .. 1\<close> when \<open>n < 0\<close>; a returned list is never empty and
  holds 0, -1 and 1.
\<close>

theorem get_charge_states_spec:
  "((\<exists>e. get_charge_states d = Inl e) \<longleftrightarrow> \<not> (\<exists>n. oxi_state d = Finite (of_int n)))
   \<and> (\<forall>e. get_charge_states d = Inl e \<longrightarrow> e = ValueError)
   \<and> (\<forall>n. oxi_state d = Finite (of_int n) \<longrightarrow>
         get_charge_states d = Inr (if 0 \<le> n then [-1..n + 1] else [n - 1..1]))
   \<and> (\<forall>cs. get_charge_states d = Inr cs \<longrightarrow>
         cs \<noteq> [] \<and> 0 \<in> set cs \<and> -1 \<in> set cs \<and> 1 \<in> set cs)"
  using is_integer_iff[of "oxi_state d"]
  by (auto simp: get_charge_states_def py_range_def py_int_of_int add.commute split: sum.splits)

theorem get_charge_states_spec_witness:
  "get_charge_states \<lparr>structure = (), site = (), symprec = 1/100, angle_tolerance = 5,
      multiplicity = 1, oxi_state = Finite 2\<rparr> = Inr [-1, 0, 1, 2, 3]
   \<and> get_charge_states \<lparr>structure = (), site = (), symprec = 1/100, angle_tolerance = 5,
      multiplicity = 1, oxi_state = Finite (-3)\<rparr> = Inr [-4, -3, -2, -1, 0, 1]"
proof -
  let ?d = "\<lambda>v. \<lparr>structure = (), site = (), symprec = 1/100, angle_tolerance = 5,
      multiplicity = 1, oxi_state = v\<rparr> :: (unit, unit) defect"
  note spec = get_charge_states_spec[THEN conjunct2, THEN conjunct2, THEN conjunct1, rule_format]
  have "oxi_state (?d (Finite 2)) = Finite (of_int 2)" by simp
  from spec[OF this] have a: "get_charge_states (?d (Finite 2)) = Inr [-1, 0, 1, 2, 3]"
    by (simp add: upto.simps)
  have "oxi_state (?d (Finite (-3))) = Finite (of_int (-3))" by simp
  from spec[OF this] have b: "get_charge_states (?d (Finite (-3))) = Inr [-4, -3, -2, -1, 0, 1]"
    by (simp add: upto.simps)
  from a b show ?thesis by simp
qed

section \<open>perform_pot_corr: wrapping the defect position and rolling the profiles\<close>

lemma np_roll_length: "length (np_roll xs k) = length xs"
  by (simp add: np_roll_def Let_def)



lemma roll_scan_spec:
  "grid \<noteq> [] \<Longrightarrow>
   \<exists>i < length grid. roll_scan p grid k = Some (k + i)
      \<and> (\<forall>j < i. \<not> p < grid ! j)
      \<and> (p < grid ! i \<or> i = length grid - 1)"
proof (induction p grid k rule: roll_scan.induct)
  case (1 p i)
  then show ?case by simp
next
  case (2 p g i)
  then show ?case by simp
next
  case (3 p g g' gs i)
  show ?case
  proof (cases "p < g")
    case True
    then show ?thesis by (intro exI[of _ 0]) simp
  next
    case False
    with 3 obtain m where m: "m < length (g' # gs)"
      "roll_scan p (g' # gs) (Suc i) = Some (Suc i + m)"
      "\<forall>j < m. \<not> p < (g' # gs) ! j"
      "p < (g' # gs) ! m \<or> m = length (g' # gs) - 1"
      by auto
    show ?thesis
    proof (intro exI[of _ "Suc m"] conjI)
      show "Suc m < length (g # g' # gs)" using m(1) by simp
      show "roll_scan p (g # g' # gs) i = Some (i + Suc m)" using False m(2) by simp
      show "\<forall>j<Suc m. \<not> p < (g # g' # gs) ! j"
        using False m(3) by (auto simp: nth_Cons split: nat.splits)
      show "p < (g # g' # gs) ! Suc m \<or> Suc m = length (g # g' # gs) - 1"
        using m(4) by auto
    qed
  qed
qed









section \<open>perform_pot_corr: the reciprocal grid and the model potential\<close>

lemma py_int_half_neg: "py_int (- (real nx / 2)) = - int (nx div 2)"
proof -
  have "\<lceil>- (real nx / 2)\<rceil> = - \<lfloor>real nx / 2\<rfloor>" by (simp add: ceiling_def)
  also have "\<lfloor>real nx / 2\<rfloor> = int (nx div 2)"
    by (metis floor_divide_of_nat_eq of_nat_numeral)
  finally have c: "\<lceil>- (real nx / 2)\<rceil> = - int (nx div 2)" .
  show ?thesis
  proof (cases "nx = 0")
    case True then show ?thesis by (simp add: py_int_def)
  next
    case False
    then have "\<not> 0 \<le> - (real nx / 2)" by simp
    then show ?thesis using c by (simp add: py_int_def)
  qed
qed

lemma py_int_half: "py_int (real nx / 2) = int (nx div 2)"
proof -
  have "\<lfloor>real nx / 2\<rfloor> = int (nx div 2)"
    by (metis floor_divide_of_nat_eq of_nat_numeral)
  then show ?thesis by (simp add: py_int_def)
qed

lemma py_int_half_neg_succ:
  assumes "2 \<le> nx"
  shows "py_int (1 - real nx / 2) = 1 - int (nx div 2)"
proof -
  have e: "1 - real nx / 2 = - (real (nx - 2) / 2)"
    using assms by (simp add: field_simps of_nat_diff)
  have "py_int (- (real (nx - 2) / 2)) = - int ((nx - 2) div 2)" by (rule py_int_half_neg)
  also have "(nx - 2) div 2 = nx div 2 - 1" by simp
  finally show ?thesis using e assms by (simp add: of_nat_diff)
qed

lemma arange_centered:
  "np_arange_int (- (real nx / 2)) (real nx / 2) = map (\<lambda>j. int j - int (nx div 2)) [0..<nx]"
proof -
  have n: "nat \<lceil>real nx / 2 - - (real nx / 2)\<rceil> = nx" by simp
  consider "nx = 0" | "nx = 1" | "2 \<le> nx" by linarith
  then show ?thesis
  proof cases
    case 1 then show ?thesis by (simp add: np_arange_int_def Let_def)
  next
    case 2
    have "\<lceil>- (1 / 2 :: real)\<rceil> = 0" by (simp add: ceiling_eq_iff)
    with 2 show ?thesis by (simp add: np_arange_int_def Let_def py_int_def)
  next
    case 3
    then show ?thesis
      unfolding np_arange_int_def Let_def n
      by (simp add: py_int_half_neg py_int_half_neg_succ)
  qed
qed

lemma g_grid_length: "length (g_grid nx dg) = nx"
  by (simp add: g_grid_def arange_centered np_roll_def Let_def)

lemma g_grid_nth:
  assumes "k < nx"
  shows "g_grid nx dg ! k
         = real_of_int ((int k - int (nx div 2)) mod int nx - int (nx div 2)) * dg"
proof -
  have "0 \<le> (int k - int (nx div 2)) mod int nx" "(int k - int (nx div 2)) mod int nx < int nx"
    using assms by simp_all
  then have "nat ((int k - int (nx div 2)) mod int nx) < nx" by linarith
  then show ?thesis using assms
    by (simp add: g_grid_def arange_centered py_int_half np_roll_def Let_def)
qed

lemma g_grid_even:
  assumes "even nx" "k < nx"
  shows "g_grid nx dg ! k = (if k < nx div 2 then real k else real k - real nx) * dg"
proof -
  obtain m where m: "nx = 2 * m" using assms(1) by (auto elim: evenE)
  then have d: "nx div 2 = m" by simp
  have n: "int nx = int m + int m" using m by simp
  show ?thesis
  proof (cases "k < m")
    case True
    have "(int k - int m) mod int nx = (int k - int m + int nx) mod int nx"
      by (simp only: mod_add_self2)
    also have "int k - int m + int nx = int k + int m" by (simp add: n)
    also have "(int k + int m) mod int nx = int k + int m" using True by (simp add: n)
    finally have h: "(int k - int m) mod int nx = int k + int m" .
    show ?thesis unfolding g_grid_nth[OF assms(2)] d h using True by simp
  next
    case False
    then have "0 \<le> int k - int m" "int k - int m < int nx" using assms(2) by linarith+
    then have h: "(int k - int m) mod int nx = int k - int m" by (rule mod_pos_pos_trivial)
    show ?thesis unfolding g_grid_nth[OF assms(2)] d h using False by (simp add: m)
  qed
qed

lemma g_grid_even_nonzero:
  assumes "even nx" "k < nx" "1 \<le> k" "dg \<noteq> 0"
  shows "g_grid nx dg ! k \<noteq> 0"
  using assms by (simp add: g_grid_even)

lemma g_grid_odd:
  assumes "odd nx" "k < nx"
  shows "g_grid nx dg ! k = (if k < nx div 2 then real k + 1 else real k + 1 - real nx) * dg"
proof -
  obtain m where m: "nx = 2 * m + 1" using assms(1) by (auto elim: oddE)
  then have d: "nx div 2 = m" by simp
  have n: "int nx = int m + int m + 1" using m by simp
  show ?thesis
  proof (cases "k < m")
    case True
    have "(int k - int m) mod int nx = (int k - int m + int nx) mod int nx"
      by (simp only: mod_add_self2)
    also have "int k - int m + int nx = int k + int m + 1" by (simp add: n)
    also have "(int k + int m + 1) mod int nx = int k + int m + 1" using True by (simp add: n)
    finally have h: "(int k - int m) mod int nx = int k + int m + 1" .
    show ?thesis unfolding g_grid_nth[OF assms(2)] d h using True by simp
  next
    case False
    then have "0 \<le> int k - int m" "int k - int m < int nx" using assms(2) by linarith+
    then have h: "(int k - int m) mod int nx = int k - int m" by (rule mod_pos_pos_trivial)
    show ?thesis unfolding g_grid_nth[OF assms(2)] d h using False by (simp add: m)
  qed
qed

lemma v_G_limit_Inr:
  "dielectric \<noteq> Finite 0 \<Longrightarrow>
   v_G_limit q dielectric qm
   = Inr (f_mul (f_div (Finite (4 * pi * (- q))) dielectric) (Finite (rho_rec_limit0 qm)))"
  by (simp add: v_G_limit_def)

lemma build_v_G_nth:
  assumes "dielectric \<noteq> Finite 0" "0 < nx"
  shows "\<exists>v. build_v_G nx q dielectric qm dg = Inr v \<and> length v = nx
           \<and> (\<forall>k < nx. v ! k =
                 (if even nx \<and> k = nx div 2 then Finite 0
                  else if k = 0
                    then f_mul (f_div (Finite (4 * pi * (- q))) dielectric)
                           (Finite (rho_rec_limit0 qm))
                  else v_G_bin q dielectric qm (g_grid nx dg ! k * g_grid nx dg ! k)))"
proof -
  define lim where
    "lim = f_mul (f_div (Finite (4 * pi * (- q))) dielectric) (Finite (rho_rec_limit0 qm))"
  define raw where
    "raw = lim # map (v_G_bin q dielectric qm) (tl (map (\<lambda>y. y * y) (g_grid nx dg)))"
  define r where "r = (if nx mod 2 = 0 then raw[nx div 2 := Finite 0] else raw)"
  have b: "build_v_G nx q dielectric qm dg = Inr r"
    using assms by (simp add: build_v_G_def v_G_limit_Inr Let_def r_def raw_def lim_def)
  have lv: "length raw = nx" using assms(2) by (simp add: raw_def g_grid_length)
  then have lr: "length r = nx" by (simp add: r_def)
  have raw_nth: "raw ! k = (if k = 0 then lim
                       else v_G_bin q dielectric qm (g_grid nx dg ! k * g_grid nx dg ! k))"
    if "k < nx" for k
  proof (cases k)
    case 0
    then show ?thesis by (simp add: raw_def)
  next
    case (Suc j)
    with that have "j < length (tl (map (\<lambda>y. y * y) (g_grid nx dg)))"
      by (simp add: g_grid_length)
    moreover have "tl (map (\<lambda>y. y * y) (g_grid nx dg)) ! j
        = g_grid nx dg ! Suc j * g_grid nx dg ! Suc j"
      using that Suc by (simp add: nth_tl g_grid_length)
    ultimately show ?thesis using Suc by (simp add: raw_def)
  qed
  have el: "r ! k = (if even nx \<and> k = nx div 2 then Finite 0
                  else if k = 0 then lim
                  else v_G_bin q dielectric qm (g_grid nx dg ! k * g_grid nx dg ! k))"
    if "k < nx" for k
    using that lv raw_nth[OF that]
    by (auto simp: r_def nth_list_update even_iff_mod_2_eq_zero)
  from b lr el show ?thesis unfolding lim_def by blast
qed

lemma v_G_bin_zero_not_finite: "\<not> is_finite (v_G_bin q dielectric qm 0)"
  by (cases dielectric) (auto simp: v_G_bin_def f_inf_def Let_def)

lemma v_G_bin_finite:
  "d \<noteq> 0 \<Longrightarrow> g2 \<noteq> 0 \<Longrightarrow>
   v_G_bin q (Finite d) qm g2 = Finite (4 * pi / (d * g2) * (- q) * rho_rec qm g2)"
  by (simp add: v_G_bin_def Let_def)

lemma build_v_G_Inr:
  assumes "build_v_G nx q dielectric qm dg = Inr v"
  shows "length v = nx \<and> 0 < nx \<and> dielectric \<noteq> Finite 0"
proof -
  from assms have d: "dielectric \<noteq> Finite 0" and n: "0 < nx"
    by (auto simp: build_v_G_def v_G_limit_def split: if_splits sum.splits)
  from build_v_G_nth[OF d n, of q qm dg] assms show ?thesis using d n by auto
qed

lemma model_potential_Inr:
  "model_potential U nx lat q axis dielectric qm = Inr v \<Longrightarrow> length v = nx \<and> 0 < nx"
  by (auto simp: model_potential_def split: sum.splits dest: build_v_G_Inr)

section \<open>Arithmetic of the extended floats\<close>

lemma f_neg_neg: "f_neg (f_neg a) = a"
  by (cases a) simp_all

lemma f_neg_NaN_iff: "f_neg a = NaN \<longleftrightarrow> a = NaN"
  by (cases a) simp_all

lemma f_abs_NaN_iff: "f_abs a = NaN \<longleftrightarrow> a = NaN"
  by (cases a) simp_all

lemma f_abs_neg: "f_abs (f_neg a) = f_abs a"
  by (cases a) simp_all

lemma f_abs_cases: "f_abs a = a \<or> f_abs a = f_neg a"
  by (cases a) (simp_all add: abs_if)

lemma f_neg_add: "f_neg (f_add a b) = f_add (f_neg a) (f_neg b)"
  by (cases a; cases b) simp_all

lemma f_add_zero: "f_add a (Finite 0) = a"
  by (cases a) simp_all

lemma f_inf_neg: "f_inf (- s) = f_neg (f_inf s)"
  by (simp add: f_inf_def)

lemma f_mul_neg_right: "f_mul a (Finite (- s)) = f_neg (f_mul a (Finite s))"
  by (cases a) (simp_all add: f_inf_neg f_neg_neg)

lemma f_mul_inverse: "c \<noteq> 0 \<Longrightarrow> f_mul a (Finite (1 / c)) = f_div a (Finite c)"
  by (cases a) (auto simp: f_inf_def)

lemma f_neg_sum: "f_neg (f_sum xs) = f_sum (map f_neg xs)"
  by (induction xs) (simp_all add: f_neg_add)

lemma f_sum_zeros: "(\<forall>x \<in> set xs. x = Finite 0) \<Longrightarrow> f_sum xs = Finite 0"
  by (induction xs) simp_all

lemma f_sum_finite: "f_sum (map Finite xs) = Finite (sum_list xs)"
  by (induction xs) simp_all

text \<open>The order of the floats other than \<open>nan\<close>, through \<open>f_less\<close>.\<close>

lemma f_less_trans_not:
  "a \<noteq> NaN \<Longrightarrow> b \<noteq> NaN \<Longrightarrow> c \<noteq> NaN \<Longrightarrow> \<not> f_less a b \<Longrightarrow> \<not> f_less b c \<Longrightarrow> \<not> f_less a c"
  by (cases a; cases b; cases c) simp_all

lemma f_less_antisym:
  "a \<noteq> NaN \<Longrightarrow> b \<noteq> NaN \<Longrightarrow> \<not> f_less a b \<Longrightarrow> \<not> f_less b a \<Longrightarrow> a = b"
  by (cases a; cases b) simp_all

lemma f_less_irrefl: "\<not> f_less a a"
  by (cases a) simp_all

lemma f_abs_of_nonneg: "\<not> f_less a (f_neg a) \<Longrightarrow> f_abs a = a"
  by (cases a) simp_all

lemma f_max_NaN: "f_max NaN b = NaN" "f_max a NaN = NaN"
  by (simp_all add: f_max_def)

lemma foldl_f_max_NaN: "a = NaN \<or> NaN \<in> set xs \<Longrightarrow> foldl f_max a xs = NaN"
proof (induction xs arbitrary: a)
  case Nil
  then show ?case by simp
next
  case (Cons x xs)
  show ?case
  proof (cases "a = NaN \<or> x = NaN")
    case True
    then have "f_max a x = NaN" by (auto simp: f_max_def)
    then show ?thesis using Cons.IH[of "f_max a x"] by simp
  next
    case False
    with Cons.prems have "NaN \<in> set xs" by auto
    then show ?thesis using Cons.IH[of "f_max a x"] by simp
  qed
qed

lemma foldl_f_max_greatest:
  "a \<noteq> NaN \<Longrightarrow> NaN \<notin> set xs \<Longrightarrow>
   foldl f_max a xs \<in> set (a # xs) \<and> foldl f_max a xs \<noteq> NaN
   \<and> (\<forall>x \<in> set (a # xs). \<not> f_less (foldl f_max a xs) x)"
proof (induction xs arbitrary: a)
  case Nil
  then show ?case by (simp add: f_less_irrefl)
next
  case (Cons x xs)
  let ?m = "f_max a x"
  from Cons.prems have nn: "a \<noteq> NaN" "x \<noteq> NaN" "NaN \<notin> set xs" by auto
  have m: "?m \<noteq> NaN" "?m = a \<or> ?m = x" "\<not> f_less ?m a" "\<not> f_less ?m x"
    using nn(1,2) by (cases a; cases x; simp add: f_max_def)+
  from Cons.IH[OF m(1) nn(3)] have ih:
    "foldl f_max ?m xs \<in> set (?m # xs)" "foldl f_max ?m xs \<noteq> NaN"
    "\<forall>y \<in> set (?m # xs). \<not> f_less (foldl f_max ?m xs) y" by blast+
  have top: "\<not> f_less (foldl f_max ?m xs) ?m" using ih(3) by simp
  have "\<not> f_less (foldl f_max ?m xs) a"
    using f_less_trans_not[OF ih(2) m(1) nn(1) top m(3)] .
  moreover have "\<not> f_less (foldl f_max ?m xs) x"
    using f_less_trans_not[OF ih(2) m(1) nn(2) top m(4)] .
  moreover have "foldl f_max ?m xs \<in> set (a # x # xs)" using ih(1) m(2) by auto
  ultimately show ?case using ih(2,3) by simp
qed

lemma np_max_NaN: "NaN \<in> set xs \<Longrightarrow> np_max xs = NaN"
proof -
  assume a: "NaN \<in> set xs"
  then obtain y ys where xs: "xs = y # ys" by (cases xs) auto
  with a have "y = NaN \<or> NaN \<in> set ys" by auto
  then show ?thesis unfolding np_max_def xs by (simp add: foldl_f_max_NaN)
qed

lemma np_max_greatest:
  assumes "xs \<noteq> []" "NaN \<notin> set xs"
  shows "np_max xs \<in> set xs \<and> np_max xs \<noteq> NaN \<and> (\<forall>x \<in> set xs. \<not> f_less (np_max xs) x)"
proof -
  from assms(1) obtain y ys where xs: "xs = y # ys" by (cases xs) auto
  with assms(2) have "y \<noteq> NaN" "NaN \<notin> set ys" by auto
  from foldl_f_max_greatest[OF this] show ?thesis unfolding np_max_def xs by simp
qed

lemma np_max_negation_closed:
  assumes "xs \<noteq> []" "\<And>a. a \<in> set xs \<Longrightarrow> f_neg a \<in> set xs"
  shows "f_abs (np_max xs) = np_max (map f_abs xs)"
proof (cases "NaN \<in> set xs")
  case True
  then have "NaN \<in> set (map f_abs xs)" by force
  then show ?thesis using True by (simp add: np_max_NaN)
next
  case False
  let ?M = "np_max xs"
  let ?ys = "map f_abs xs"
  from np_max_greatest[OF assms(1) False]
  have M: "?M \<in> set xs" "?M \<noteq> NaN" "\<forall>x \<in> set xs. \<not> f_less ?M x" by blast+
  have "\<not> f_less ?M (f_neg ?M)" using M(3) assms(2)[OF M(1)] by blast
  then have abs: "f_abs ?M = ?M" by (rule f_abs_of_nonneg)
  have ne: "?ys \<noteq> []" using assms(1) by simp
  have nn: "NaN \<notin> set ?ys"
  proof
    assume "NaN \<in> set ?ys"
    then obtain x where "x \<in> set xs" "f_abs x = NaN" by auto
    then show False using False by (simp add: f_abs_NaN_iff)
  qed
  from np_max_greatest[OF ne nn]
  have M': "np_max ?ys \<in> set ?ys" "np_max ?ys \<noteq> NaN" "\<forall>y \<in> set ?ys. \<not> f_less (np_max ?ys) y"
    by blast+
  from M'(1) obtain x where x: "x \<in> set xs" "np_max ?ys = f_abs x" by auto
  have "f_abs x \<in> set xs" using f_abs_cases[of x] x(1) assms(2)[OF x(1)] by auto
  then have 1: "\<not> f_less ?M (np_max ?ys)" using M(3) x(2) by simp
  have "f_abs ?M \<in> set ?ys" using M(1) by simp
  then have 2: "\<not> f_less (np_max ?ys) ?M" using M'(3) abs by force
  from f_less_antisym[OF M(2) M'(2) 1 2] abs show ?thesis by simp
qed

section \<open>perform_pot_corr: the transform of a real array\<close>

lemma np_fft_length: "length (np_fft xs) = length xs"
  by (simp add: np_fft_def Let_def)

lemma np_fft_nth:
  "k < length xs \<Longrightarrow>
   np_fft xs ! k
   = (f_sum (map (\<lambda>j. fst (fft_term (length xs) (xs ! j) j k)) [0..<length xs]),
      f_sum (map (\<lambda>j. snd (fft_term (length xs) (xs ! j) j k)) [0..<length xs]))"
  by (simp add: np_fft_def Let_def)

lemma sin_mirror:
  assumes "0 < n" "k \<le> n"
  shows "sin (2 * pi * real j * real (n - k) / real n) = - sin (2 * pi * real j * real k / real n)"
proof -
  have "2 * pi * real j * real (n - k) / real n
        = 2 * real j * pi - 2 * pi * real j * real k / real n"
    using assms by (simp add: of_nat_diff field_simps)
  then show ?thesis by (simp add: sin_diff)
qed

lemma unit_twiddle_mirror:
  fixes j k n :: nat
  assumes "k \<le> n"
  shows "(j * (n - k)) mod n = 0 \<longleftrightarrow> (j * k) mod n = 0"
proof -
  have "j * (n - k) + j * k = j * ((n - k) + k)" by (simp only: distrib_left)
  also have "\<dots> = j * n" using assms by simp
  finally have s: "n dvd j * (n - k) + j * k" by simp
  have "n dvd j * (n - k) \<longleftrightarrow> n dvd j * k"
  proof
    assume "n dvd j * (n - k)"
    with s show "n dvd j * k" by (simp add: dvd_add_right_iff)
  next
    assume "n dvd j * k"
    with s show "n dvd j * (n - k)" by (simp add: dvd_add_left_iff)
  qed
  then show ?thesis by (simp only: mod_eq_0_iff_dvd)
qed

lemma fft_term_mirror:
  assumes "0 < k" "k < n"
  shows "snd (fft_term n x j (n - k)) = f_neg (snd (fft_term n x j k))"
proof -
  have le: "k \<le> n" "0 < n" using assms by simp_all
  show ?thesis
  proof (cases "(j * k) mod n = 0")
    case True
    then have "(j * (n - k)) mod n = 0" by (simp only: unit_twiddle_mirror[OF le(1), of j])
    with True show ?thesis by (simp add: fft_term_def)
  next
    case False
    then have "(j * (n - k)) mod n \<noteq> 0"
      by (simp only: unit_twiddle_mirror[OF le(1), of j] not_False_eq_True)
    then have l: "snd (fft_term n x j (n - k))
        = f_mul x (Finite (- sin (2 * pi * real j * real (n - k) / real n)))"
      by (simp only: fft_term_def if_False snd_conv)
    have r: "snd (fft_term n x j k) = f_mul x (Finite (- sin (2 * pi * real j * real k / real n)))"
      using False by (simp only: fft_term_def if_False snd_conv)
    show ?thesis
      unfolding l r sin_mirror[OF le(2) le(1)]
      by (simp only: f_mul_neg_right f_neg_neg)
  qed
qed

lemma fft_imag_first:
  assumes "0 < length xs"
  shows "snd (np_fft xs ! 0) = Finite 0"
  using assms by (simp add: np_fft_nth fft_term_def f_sum_zeros)

lemma fft_imag_mirror:
  assumes "0 < k" "k < length xs"
  shows "snd (np_fft xs ! (length xs - k)) = f_neg (snd (np_fft xs ! k))"
proof -
  have m: "length xs - k < length xs" using assms by simp
  have "map (\<lambda>j. snd (fft_term (length xs) (xs ! j) j (length xs - k))) [0..<length xs]
        = map f_neg (map (\<lambda>j. snd (fft_term (length xs) (xs ! j) j k)) [0..<length xs])"
    unfolding map_map comp_def by (rule map_cong) (simp_all add: fft_term_mirror[OF assms])
  then have "f_sum (map (\<lambda>j. snd (fft_term (length xs) (xs ! j) j (length xs - k)))
                  [0..<length xs])
        = f_neg (f_sum (map (\<lambda>j. snd (fft_term (length xs) (xs ! j) j k)) [0..<length xs]))"
    by (simp only: f_neg_sum)
  then show ?thesis unfolding np_fft_nth[OF m] np_fft_nth[OF assms(2)] by simp
qed

lemma fft_imag_negation_closed:
  assumes "a \<in> set (map snd (np_fft xs))"
  shows "f_neg a \<in> set (map snd (np_fft xs))"
proof -
  from assms obtain k where k: "k < length xs" "a = snd (np_fft xs ! k)"
    by (auto simp: in_set_conv_nth np_fft_length)
  show ?thesis
  proof (cases "k = 0")
    case True
    then have "a = Finite 0" using k fft_imag_first[of xs] by simp
    then have "f_neg a = a" by simp
    with assms show ?thesis by simp
  next
    case False
    then have eq: "f_neg a = snd (np_fft xs ! (length xs - k))"
      using fft_imag_mirror[of k xs] k by simp
    have "length xs - k < length (np_fft xs)" using k(1) False by (simp add: np_fft_length)
    then have "np_fft xs ! (length xs - k) \<in> set (np_fft xs)" by (rule nth_mem)
    then have "snd (np_fft xs ! (length xs - k)) \<in> snd ` set (np_fft xs)" by (rule imageI)
    then show ?thesis unfolding eq by simp
  qed
qed

lemma abs_max_imag_is_residual:
  assumes "xs \<noteq> []"
  shows "f_abs (np_max (map snd (np_fft xs))) = spec_imaginary_residual (np_fft xs)"
proof -
  have ne: "map snd (np_fft xs) \<noteq> []"
    using assms by (metis length_0_conv length_map np_fft_length)
  have "f_abs (np_max (map snd (np_fft xs))) = np_max (map f_abs (map snd (np_fft xs)))"
    using ne fft_imag_negation_closed by (rule np_max_negation_closed)
  then show ?thesis by (simp add: spec_imaginary_residual_def comp_def)
qed

section \<open>perform_pot_corr: the test of the imaginary part\<close>

lemma np_sub_error: "np_sub a b = Inl e \<Longrightarrow> e = ValueError"
  by (auto simp: np_sub_def split: if_splits)

lemma py_get_error: "py_get xs i = Inl e \<Longrightarrow> e = IndexError"
  by (auto simp: py_get_def split: if_splits)

lemma py_gets_error: "py_gets xs idx = Inl e \<Longrightarrow> e = IndexError"
  by (induction idx arbitrary: e) (auto split: sum.splits dest: py_get_error)

lemma checkdis_of_error:
  "checkdis_of axis_grid w = Inl e \<Longrightarrow> e = IndexError \<or> e = ZeroDivisionError"
  by (auto simp: checkdis_of_def split: sum.splits if_splits dest: py_get_error)

lemma sampling_window_error:
  "sampling_window axis_grid short w = Inl e \<Longrightarrow>
     e = IndexError \<or> e = ZeroDivisionError \<or> e = ValueError"
  by (auto simp: sampling_window_def Let_def split: sum.splits if_splits
      dest: py_gets_error py_get_error checkdis_of_error)

lemma align_window_error:
  "align_window axis_grid pureavg defavg q v_R w = Inl e \<Longrightarrow>
     e = IndexError \<or> e = ZeroDivisionError \<or> e = ValueError"
  by (auto simp: align_window_def short_range_def dft_difference_def Let_def
      split: sum.splits prod.splits dest: np_sub_error sampling_window_error)

lemma np_fft_Nil_iff: "np_fft xs = [] \<longleftrightarrow> xs = []"
  by (metis length_0_conv np_fft_length)

lemma real_space_potential_raises:
  assumes "v_G \<noteq> []"
  shows "(\<exists>r. real_space_potential U lat mad_tol v_G = Inl (NumericalInstability r))
         \<longleftrightarrow> f_less (Finite mad_tol) (spec_imaginary_residual (np_fft v_G))"
  using abs_max_imag_is_residual[OF assms] assms
  by (auto simp: real_space_potential_def Let_def np_fft_Nil_iff)

lemma f_less_asym: "f_less a b \<Longrightarrow> \<not> f_less b a"
  by (cases a; cases b) simp_all

lemma f_less_abs_finite: "f_less (f_abs b) (Finite t) \<Longrightarrow> is_finite b"
  by (cases b) simp_all

lemma fst_np_cdiv: "is_finite b \<Longrightarrow> fst (np_cdiv (a, b) c) = f_div a (Finite c)"
  by (cases b) (simp_all add: np_cdiv_def f_add_zero f_mul_inverse)

lemma real_space_potential_real_part:
  assumes "v_G \<noteq> []"
      and "\<forall>z \<in> set (np_fft v_G). f_less (f_abs (snd z)) (Finite mad_tol)"
  shows "real_space_potential U lat mad_tol v_G
         = Inr (map (\<lambda>z. f_mul (f_div (fst z) (Finite (volume lat * ang_to_bohr U ^ 3)))
                            (Finite (hart_to_ev U))) (np_fft v_G))"
proof -
  let ?F = "np_fft v_G"
  let ?A = "map (\<lambda>z. f_abs (snd z)) ?F"
  have ne: "?A \<noteq> []" using assms(1) by (simp add: np_fft_Nil_iff)
  have nn: "NaN \<notin> set ?A"
  proof
    assume "NaN \<in> set ?A"
    then obtain z where "z \<in> set ?F" "f_abs (snd z) = NaN" by auto
    with assms(2) have "f_less NaN (Finite mad_tol)" by metis
    then show False by simp
  qed
  from np_max_greatest[OF ne nn] have "np_max ?A \<in> set ?A" by blast
  then obtain z where "z \<in> set ?F" "np_max ?A = f_abs (snd z)" by auto
  with assms(2) have "f_less (spec_imaginary_residual ?F) (Finite mad_tol)"
    by (simp add: spec_imaginary_residual_def)
  then have "\<not> f_less (Finite mad_tol) (spec_imaginary_residual ?F)" by (rule f_less_asym)
  then have no: "\<not> f_less (Finite mad_tol) (f_abs (np_max (map snd ?F)))"
    using abs_max_imag_is_residual[OF assms(1)] by simp
  have "map (\<lambda>z. f_mul (fst (np_cdiv z (volume lat * ang_to_bohr U ^ 3)))
                     (Finite (hart_to_ev U))) ?F
        = map (\<lambda>z. f_mul (f_div (fst z) (Finite (volume lat * ang_to_bohr U ^ 3)))
                            (Finite (hart_to_ev U))) ?F"
  proof (rule map_cong)
    fix z assume "z \<in> set ?F"
    with assms(2) have "is_finite (snd z)" using f_less_abs_finite by blast
    then have "fst (np_cdiv (fst z, snd z) (volume lat * ang_to_bohr U ^ 3))
        = f_div (fst z) (Finite (volume lat * ang_to_bohr U ^ 3))" by (rule fst_np_cdiv)
    then show "f_mul (fst (np_cdiv z (volume lat * ang_to_bohr U ^ 3))) (Finite (hart_to_ev U))
        = f_mul (f_div (fst z) (Finite (volume lat * ang_to_bohr U ^ 3))) (Finite (hart_to_ev U))"
      by simp
  qed simp
  then show ?thesis using no assms(1)
    by (simp add: real_space_potential_def Let_def np_fft_Nil_iff)
qed

lemma perform_pot_corr_stages:
  assumes "defect_axis_position lat coords axis = Inr p"
      and "shift_profiles p axis_grid pureavg defavg = Inr (pu, de)"
      and "model_potential U (length axis_grid) lat q axis dielectric qm = Inr v_G"
  shows "perform_pot_corr U axis_grid pureavg defavg lat q coords axis dielectric qm
                  mad_tol widthsample
        = (case real_space_potential U lat mad_tol v_G of
             Inl e \<Rightarrow> Inl e
           | Inr v_R \<Rightarrow> align_window axis_grid pu de q v_R widthsample)"
  using assms by (simp add: perform_pot_corr_def align_shifted_def)

text \<open>
  C2. For every array \<open>xs\<close> of real parts the transform of lines 272-277 fails with
  NumericalInstability exactly when the imaginary residual of the transformed array,
  the maximum absolute value of its imaginary components, exceeds \<open>mad_tol\<close>. So,
  once the model potential \<open>v_G\<close> is built, does \<open>perform_pot_corr\<close>; and when every
  imaginary component is below \<open>mad_tol\<close> in magnitude it goes on with the real part
  (divided by the volume in bohr, in eV).
\<close>

theorem imaginary_check_iff:
  assumes "defect_axis_position lat coords axis = Inr p"
      and "shift_profiles p axis_grid pureavg defavg = Inr (pu, de)"
      and "model_potential U (length axis_grid) lat q axis dielectric qm = Inr v_G"
  shows "((\<exists>r. perform_pot_corr U axis_grid pureavg defavg lat q coords axis dielectric qm
                  mad_tol widthsample = Inl (NumericalInstability r))
          \<longleftrightarrow> f_less (Finite mad_tol) (spec_imaginary_residual (np_fft v_G)))
       \<and> ((\<forall>z \<in> set (np_fft v_G). f_less (f_abs (snd z)) (Finite mad_tol)) \<longrightarrow>
           perform_pot_corr U axis_grid pureavg defavg lat q coords axis dielectric qm
               mad_tol widthsample
           = align_window axis_grid pu de q
               (map (\<lambda>z. f_mul (f_div (fst z) (Finite (volume lat * ang_to_bohr U ^ 3)))
                            (Finite (hart_to_ev U))) (np_fft v_G)) widthsample)
       \<and> (\<forall>xs. xs \<noteq> [] \<longrightarrow>
             ((\<exists>r. real_space_potential U lat mad_tol xs = Inl (NumericalInstability r))
              \<longleftrightarrow> f_less (Finite mad_tol) (spec_imaginary_residual (np_fft xs))))"
proof -
  have ne: "v_G \<noteq> []" using model_potential_Inr[OF assms(3)] by auto
  note unfold = perform_pot_corr_stages[OF assms, of mad_tol widthsample]
  have a: "(\<exists>r. perform_pot_corr U axis_grid pureavg defavg lat q coords axis dielectric qm
                  mad_tol widthsample = Inl (NumericalInstability r))
          \<longleftrightarrow> (\<exists>r. real_space_potential U lat mad_tol v_G = Inl (NumericalInstability r))"
    unfolding unfold by (auto split: sum.splits dest: align_window_error)
  have b: "(\<forall>z \<in> set (np_fft v_G). f_less (f_abs (snd z)) (Finite mad_tol)) \<longrightarrow>
           perform_pot_corr U axis_grid pureavg defavg lat q coords axis dielectric qm
               mad_tol widthsample
           = align_window axis_grid pu de q
               (map (\<lambda>z. f_mul (f_div (fst z) (Finite (volume lat * ang_to_bohr U ^ 3)))
                            (Finite (hart_to_ev U))) (np_fft v_G)) widthsample"
    using real_space_potential_real_part[OF ne, of mad_tol U lat] by (simp add: unfold)
  have c: "\<forall>xs. xs \<noteq> [] \<longrightarrow>
             ((\<exists>r. real_space_potential U lat mad_tol xs = Inl (NumericalInstability r))
              \<longleftrightarrow> f_less (Finite mad_tol) (spec_imaginary_residual (np_fft xs)))"
    using real_space_potential_raises by blast
  from a real_space_potential_raises[OF ne, of U lat mad_tol] b c show ?thesis by blast
qed


lemma g_grid_2: "g_grid 2 dg = [0, - dg]"
  by (simp add: g_grid_def np_roll_def np_arange_int_def py_int_def upt_conv_Cons)

lemma g_grid_3: "g_grid 3 dg = [dg, - dg, 0]"
proof -
  have c: "\<lceil>- (1 / 2 :: real)\<rceil> = 0" by (simp add: ceiling_eq_iff)
  show ?thesis
    by (simp add: g_grid_def np_roll_def np_arange_int_def py_int_def upt_conv_Cons c)
qed

lemma sample_model_potential:
  "model_potential sample_utils 2 cubic10 1 0 (Finite 1) gauss_model = Inr [Finite pi, Finite 0]"
  by (simp add: model_potential_def reciprocal_step_def py_get3_def py_get_def list3_def
      cubic10_def sample_utils_def build_v_G_def v_G_limit_def g_grid_2 v_G_bin_def
      gauss_model_def Let_def)

lemma sample_fft:
  "np_fft [Finite pi, Finite 0] = [(Finite pi, Finite 0), (Finite pi, Finite 0)]"
  by (simp add: np_fft_def fft_term_def Let_def upt_conv_Cons)

lemma sin_4_3: "sin (4 * pi / 3) = - (sqrt 3 / 2)"
proof -
  have "4 * pi / 3 = pi / 3 + pi" by simp
  then show ?thesis by (simp only: sin_periodic_pi sin_60)
qed

lemma sin_8_3: "sin (8 * pi / 3) = sqrt 3 / 2"
proof -
  have "8 * pi / 3 = (pi - pi / 3) + 2 * pi" by simp
  then show ?thesis by (simp only: sin_periodic sin_pi_minus sin_60)
qed

lemma fft3_imag:
  "map snd (np_fft [Finite a, Finite b, NegInf]) = [Finite 0, NegInf, PosInf]"
  by (simp add: np_fft_def fft_term_def Let_def upt_conv_Cons sin_4_3 sin_8_3 f_inf_def)

lemma sin_3_2: "sin (3 * pi / 2) = - 1"
proof -
  have "3 * pi / 2 = 3 / 2 * pi" by simp
  then show ?thesis by (simp only: sin_3over2_pi)
qed

lemma fft4_imag:
  "map snd (np_fft [Finite 0, Finite 1, Finite 0, Finite 0])
   = [Finite 0, Finite (- 1), Finite 0, Finite 1]"
  by (simp add: np_fft_def fft_term_def Let_def upt_conv_Cons sin_3_2)

lemma sample_model_potential_odd:
  "\<exists>b. model_potential sample_utils 3 cubic10 1 0 (Finite 10) gauss_model
          = Inr [Finite (pi / 10), Finite b, NegInf]"
  by (simp add: model_potential_def reciprocal_step_def py_get3_def py_get_def list3_def
      cubic10_def sample_utils_def build_v_G_def v_G_limit_def g_grid_3 v_G_bin_def
      gauss_model_def Let_def f_inf_def)

lemma residual_of_imag:
  "spec_imaginary_residual F = np_max (map f_abs (map snd F))"
  by (simp add: spec_imaginary_residual_def comp_def)

theorem imaginary_check_iff_witness:
  "(\<not> (\<exists>r. perform_pot_corr sample_utils [0, 5] [1, 2] [3, 5] cubic10 1 (Some (0, 0, 0)) 0
              (Finite 1) gauss_model (1 / 10000) 1 = Inl (NumericalInstability r))
    \<and> perform_pot_corr sample_utils [0, 5] [1, 2] [3, 5] cubic10 1 (Some (0, 0, 0)) 0
        (Finite 1) gauss_model (1 / 10000) 1
      = align_window [0, 5] [1, 2] [3, 5] 1
          (map (\<lambda>z. f_mul (f_div (fst z)
                             (Finite (volume cubic10 * ang_to_bohr sample_utils ^ 3)))
                       (Finite (hart_to_ev sample_utils)))
             (np_fft [Finite pi, Finite 0])) 1)
   \<and> (\<exists>r. perform_pot_corr sample_utils [0, 1, 2] [1, 2, 3] [3, 5, 7] cubic10 1
             (Some (0, 0, 0)) 0 (Finite 10) gauss_model (1 / 10000) 1
           = Inl (NumericalInstability r))
   \<and> (\<exists>r. real_space_potential sample_utils cubic10 (1 / 10000)
             [Finite 0, Finite 1, Finite 0, Finite 0] = Inl (NumericalInstability r))"
proof -
  have h1: "defect_axis_position cubic10 (Some (0, 0, 0)) 0 = Inr 0"
    by (simp add: defect_axis_position_def py_get3_def py_get_def list3_def cubic10_def
        wrap_axbulkval_def)
  have h2: "shift_profiles 0 [0, 5] [1, 2] [3, 5] = Inr ([1, 2], [3, 5])"
    by (simp add: shift_profiles_def)
  have h3: "model_potential sample_utils (length [0, 5 :: real]) cubic10 1 0 (Finite 1) gauss_model
            = Inr [Finite pi, Finite 0]"
  proof -
    have len: "length [0, 5 :: real] = 2" by simp
    show ?thesis unfolding len by (rule sample_model_potential)
  qed
  note even = imaginary_check_iff[OF h1 h2 h3, of "1 / 10000" 1]
  have small: "\<forall>z \<in> set (np_fft [Finite pi, Finite 0]).
      f_less (f_abs (snd z)) (Finite (1 / 10000))"
    by (simp add: sample_fft)
  have res: "spec_imaginary_residual (np_fft [Finite pi, Finite 0]) = Finite 0"
    by (simp add: sample_fft spec_imaginary_residual_def np_max_def f_max_def)
  from even[THEN conjunct1] res
  have a: "\<not> (\<exists>r. perform_pot_corr sample_utils [0, 5] [1, 2] [3, 5] cubic10 1 (Some (0, 0, 0)) 0
              (Finite 1) gauss_model (1 / 10000) 1 = Inl (NumericalInstability r))" by simp
  from even[THEN conjunct2, THEN conjunct1] small
  have b: "perform_pot_corr sample_utils [0, 5] [1, 2] [3, 5] cubic10 1 (Some (0, 0, 0)) 0
        (Finite 1) gauss_model (1 / 10000) 1
      = align_window [0, 5] [1, 2] [3, 5] 1
          (map (\<lambda>z. f_mul (f_div (fst z)
                             (Finite (volume cubic10 * ang_to_bohr sample_utils ^ 3)))
                       (Finite (hart_to_ev sample_utils)))
             (np_fft [Finite pi, Finite 0])) 1" by blast
  have g2: "shift_profiles 0 [0, 1, 2] [1, 2, 3] [3, 5, 7] = Inr ([1, 2, 3], [3, 5, 7])"
    by (simp add: shift_profiles_def)
  from sample_model_potential_odd obtain y where
    m3: "model_potential sample_utils 3 cubic10 1 0 (Finite 10) gauss_model
       = Inr [Finite (pi / 10), Finite y, NegInf]" by blast
  have len3: "length [0, 1, 2 :: real] = 3" by simp
  have g3: "model_potential sample_utils (length [0, 1, 2 :: real]) cubic10 1 0
      (Finite 10) gauss_model = Inr [Finite (pi / 10), Finite y, NegInf]"
    unfolding len3 by (rule m3)
  note odd = imaginary_check_iff[OF h1 g2 g3, of "1 / 10000" 1]
  have "spec_imaginary_residual (np_fft [Finite (pi / 10), Finite y, NegInf]) = PosInf"
    by (simp add: residual_of_imag fft3_imag np_max_def f_max_def)
  with odd[THEN conjunct1]
  have c: "\<exists>r. perform_pot_corr sample_utils [0, 1, 2] [1, 2, 3] [3, 5, 7] cubic10 1
             (Some (0, 0, 0)) 0 (Finite 10) gauss_model (1 / 10000) 1
           = Inl (NumericalInstability r)" by simp
  have "spec_imaginary_residual (np_fft [Finite 0, Finite 1, Finite 0, Finite 0]) = Finite 1"
    by (simp add: residual_of_imag fft4_imag np_max_def f_max_def)
  moreover have "[Finite 0, Finite 1, Finite 0, Finite 0] \<noteq> []" by simp
  ultimately
  have d: "\<exists>r. real_space_potential sample_utils cubic10 (1 / 10000)
             [Finite 0, Finite 1, Finite 0, Finite 0] = Inl (NumericalInstability r)"
    using even[THEN conjunct2, THEN conjunct2, rule_format,
        of "[Finite 0, Finite 1, Finite 0, Finite 0]"] by simp
  from a b c d show ?thesis by blast
qed

section \<open>perform_pot_corr: the model potential on odd and even grids\<close>

text \<open>
  C3, on a grid of odd length. \<open>np.arange(-nx / 2, nx / 2, 1, dtype=int)\<close> is
  \<open>-m .. m\<close> for \<open>nx = 2 m + 1\<close> and the roll by \<open>int(nx / 2) = m\<close> leaves the zero
  frequency in the last bin: bin 0, filled from the limit at frequency 0, stands at the
  frequency \<open>dg\<close>, and line 268 divides by zero in the last bin, which holds an
  infinity or a \<open>nan\<close> and not the term of a frequency other than zero.
\<close>

theorem v_G_odd_grid_not_finite:
  assumes "odd nx" "3 \<le> nx" "dielectric \<noteq> Finite 0"
  shows "g_grid nx dg ! 0 = dg \<and> g_grid nx dg ! (nx - 1) = 0
         \<and> (\<exists>v. build_v_G nx q dielectric qm dg = Inr v \<and> length v = nx
               \<and> v ! 0 = f_mul (f_div (Finite (4 * pi * (- q))) dielectric)
                            (Finite (rho_rec_limit0 qm))
               \<and> v ! (nx - 1) = v_G_bin q dielectric qm 0
               \<and> \<not> is_finite (v ! (nx - 1)))"
proof -
  have g0: "g_grid nx dg ! 0 = dg" using g_grid_odd[OF assms(1), of 0 dg] assms(2) by simp
  have "\<not> nx - 1 < nx div 2" using assms(2) by linarith
  then have gl: "g_grid nx dg ! (nx - 1) = 0"
    using g_grid_odd[OF assms(1), of "nx - 1" dg] assms(2) by (simp add: of_nat_diff)
  have pos: "0 < nx" using assms(2) by linarith
  from build_v_G_nth[OF assms(3) pos, of q qm dg] obtain v where v:
      "build_v_G nx q dielectric qm dg = Inr v" "length v = nx"
      "\<forall>k < nx. v ! k =
                 (if even nx \<and> k = nx div 2 then Finite 0
                  else if k = 0
                    then f_mul (f_div (Finite (4 * pi * (- q))) dielectric)
                           (Finite (rho_rec_limit0 qm))
                  else v_G_bin q dielectric qm (g_grid nx dg ! k * g_grid nx dg ! k))"
    by blast
  have v0: "v ! 0 = f_mul (f_div (Finite (4 * pi * (- q))) dielectric)
                            (Finite (rho_rec_limit0 qm))"
    using v(3)[rule_format, of 0] pos assms(1) by simp
  have vl: "v ! (nx - 1) = v_G_bin q dielectric qm 0"
    using v(3)[rule_format, of "nx - 1"] assms(1,2) gl by simp
  have "\<not> is_finite (v ! (nx - 1))" unfolding vl by (rule v_G_bin_zero_not_finite)
  with g0 gl v(1,2) v0 vl show ?thesis by blast
qed

theorem v_G_odd_grid_not_finite_witness:
  "g_grid 3 1 = [1, - 1, 0]
   \<and> build_v_G 3 1 (Finite 10) gauss_model 1
     = Inr [Finite (pi / 10), Finite (- (2 * pi / 5 * exp (- (1 / 4)))), NegInf]
   \<and> (\<exists>v. build_v_G 3 1 (Finite 10) gauss_model 1 = Inr v \<and> \<not> is_finite (v ! 2))"
proof -
  have "odd (3::nat)" "3 \<le> (3::nat)" "Finite 10 \<noteq> Finite 0" by simp_all
  from v_G_odd_grid_not_finite[OF this, of 1 1 gauss_model]
  have "\<exists>v. build_v_G 3 1 (Finite 10) gauss_model 1 = Inr v \<and> \<not> is_finite (v ! 2)"
    by auto
  moreover have "build_v_G 3 1 (Finite 10) gauss_model 1
     = Inr [Finite (pi / 10), Finite (- (2 * pi / 5 * exp (- (1 / 4)))), NegInf]"
    by (simp add: build_v_G_def v_G_limit_def g_grid_3 v_G_bin_def gauss_model_def Let_def
        f_inf_def)
  ultimately show ?thesis by (simp add: g_grid_3)
qed

text \<open>
  On a grid of even length with a finite dielectric constant and a reciprocal step
  other than zero the array holds finite floats: bin 0 the limit term, the bin
  \<open>nx / 2\<close> the number 0, and every other bin, which stands at a frequency other than
  zero, the term of that frequency.
\<close>

theorem v_G_even_grid:
  assumes "even nx" "0 < nx" "d \<noteq> 0" "dg \<noteq> 0"
  shows "\<exists>v. build_v_G nx q (Finite d) qm dg = Inr v \<and> length v = nx
           \<and> v ! 0 = Finite (4 * pi * (- q) / d * rho_rec_limit0 qm)
           \<and> g_grid nx dg ! 0 = 0
           \<and> (\<forall>k. 1 \<le> k \<and> k < nx \<and> k \<noteq> nx div 2 \<longrightarrow>
                 g_grid nx dg ! k \<noteq> 0
                 \<and> v ! k = Finite (4 * pi / (d * (g_grid nx dg ! k * g_grid nx dg ! k)) * (- q)
                             * rho_rec qm (g_grid nx dg ! k * g_grid nx dg ! k)))
           \<and> v ! (nx div 2) = Finite 0"
proof -
  have g0: "g_grid nx dg ! 0 = 0" using g_grid_even[OF assms(1), of 0 dg] assms(1,2)
    by (auto elim: evenE)
  have half: "nx div 2 < nx" "0 < nx div 2" using assms(1,2) by (auto elim: evenE)
  have d: "Finite d \<noteq> Finite 0" using assms(3) by simp
  from build_v_G_nth[OF d assms(2), of q qm dg] obtain v where v:
      "build_v_G nx q (Finite d) qm dg = Inr v" "length v = nx"
      "\<forall>k < nx. v ! k =
                 (if even nx \<and> k = nx div 2 then Finite 0
                  else if k = 0
                    then f_mul (f_div (Finite (4 * pi * (- q))) (Finite d))
                           (Finite (rho_rec_limit0 qm))
                  else v_G_bin q (Finite d) qm (g_grid nx dg ! k * g_grid nx dg ! k))"
    by blast
  have v0: "v ! 0 = Finite (4 * pi * (- q) / d * rho_rec_limit0 qm)"
    using v(3)[rule_format, of 0] assms(2,3) half by simp
  have vh: "v ! (nx div 2) = Finite 0"
    using v(3)[rule_format, of "nx div 2"] half assms(1) by simp
  have vk: "g_grid nx dg ! k \<noteq> 0
                 \<and> v ! k = Finite (4 * pi / (d * (g_grid nx dg ! k * g_grid nx dg ! k)) * (- q)
                             * rho_rec qm (g_grid nx dg ! k * g_grid nx dg ! k))"
    if k: "1 \<le> k \<and> k < nx \<and> k \<noteq> nx div 2" for k
  proof -
    from k have k1: "1 \<le> k" and k2: "k < nx" and k3: "k \<noteq> nx div 2" by blast+
    have nz: "g_grid nx dg ! k \<noteq> 0"
      using g_grid_even_nonzero[OF assms(1) k2 k1 assms(4)] .
    then have nz2: "g_grid nx dg ! k * g_grid nx dg ! k \<noteq> 0" by simp
    have "v ! k = v_G_bin q (Finite d) qm (g_grid nx dg ! k * g_grid nx dg ! k)"
      using v(3)[rule_format, OF k2] k1 k3 by simp
    with nz show ?thesis by (simp only: v_G_bin_finite[OF assms(3) nz2] simp_thms)
  qed
  from v(1,2) v0 g0 vk vh show ?thesis by blast
qed

lemma g_grid_4: "g_grid 4 dg = [0, dg, - (2 * dg), - dg]"
  by (simp add: g_grid_def np_roll_def np_arange_int_def py_int_def upt_conv_Cons)

theorem v_G_even_grid_witness:
  "build_v_G 4 1 (Finite 10) gauss_model 1
   = Inr [Finite (pi / 10), Finite (- (2 * pi / 5 * exp (- (1 / 4)))), Finite 0,
          Finite (- (2 * pi / 5 * exp (- (1 / 4))))]
   \<and> (\<exists>v. build_v_G 4 1 (Finite 10) gauss_model 1 = Inr v \<and> v ! 0 = Finite (pi / 10)
          \<and> v ! 2 = Finite 0)"
proof -
  have "even (4::nat)" "0 < (4::nat)" "(10::real) \<noteq> 0" "(1::real) \<noteq> 0" by simp_all
  from v_G_even_grid[OF this, of 1 gauss_model]
  have "\<exists>v. build_v_G 4 1 (Finite 10) gauss_model 1 = Inr v \<and> v ! 0 = Finite (pi / 10)
          \<and> v ! 2 = Finite 0"
    by (auto simp: gauss_model_def)
  moreover have "build_v_G 4 1 (Finite 10) gauss_model 1
   = Inr [Finite (pi / 10), Finite (- (2 * pi / 5 * exp (- (1 / 4)))), Finite 0,
          Finite (- (2 * pi / 5 * exp (- (1 / 4))))]"
    by (simp add: build_v_G_def v_G_limit_def g_grid_4 v_G_bin_def gauss_model_def Let_def)
  ultimately show ?thesis by blast
qed

section \<open>perform_pot_corr: the sampled window and the alignment constant\<close>

lemma py_get_Inr:
  assumes "py_get xs i = Inr v"
  shows "- int (length xs) \<le> i \<and> i < int (length xs)"
  using assms by (auto simp: py_get_def split: if_splits)

lemma py_get_nonneg: "0 \<le> i \<Longrightarrow> i < int (length xs) \<Longrightarrow> py_get xs i = Inr (xs ! nat i)"
  by (simp add: py_get_def)

lemma py_gets_bounds:
  "py_gets xs idx = Inr vs \<Longrightarrow> \<forall>i \<in> set idx. - int (length xs) \<le> i \<and> i < int (length xs)"
proof (induction idx arbitrary: vs)
  case Nil
  then show ?case by simp
next
  case (Cons i idx)
  then show ?case by (auto split: sum.splits dest: py_get_Inr)
qed

lemma py_gets_nonneg:
  "\<forall>i \<in> set idx. 0 \<le> i \<and> i < int (length xs) \<Longrightarrow>
   py_gets xs idx = Inr (map (\<lambda>i. xs ! nat i) idx)"
  by (induction idx) (simp_all add: py_get_nonneg)

lemma checkdis_of_Inr:
  assumes "checkdis_of axis_grid w = Inr cd"
  shows "2 \<le> length axis_grid \<and> axis_grid ! 1 - axis_grid ! 0 \<noteq> 0
         \<and> cd = py_int ((w / 2) / (axis_grid ! 1 - axis_grid ! 0))"
proof -
  from assms obtain g1 g0 where g: "py_get axis_grid 1 = Inr g1" "py_get axis_grid 0 = Inr g0"
      "g1 - g0 \<noteq> 0" "cd = py_int ((w / 2) / (g1 - g0))"
    by (auto simp: checkdis_of_def split: sum.splits if_splits)
  from py_get_Inr[OF g(1)] have len: "2 \<le> length axis_grid" by simp
  then have "0 < length axis_grid" "1 < length axis_grid" by linarith+
  then have "py_get axis_grid 1 = Inr (axis_grid ! 1)" "py_get axis_grid 0 = Inr (axis_grid ! 0)"
    by (simp_all add: py_get_def)
  with g len show ?thesis by simp
qed

lemma py_int_bounds:
  assumes "0 \<le> y"
  shows "0 \<le> py_int y \<and> real_of_int (py_int y) \<le> y \<and> y < real_of_int (py_int y) + 1"
  using assms by (simp add: py_int_def)

lemma sampling_window_Inr:
  assumes "sampling_window axis_grid short w = Inr (lo, hi, tmppot)"
  shows "\<exists>cd. checkdis_of axis_grid w = Inr cd
           \<and> lo = int (length short) div 2 - cd \<and> hi = int (length short) div 2 + cd + 1
           \<and> 0 \<le> cd \<and> 0 \<le> int (length short) div 2 - cd
           \<and> int (length short) div 2 + cd < int (length short)
           \<and> tmppot = map (\<lambda>i. short ! nat i)
                 [int (length short) div 2 - cd..int (length short) div 2 + cd]"
proof -
  let ?mid = "int (length short) div 2"
  from assms obtain cd where cd: "checkdis_of axis_grid w = Inr cd"
    and g: "py_gets short (py_range (?mid - cd) (?mid + cd + 1)) = Inr tmppot"
    and ne: "tmppot \<noteq> []"
    and lo: "lo = ?mid - cd" and hi: "hi = ?mid + cd + 1"
    by (auto simp: sampling_window_def Let_def split: sum.splits if_splits)
  have r: "py_range (?mid - cd) (?mid + cd + 1) = [?mid - cd..?mid + cd]"
    by (simp add: py_range_def)
  have nonneg: "0 \<le> cd"
  proof (rule ccontr)
    assume "\<not> 0 \<le> cd"
    then have "[?mid - cd..?mid + cd] = []" by simp
    with g r have "tmppot = []" by simp
    with ne show False by simp
  qed
  then have "?mid + cd \<in> set [?mid - cd..?mid + cd]" by simp
  with py_gets_bounds[OF g] r have up: "?mid + cd < int (length short)" by simp
  then have low: "0 \<le> ?mid - cd" by linarith
  have "\<forall>i \<in> set [?mid - cd..?mid + cd]. 0 \<le> i \<and> i < int (length short)"
    using low up by simp
  from py_gets_nonneg[OF this] g r
  have "tmppot = map (\<lambda>i. short ! nat i) [?mid - cd..?mid + cd]" by simp
  with cd lo hi nonneg low up show ?thesis by blast
qed

lemma np_sub_same_length:
  "length a = length b \<Longrightarrow> np_sub a b = Inr (map2 f_sub a b)"
  by (simp add: np_sub_def)

lemma real_space_potential_Inr:
  "real_space_potential U lat mad_tol v_G = Inr v_R \<Longrightarrow> length v_R = length v_G"
  by (auto simp: real_space_potential_def Let_def np_fft_length split: if_splits)

lemma shift_profiles_Inr:
  "shift_profiles p axis_grid pureavg defavg = Inr (pu, de) \<Longrightarrow>
   length pu = length pureavg \<and> length de = length defavg"
  by (auto simp: shift_profiles_def Let_def np_roll_length split: if_splits option.splits)


lemma align_window_Inr:
  assumes "align_window axis_grid pu de q v_R w = Inr (pot_corr, md)"
      and "length pu = length axis_grid" "length de = length axis_grid"
      and "length v_R = length axis_grid"
  shows "\<exists>short cd C.
       short = map2 f_sub (map2 f_sub (map Finite de) (map Finite pu)) v_R
     \<and> 2 \<le> length axis_grid \<and> axis_grid ! 1 - axis_grid ! 0 \<noteq> 0
     \<and> cd = py_int ((w / 2) / (axis_grid ! 1 - axis_grid ! 0))
     \<and> 0 \<le> cd \<and> 0 \<le> int (length axis_grid) div 2 - cd
     \<and> int (length axis_grid) div 2 + cd < int (length axis_grid)
     \<and> stats_sample md = map (\<lambda>i. short ! nat i)
           [int (length axis_grid) div 2 - cd..int (length axis_grid) div 2 + cd]
     \<and> plot_check md = (int (length axis_grid) div 2 - cd, int (length axis_grid) div 2 + cd + 1)
     \<and> C = f_neg (f_div (f_sum (stats_sample md)) (Finite (real_of_int (2 * cd + 1))))
     \<and> pot_corr = f_mul (Finite (- q)) C \<and> potcorr md = f_mul (Finite (- q)) C
     \<and> plot_Vr md = map (\<lambda>e. f_sub e C) v_R
     \<and> plot_dft_diff md = map2 f_sub (map Finite de) (map Finite pu)"
proof -
  let ?diff = "map2 f_sub (map Finite de) (map Finite pu)"
  let ?short = "map2 f_sub ?diff v_R"
  have d: "dft_difference de pu = Inr ?diff"
    using assms(2,3) by (simp add: dft_difference_def np_sub_same_length)
  have s: "short_range de pu v_R = Inr ?short"
    using assms(2,3,4) by (simp add: short_range_def d np_sub_same_length)
  have ls: "length ?short = length axis_grid" using assms(2,3,4) by simp
  from assms(1) obtain lo hi tmppot where
      sw: "sampling_window axis_grid ?short w = Inr (lo, hi, tmppot)"
      and pc: "pot_corr = f_mul (Finite (- q)) (f_neg (np_mean tmppot))"
      and md: "md = \<lparr>plot_Vr = map (\<lambda>elmnt. f_sub elmnt (f_neg (np_mean tmppot))) v_R,
                 plot_x = axis_grid,
                 plot_dft_diff = ?diff,
                 plot_final_shift = map (\<lambda>j. f_add (?short ! j) (f_neg (np_mean tmppot))) [0..<length v_R],
                 plot_check = (lo, hi),
                 stats_sample = tmppot,
                 potcorr = f_mul (Finite (- q)) (f_neg (np_mean tmppot))\<rparr>"
    unfolding align_window_def s d by (auto simp: Let_def split: sum.splits prod.splits)
  from sampling_window_Inr[OF sw] obtain cd where cd:
      "checkdis_of axis_grid w = Inr cd"
      "lo = int (length axis_grid) div 2 - cd" "hi = int (length axis_grid) div 2 + cd + 1"
      "0 \<le> cd" "0 \<le> int (length axis_grid) div 2 - cd"
      "int (length axis_grid) div 2 + cd < int (length axis_grid)"
      "tmppot = map (\<lambda>i. ?short ! nat i)
                 [int (length axis_grid) div 2 - cd..int (length axis_grid) div 2 + cd]"
    unfolding ls by blast
  have len: "real (length tmppot) = real_of_int (2 * cd + 1)"
  proof -
    have "length tmppot = nat (2 * cd + 1)" using cd(7) by simp
    then show ?thesis using cd(4) by simp
  qed
  have mean: "np_mean tmppot = f_div (f_sum tmppot) (Finite (real_of_int (2 * cd + 1)))"
    by (simp only: np_mean_def len)
  have m: "stats_sample md = tmppot" "plot_check md = (lo, hi)"
      "potcorr md = f_mul (Finite (- q)) (f_neg (np_mean tmppot))"
      "plot_Vr md = map (\<lambda>e. f_sub e (f_neg (np_mean tmppot))) v_R"
      "plot_dft_diff md = map2 f_sub (map Finite de) (map Finite pu)"
    unfolding md by simp_all
  note c = checkdis_of_Inr[OF cd(1)]
  have f1: "?short = map2 f_sub (map2 f_sub (map Finite de) (map Finite pu)) v_R" by (rule refl)
  have f2: "2 \<le> length axis_grid" using c by blast
  have f3: "axis_grid ! 1 - axis_grid ! 0 \<noteq> 0" using c by blast
  have f4: "cd = py_int ((w / 2) / (axis_grid ! 1 - axis_grid ! 0))" using c by blast
  have f5: "stats_sample md = map (\<lambda>i. ?short ! nat i)
           [int (length axis_grid) div 2 - cd..int (length axis_grid) div 2 + cd]"
    unfolding m(1) by (rule cd(7))
  have f6: "plot_check md
            = (int (length axis_grid) div 2 - cd, int (length axis_grid) div 2 + cd + 1)"
    unfolding m(2) cd(2) cd(3) by (rule refl)
  have f7: "f_neg (np_mean tmppot)
      = f_neg (f_div (f_sum (stats_sample md)) (Finite (real_of_int (2 * cd + 1))))"
    unfolding m(1) mean by (rule refl)
  show ?thesis
    apply (rule exI[of _ ?short], rule exI[of _ cd], rule exI[of _ "f_neg (np_mean tmppot)"])
    apply (intro conjI)
    apply (rule f1, rule f2, rule f3, rule f4, rule cd(4), rule cd(5), rule cd(6), rule f5,
        rule f6, rule f7, rule pc, rule m(3), rule m(4), rule m(5))
    done
qed

lemma window_width:
  assumes "0 < h" "0 \<le> w" "cd = py_int ((w / 2) / h)"
  shows "2 * real_of_int cd * h \<le> w \<and> w < 2 * (real_of_int cd + 1) * h"
proof -
  have y: "0 \<le> (w / 2) / h" using assms(1,2) by simp
  from py_int_bounds[OF y] assms(3)
  have b: "real_of_int cd \<le> (w / 2) / h" "(w / 2) / h < real_of_int cd + 1" by simp_all
  from b(1) assms(1) have "real_of_int cd * h \<le> w / 2" by (simp add: pos_le_divide_eq)
  moreover from b(2) assms(1) have "w / 2 < (real_of_int cd + 1) * h" by (simp add: pos_divide_less_eq)
  moreover have "2 * real_of_int cd * h = 2 * (real_of_int cd * h)"
    "2 * (real_of_int cd + 1) * h = 2 * ((real_of_int cd + 1) * h)" by simp_all
  ultimately show ?thesis by linarith
qed

text \<open>
  C4. When \<open>perform_pot_corr\<close> returns (on profiles as long as the grid), the returned
  correction is \<open>- q * C\<close> (in the arithmetic of the floats), where \<open>C\<close> is the
  negated arithmetic mean of the short-range residual \<open>short = defavg - pureavg - v_R\<close> (the rolled profiles, the real-space model
  potential) over the \<open>2 * cd + 1\<close> indices \<open>mid - cd .. mid + cd\<close> around the middle
  \<open>mid = nx div 2\<close> of the grid; the window lies inside the grid, and with the grid
  spacing \<open>h > 0\<close> its half-width \<open>cd = int((widthsample / 2) / h)\<close> is the largest
  with \<open>2 * cd * h \<le> widthsample\<close>.
\<close>

theorem alignment_constant:
  assumes "perform_pot_corr U axis_grid pureavg defavg lat q coords axis dielectric qm mad_tol
             widthsample = Inr (pot_corr, md)"
      and "length pureavg = length axis_grid" "length defavg = length axis_grid"
  shows "\<exists>p pu de v_G v_R short cd C.
       defect_axis_position lat coords axis = Inr p
     \<and> shift_profiles p axis_grid pureavg defavg = Inr (pu, de)
     \<and> model_potential U (length axis_grid) lat q axis dielectric qm = Inr v_G
     \<and> real_space_potential U lat mad_tol v_G = Inr v_R
     \<and> short = map2 f_sub (map2 f_sub (map Finite de) (map Finite pu)) v_R
     \<and> 2 \<le> length axis_grid \<and> axis_grid ! 1 - axis_grid ! 0 \<noteq> 0
     \<and> cd = py_int ((widthsample / 2) / (axis_grid ! 1 - axis_grid ! 0))
     \<and> 0 \<le> cd \<and> 0 \<le> int (length axis_grid) div 2 - cd
     \<and> int (length axis_grid) div 2 + cd < int (length axis_grid)
     \<and> stats_sample md = map (\<lambda>i. short ! nat i)
           [int (length axis_grid) div 2 - cd..int (length axis_grid) div 2 + cd]
     \<and> plot_check md = (int (length axis_grid) div 2 - cd, int (length axis_grid) div 2 + cd + 1)
     \<and> C = f_neg (f_div (f_sum (stats_sample md)) (Finite (real_of_int (2 * cd + 1))))
     \<and> pot_corr = f_mul (Finite (- q)) C \<and> potcorr md = f_mul (Finite (- q)) C
     \<and> (0 < axis_grid ! 1 - axis_grid ! 0 \<and> 0 \<le> widthsample \<longrightarrow>
          2 * real_of_int cd * (axis_grid ! 1 - axis_grid ! 0) \<le> widthsample
          \<and> widthsample < 2 * (real_of_int cd + 1) * (axis_grid ! 1 - axis_grid ! 0))"
proof -
  from assms(1) obtain p pu de v_G v_R where
      st: "defect_axis_position lat coords axis = Inr p"
          "shift_profiles p axis_grid pureavg defavg = Inr (pu, de)"
          "model_potential U (length axis_grid) lat q axis dielectric qm = Inr v_G"
          "real_space_potential U lat mad_tol v_G = Inr v_R"
      and aw: "align_window axis_grid pu de q v_R widthsample = Inr (pot_corr, md)"
    by (auto simp: perform_pot_corr_def align_shifted_def split: sum.splits prod.splits)
  have l1: "length pu = length axis_grid" "length de = length axis_grid"
    using shift_profiles_Inr[OF st(2)] assms(2,3) by simp_all
  have l2: "length v_R = length axis_grid"
    using real_space_potential_Inr[OF st(4)] model_potential_Inr[OF st(3)] by simp
  from align_window_Inr[OF aw l1 l2] obtain short cd C where w:
      "short = map2 f_sub (map2 f_sub (map Finite de) (map Finite pu)) v_R"
      "2 \<le> length axis_grid" "axis_grid ! 1 - axis_grid ! 0 \<noteq> 0"
      "cd = py_int ((widthsample / 2) / (axis_grid ! 1 - axis_grid ! 0))"
      "0 \<le> cd" "0 \<le> int (length axis_grid) div 2 - cd"
      "int (length axis_grid) div 2 + cd < int (length axis_grid)"
      "stats_sample md = map (\<lambda>i. short ! nat i)
           [int (length axis_grid) div 2 - cd..int (length axis_grid) div 2 + cd]"
      "plot_check md = (int (length axis_grid) div 2 - cd, int (length axis_grid) div 2 + cd + 1)"
      "C = f_neg (f_div (f_sum (stats_sample md)) (Finite (real_of_int (2 * cd + 1))))"
      "pot_corr = f_mul (Finite (- q)) C" "potcorr md = f_mul (Finite (- q)) C"
    by blast
  have width: "0 < axis_grid ! 1 - axis_grid ! 0 \<and> 0 \<le> widthsample \<longrightarrow>
          2 * real_of_int cd * (axis_grid ! 1 - axis_grid ! 0) \<le> widthsample
          \<and> widthsample < 2 * (real_of_int cd + 1) * (axis_grid ! 1 - axis_grid ! 0)"
    using window_width[OF _ _ w(4)] by blast
  show ?thesis
    apply (rule exI[of _ p], rule exI[of _ pu], rule exI[of _ de], rule exI[of _ v_G],
        rule exI[of _ v_R], rule exI[of _ short], rule exI[of _ cd], rule exI[of _ C])
    using st w width by blast
qed


lemma upto_1_1: "[1..1::int] = [1]"
  by (simp add: upto_rec1)

lemma sample_real_space:
  "real_space_potential sample_utils cubic10 (1 / 10000) [Finite pi, Finite 0]
   = Inr [Finite sample_v, Finite sample_v]"
  by (simp add: real_space_potential_def sample_fft Let_def cubic10_def sample_utils_def
      np_max_def f_max_def np_cdiv_def sample_v_def)

lemma sample_align:
  "align_window [0, 5] [1, 2] [3, 5] 1 [Finite v, Finite v] 1
   = Inr (Finite (3 - v),
       \<lparr>plot_Vr = [Finite (v - (v - 3)), Finite (v - (v - 3))], plot_x = [0, 5],
        plot_dft_diff = [Finite 2, Finite 3],
        plot_final_shift = [Finite (2 - v + (v - 3)), Finite (3 - v + (v - 3))],
        plot_check = (1, 2), stats_sample = [Finite (3 - v)], potcorr = Finite (3 - v)\<rparr>)"
  by (simp add: align_window_def short_range_def dft_difference_def np_sub_def f_sub_def
      sampling_window_def checkdis_of_def py_get_def py_int_def py_range_def np_mean_def Let_def
      upto_1_1 upt_conv_Cons)

lemma sample_perform_pot_corr:
  "perform_pot_corr sample_utils [0, 5] [1, 2] [3, 5] cubic10 1 (Some (0, 0, 0)) 0 (Finite 1)
     gauss_model (1 / 10000) 1
   = Inr (Finite (3 - sample_v),
       \<lparr>plot_Vr = [Finite (sample_v - (sample_v - 3)), Finite (sample_v - (sample_v - 3))],
        plot_x = [0, 5], plot_dft_diff = [Finite 2, Finite 3],
        plot_final_shift = [Finite (2 - sample_v + (sample_v - 3)),
                            Finite (3 - sample_v + (sample_v - 3))],
        plot_check = (1, 2), stats_sample = [Finite (3 - sample_v)],
        potcorr = Finite (3 - sample_v)\<rparr>)"
proof -
  have h1: "defect_axis_position cubic10 (Some (0, 0, 0)) 0 = Inr 0"
    by (simp add: defect_axis_position_def py_get3_def py_get_def list3_def cubic10_def
        wrap_axbulkval_def)
  have h2: "shift_profiles 0 [0, 5] [1, 2] [3, 5] = Inr ([1, 2], [3, 5])"
    by (simp add: shift_profiles_def)
  have len: "length [0, 5 :: real] = 2" by simp
  show ?thesis
    unfolding perform_pot_corr_def align_shifted_def h1 len sample_model_potential
    by (simp only: sum.case h2 prod.case sample_real_space sample_align)
qed

theorem alignment_constant_witness:
  "\<exists>pot_corr md. perform_pot_corr sample_utils [0, 5] [1, 2] [3, 5] cubic10 1 (Some (0, 0, 0)) 0
        (Finite 1) gauss_model (1 / 10000) 1 = Inr (pot_corr, md)
     \<and> (\<exists>C. C = f_neg (f_div (f_sum (stats_sample md)) (Finite 1))
            \<and> pot_corr = f_mul (Finite (- 1)) C)
     \<and> plot_check md = (1, 2) \<and> pot_corr = Finite (3 - sample_v)"
proof -
  let ?md = "\<lparr>plot_Vr = [Finite (sample_v - (sample_v - 3)), Finite (sample_v - (sample_v - 3))],
        plot_x = [0, 5], plot_dft_diff = [Finite 2, Finite 3],
        plot_final_shift = [Finite (2 - sample_v + (sample_v - 3)),
                            Finite (3 - sample_v + (sample_v - 3))],
        plot_check = (1, 2), stats_sample = [Finite (3 - sample_v)],
        potcorr = Finite (3 - sample_v)\<rparr>"
  have l: "length [1, 2 :: real] = length [0, 5 :: real]" "length [3, 5 :: real] = length [0, 5 :: real]"
    by simp_all
  from alignment_constant[OF sample_perform_pot_corr l]
  obtain cd C where c: "cd = py_int ((1 / 2) / ([0, 5 :: real] ! 1 - [0, 5] ! 0))"
      "plot_check ?md = (int (length [0, 5 :: real]) div 2 - cd, int (length [0, 5 :: real]) div 2 + cd + 1)"
      "C = f_neg (f_div (f_sum (stats_sample ?md)) (Finite (real_of_int (2 * cd + 1))))"
      "Finite (3 - sample_v) = f_mul (Finite (- 1)) C"
    by blast
  from c(1) have cd0: "cd = 0" by (simp add: py_int_def)
  from c(3) cd0 have "C = f_neg (f_div (f_sum (stats_sample ?md)) (Finite 1))" by simp
  with c(4) have "\<exists>C. C = f_neg (f_div (f_sum (stats_sample ?md)) (Finite 1))
      \<and> Finite (3 - sample_v) = f_mul (Finite (- 1)) C" by blast
  moreover have "plot_check ?md = (1, 2)" by simp
  ultimately show ?thesis using sample_perform_pot_corr by simp
qed

section \<open>The corrections of a neutral defect\<close>

lemma converge_loop_value_aux:
  assumes "0 < step"
  shows "mx - c < real n * step \<Longrightarrow> \<exists>c'. converge_loop f step tol mx c prev = Some (f c')"
proof (induction n arbitrary: c prev)
  case 0
  then have "mx < c" by simp
  then show ?case by (subst converge_loop.simps) auto
next
  case (Suc n)
  have "mx - (c + step) < real n * step" using Suc.prems by (simp add: algebra_simps)
  from Suc.IH[OF this] obtain c' where
    "converge_loop f step tol mx (c + step) (Some (f c)) = Some (f c')" by blast
  then show ?case by (subst converge_loop.simps) auto
qed

lemma converge_loop_value:
  assumes "0 < step"
  shows "\<exists>c'. converge_loop f step tol mx c prev = Some (f c')"
proof -
  obtain n where "(mx - c) / step < real n" using reals_Archimedean2 by blast
  then have "mx - c < real n * step" using assms by (simp add: pos_divide_less_eq)
  then show ?thesis by (rule converge_loop_value_aux[OF assms])
qed

lemma converge_value: "0 < c0 \<Longrightarrow> \<exists>c'. converge f c0 tol mx = Some (f c')"
  unfolding converge_def by (rule converge_loop_value)

lemma converge_const:
  assumes "0 < c0" "\<And>c. f c = r"
  shows "converge f c0 tol mx = Some r"
  using converge_value[OF assms(1), of f tol mx] assms(2) by auto

lemma e_iso_zero_charge: "e_iso U 0 qm step encut = Finite 0"
  by (simp add: e_iso_def Let_def)

lemma f_sum_quotients:
  "0 \<notin> set g2s \<Longrightarrow>
   f_sum (map (\<lambda>g2. f_div (Finite (r g2)) (Finite g2)) g2s) = Finite (\<Sum>g2\<leftarrow>g2s. r g2 / g2)"
  by (induction g2s) auto

lemma e_per_zero_charge_finite:
  assumes "bohr_volume U lat \<noteq> 0"
      and "\<And>a1 a2 a3. 0 \<notin> set (generate_reciprocal_vectors_squared U a1 a2 a3 encut)"
  shows "e_per U lat 0 qm encut = Finite 0"
proof -
  obtain a1 a2 a3 where bv: "bohr_vectors U lat = (a1, a2, a3)"
    by (cases "bohr_vectors U lat") auto
  have s: "f_sum (map (\<lambda>g2. f_div (Finite ((rho_rec qm g2) ^ 2)) (Finite g2))
                  (generate_reciprocal_vectors_squared U a1 a2 a3 encut))
           = Finite (\<Sum>g2\<leftarrow>generate_reciprocal_vectors_squared U a1 a2 a3 encut.
                       (rho_rec qm g2) ^ 2 / g2)"
    by (rule f_sum_quotients[OF assms(2)])
  show ?thesis unfolding e_per_def bv prod.case Let_def s using assms(1) by simp
qed

lemma py_round6_zero: "py_round6 (Finite 0) = Finite 0"
  by (simp add: round_half_even_def Let_def)

lemma perform_es_corr_zero_charge_finite:
  assumes "d \<noteq> 0" "bohr_volume U lat \<noteq> 0"
      and "\<And>a1 a2 a3 encut. 0 \<notin> set (generate_reciprocal_vectors_squared U a1 a2 a3 encut)"
  shows "perform_es_corr U lat 0 (Finite d) qm energy_cutoff mad_tol step = Some (Finite 0)"
proof -
  have i: "converge (e_iso U 0 qm step) 5 mad_tol energy_cutoff = Some (Finite 0)"
    by (rule converge_const) (simp_all add: e_iso_zero_charge)
  have p: "converge (e_per U lat 0 qm) 5 mad_tol energy_cutoff = Some (Finite 0)"
    by (rule converge_const) (simp_all add: e_per_zero_charge_finite[OF assms(2,3)])
  show ?thesis using assms(1)
    by (simp add: perform_es_corr_def i p f_sub_def round_half_even_def Let_def)
qed

lemma perform_es_corr_returns:
  "perform_es_corr U lat q dielectric qm energy_cutoff mad_tol step \<noteq> None"
proof -
  obtain c1 where i: "converge (e_iso U q qm step) 5 mad_tol energy_cutoff
      = Some (e_iso U q qm step c1)"
    using converge_value[of 5 "e_iso U q qm step" mad_tol energy_cutoff] by auto
  obtain c2 where p: "converge (e_per U lat q qm) 5 mad_tol energy_cutoff
      = Some (e_per U lat q qm c2)"
    using converge_value[of 5 "e_per U lat q qm" mad_tol energy_cutoff] by auto
  show ?thesis
    by (simp add: perform_es_corr_def i p)
qed

lemma checkdis_of_returns:
  assumes "2 \<le> length axis_grid" "axis_grid ! 1 - axis_grid ! 0 \<noteq> 0"
  shows "checkdis_of axis_grid w = Inr (py_int ((w / 2) / (axis_grid ! 1 - axis_grid ! 0)))"
proof -
  have "0 < length axis_grid" "1 < length axis_grid" using assms(1) by linarith+
  then have "py_get axis_grid 1 = Inr (axis_grid ! 1)" "py_get axis_grid 0 = Inr (axis_grid ! 0)"
    by (simp_all add: py_get_def)
  then show ?thesis using assms(2) by (simp add: checkdis_of_def)
qed

lemma sampling_window_returns:
  assumes "2 \<le> length axis_grid" "axis_grid ! 1 - axis_grid ! 0 \<noteq> 0"
      and "length short = length axis_grid"
      and "cd = py_int ((w / 2) / (axis_grid ! 1 - axis_grid ! 0))"
      and "0 \<le> cd" "int (length axis_grid) div 2 + cd < int (length axis_grid)"
  shows "sampling_window axis_grid short w
           = Inr (int (length axis_grid) div 2 - cd, int (length axis_grid) div 2 + cd + 1,
                  map (\<lambda>i. short ! nat i)
                    [int (length axis_grid) div 2 - cd..int (length axis_grid) div 2 + cd])"
proof -
  let ?mid = "int (length axis_grid) div 2"
  have low: "0 \<le> ?mid - cd" using assms(6) by linarith
  have c: "checkdis_of axis_grid w = Inr cd"
    using checkdis_of_returns[OF assms(1,2)] assms(4) by simp
  have r: "py_range (?mid - cd) (?mid + cd + 1) = [?mid - cd..?mid + cd]"
    by (simp add: py_range_def)
  have "\<forall>i \<in> set [?mid - cd..?mid + cd]. 0 \<le> i \<and> i < int (length short)"
    using low assms(3,6) by simp
  from py_gets_nonneg[OF this]
  have g: "py_gets short (py_range (?mid - cd) (?mid + cd + 1))
           = Inr (map (\<lambda>i. short ! nat i) [?mid - cd..?mid + cd])"
    unfolding r .
  have ne: "map (\<lambda>i. short ! nat i) [?mid - cd..?mid + cd] \<noteq> []"
    using assms(5) by simp
  have "\<forall>i \<in> set [?mid - cd, ?mid + cd]. 0 \<le> i \<and> i < int (length axis_grid)"
    using low assms(5,6) by simp
  from py_gets_nonneg[OF this]
  have g2: "py_gets axis_grid [?mid - cd, ?mid + cd]
            = Inr (map (\<lambda>i. axis_grid ! nat i) [?mid - cd, ?mid + cd])" .
  show ?thesis
    unfolding sampling_window_def c assms(3) Let_def sum.case g g2 using ne by simp
qed

lemma f_sum_is_finite: "(\<forall>x \<in> set xs. is_finite x) \<Longrightarrow> is_finite (f_sum xs)"
proof (induction xs)
  case Nil
  then show ?case by simp
next
  case (Cons x xs)
  then obtain a b where "x = Finite a" "f_sum xs = Finite b"
    by (cases x; cases "f_sum xs") auto
  then show ?case by simp
qed

lemma np_mean_is_finite:
  assumes "xs \<noteq> []" "\<forall>x \<in> set xs. is_finite x"
  shows "is_finite (np_mean xs)"
proof -
  from f_sum_is_finite[OF assms(2)] obtain s where "f_sum xs = Finite s"
    by (cases "f_sum xs") auto
  then show ?thesis using assms(1) by (simp add: np_mean_def)
qed

lemma f_mul_zero_finite: "is_finite c \<Longrightarrow> f_mul (Finite 0) c = Finite 0"
  by (cases c) simp_all

lemma is_finite_neg: "is_finite (f_neg a) = is_finite a"
  by (cases a) simp_all

lemma align_window_neutral:
  assumes "2 \<le> length axis_grid" "axis_grid ! 1 - axis_grid ! 0 \<noteq> 0"
      and "length pu = length axis_grid" "length de = length axis_grid"
      and "length v_R = length axis_grid" "\<forall>x \<in> set v_R. is_finite x"
      and "cd = py_int ((w / 2) / (axis_grid ! 1 - axis_grid ! 0))"
      and "0 \<le> cd" "int (length axis_grid) div 2 + cd < int (length axis_grid)"
  shows "\<exists>md. align_window axis_grid pu de 0 v_R w = Inr (Finite 0, md)"
proof -
  let ?diff = "map2 f_sub (map Finite de) (map Finite pu)"
  let ?short = "map2 f_sub ?diff v_R"
  let ?mid = "int (length axis_grid) div 2"
  let ?tmppot = "map (\<lambda>i. ?short ! nat i) [?mid - cd..?mid + cd]"
  have d: "dft_difference de pu = Inr ?diff"
    using assms(3,4) by (simp add: dft_difference_def np_sub_same_length)
  have s: "short_range de pu v_R = Inr ?short"
    using assms(3,4,5) by (simp add: short_range_def d np_sub_same_length)
  have ls: "length ?short = length axis_grid" using assms(3,4,5) by simp
  have sw: "sampling_window axis_grid ?short w = Inr (?mid - cd, ?mid + cd + 1, ?tmppot)"
    by (rule sampling_window_returns[OF assms(1,2) ls assms(7,8,9)])
  have fin_short: "is_finite (?short ! k)" if "k < length axis_grid" for k
  proof -
    have "is_finite (v_R ! k)" using assms(5,6) that by simp
    then obtain r where "v_R ! k = Finite r" by (cases "v_R ! k") auto
    then show ?thesis using that assms(3,4,5) by (simp add: f_sub_def)
  qed
  have low: "0 \<le> ?mid - cd" using assms(9) by linarith
  have fin: "\<forall>x \<in> set ?tmppot. is_finite x"
  proof
    fix x assume "x \<in> set ?tmppot"
    then obtain i where i: "?mid - cd \<le> i" "i \<le> ?mid + cd" "x = ?short ! nat i" by auto
    then have "nat i < length axis_grid" using low assms(9) by linarith
    then show "is_finite x" unfolding i(3) by (rule fin_short)
  qed
  have ne: "?tmppot \<noteq> []" using assms(8) by simp
  have "is_finite (f_neg (np_mean ?tmppot))"
    using np_mean_is_finite[OF ne fin] by (simp add: is_finite_neg)
  then have z: "f_mul (Finite 0) (f_neg (np_mean ?tmppot)) = Finite 0" by (rule f_mul_zero_finite)
  show ?thesis unfolding align_window_def s sum.case sw prod.case d by (simp add: Let_def z)
qed

lemma build_v_G_zero_charge:
  assumes "even nx" "0 < nx" "d \<noteq> 0" "dg \<noteq> 0"
  shows "build_v_G nx 0 (Finite d) qm dg = Inr (replicate nx (Finite 0))"
proof -
  have dd: "Finite d \<noteq> Finite 0" using assms(3) by simp
  from build_v_G_nth[OF dd assms(2), of 0 qm dg] obtain v where v:
      "build_v_G nx 0 (Finite d) qm dg = Inr v" "length v = nx"
      "\<forall>k < nx. v ! k =
                 (if even nx \<and> k = nx div 2 then Finite 0
                  else if k = 0
                    then f_mul (f_div (Finite (4 * pi * (- 0))) (Finite d))
                           (Finite (rho_rec_limit0 qm))
                  else v_G_bin 0 (Finite d) qm (g_grid nx dg ! k * g_grid nx dg ! k))"
    by blast
  have "v ! k = Finite 0" if k: "k < nx" for k
  proof (cases "k = 0 \<or> k = nx div 2")
    case True
    then show ?thesis using v(3)[rule_format, OF k] assms(1,3) by auto
  next
    case False
    then have k1: "1 \<le> k" by simp
    have "g_grid nx dg ! k \<noteq> 0" by (rule g_grid_even_nonzero[OF assms(1) k k1 assms(4)])
    then have nz: "g_grid nx dg ! k * g_grid nx dg ! k \<noteq> 0" by simp
    show ?thesis using v(3)[rule_format, OF k] False
      by (simp add: v_G_bin_finite[OF assms(3) nz])
  qed
  then have "v = replicate nx (Finite 0)" using v(2) by (simp add: list_eq_iff_nth_eq)
  with v(1) show ?thesis by simp
qed

lemma fft_term_zero: "fft_term n (Finite 0) j k = (Finite 0, Finite 0)"
  by (simp add: fft_term_def)

lemma np_fft_zero: "np_fft (replicate n (Finite 0)) = replicate n (Finite 0, Finite 0)"
proof -
  have t: "f_sum (map (\<lambda>j. fst (fft_term n (replicate n (Finite 0) ! j) j k)) [0..<n]) = Finite 0"
      "f_sum (map (\<lambda>j. snd (fft_term n (replicate n (Finite 0) ! j) j k)) [0..<n]) = Finite 0"
    for k
    by (rule f_sum_zeros, simp add: fft_term_zero)+
  show ?thesis by (simp add: np_fft_def Let_def list_eq_iff_nth_eq t)
qed

lemma np_max_zeros: "0 < n \<Longrightarrow> np_max (replicate n (Finite 0)) = Finite 0"
proof -
  assume n: "0 < n"
  have ne: "replicate n (Finite 0) \<noteq> []" using n by simp
  have nn: "NaN \<notin> set (replicate n (Finite 0))" by simp
  from np_max_greatest[OF ne nn] show ?thesis by simp
qed

lemma real_space_potential_zero:
  assumes "0 < n" "0 \<le> mad_tol" "volume lat \<noteq> 0" "ang_to_bohr U \<noteq> 0"
  shows "real_space_potential U lat mad_tol (replicate n (Finite 0)) = Inr (replicate n (Finite 0))"
proof -
  have m: "map snd (replicate n (Finite 0, Finite 0)) = replicate n (Finite 0)" by simp
  show ?thesis
    unfolding real_space_potential_def np_fft_zero Let_def m np_max_zeros[OF assms(1)]
    using assms by (simp add: list_eq_iff_nth_eq np_cdiv_def)
qed

lemma py_get3_Inr:
  assumes "- 3 \<le> axis" "axis < 3"
  shows "\<exists>v. py_get3 t axis = Inr v"
  using assms by (cases t) (auto simp: py_get3_def py_get_def list3_def)

lemma well_formed_pot_inputD:
  assumes "well_formed_pot_input U axis_grid pureavg defavg lat coords axis mad_tol widthsample"
  shows "coords \<noteq> None" "- 3 \<le> axis" "axis < 3" "even (length axis_grid)"
    "2 \<le> length axis_grid" "length pureavg = length axis_grid"
    "length defavg = length axis_grid" "ang_to_bohr U \<noteq> 0"
    "volume lat \<noteq> 0" "0 \<le> mad_tol" "projr (py_get3 (reciprocal_abc lat) axis) \<noteq> 0"
    "axis_grid ! 1 - axis_grid ! 0 \<noteq> 0"
    "0 \<le> py_int ((widthsample / 2) / (axis_grid ! 1 - axis_grid ! 0))"
    "int (length axis_grid) div 2
           + py_int ((widthsample / 2) / (axis_grid ! 1 - axis_grid ! 0))
         < int (length axis_grid)"
  using assms by (simp_all add: well_formed_pot_input_def)

lemma pot_corr_zero_charge_returns:
  assumes "well_formed_pot_input U axis_grid pureavg defavg lat coords axis mad_tol widthsample"
      and "d \<noteq> 0"
  shows "\<exists>md. perform_pot_corr U axis_grid pureavg defavg lat 0 coords axis (Finite d) qm mad_tol
             widthsample = Inr (Finite 0, md)"
proof -
  note wf = well_formed_pot_inputD[OF assms(1)]
  from wf(1) obtain c where c: "coords = Some c" by auto
  note ax = wf(2) wf(3)
  from py_get3_Inr[OF ax, of c] obtain f where f: "py_get3 c axis = Inr f" ..
  from py_get3_Inr[OF ax, of "abc lat"] obtain len where len: "py_get3 (abc lat) axis = Inr len" ..
  from py_get3_Inr[OF ax, of "reciprocal_abc lat"]
  obtain r where r: "py_get3 (reciprocal_abc lat) axis = Inr r" ..
  have p: "defect_axis_position lat coords axis = Inr (wrap_axbulkval f len)"
    by (simp add: defect_axis_position_def c f len)
  have ne: "axis_grid \<noteq> []" using wf(5) by auto
  obtain pu de where sp: "shift_profiles (wrap_axbulkval f len) axis_grid pureavg defavg = Inr (pu, de)"
  proof (cases "wrap_axbulkval f len = 0")
    case True
    then show ?thesis using that by (simp add: shift_profiles_def)
  next
    case False
    obtain i where "roll_scan (wrap_axbulkval f len) axis_grid 0 = Some (0 + i)"
      using roll_scan_spec[OF ne, of "wrap_axbulkval f len" 0] by blast
    then show ?thesis using that False by (simp add: shift_profiles_def Let_def)
  qed
  have lp: "length pu = length axis_grid" "length de = length axis_grid"
    using shift_profiles_Inr[OF sp] wf(6) wf(7) by simp_all
  have rnz: "r \<noteq> 0" using wf(11) r by simp
  have dg: "reciprocal_step U lat axis = Inr (r / ang_to_bohr U)" "r / ang_to_bohr U \<noteq> 0"
    using wf(8) rnz by (simp_all add: reciprocal_step_def r)
  have pos: "0 < length axis_grid" using wf(5) by linarith
  have mp: "model_potential U (length axis_grid) lat 0 axis (Finite d) qm
            = Inr (replicate (length axis_grid) (Finite 0))"
    unfolding model_potential_def dg(1) sum.case
    by (rule build_v_G_zero_charge[OF wf(4) pos assms(2) dg(2)])
  have rs: "real_space_potential U lat mad_tol (replicate (length axis_grid) (Finite 0))
            = Inr (replicate (length axis_grid) (Finite 0))"
    by (rule real_space_potential_zero[OF pos wf(10) wf(9) wf(8)])
  have lr: "length (replicate (length axis_grid) (Finite 0)) = length axis_grid" by simp
  have fr: "\<forall>x \<in> set (replicate (length axis_grid) (Finite 0)). is_finite x" by simp
  have "\<exists>md. align_window axis_grid pu de 0 (replicate (length axis_grid) (Finite 0)) widthsample
          = Inr (Finite 0, md)"
    by (rule align_window_neutral[OF wf(5) wf(12) lp lr fr refl wf(13) wf(14)])
  then obtain md where aw:
    "align_window axis_grid pu de 0 (replicate (length axis_grid) (Finite 0)) widthsample
       = Inr (Finite 0, md)"
    by blast
  have all: "perform_pot_corr U axis_grid pureavg defavg lat 0 coords axis (Finite d) qm mad_tol
             widthsample = Inr (Finite 0, md)"
    unfolding perform_pot_corr_def align_shifted_def p sum.case sp prod.case mp rs by (rule aw)
  then show ?thesis by blast
qed

text \<open>
  For a defect of charge 0, \<open>perform_es_corr\<close> returns (the two loops of \<open>converge\<close>
  end); it returns 0 whenever the dielectric constant is a number other than zero, the
  cell volume is not zero and no generated reciprocal vector has the square 0. On
  every well-formed input, whose grid has an even length, \<open>perform_pot_corr\<close> returns
  the correction 0 for such a dielectric constant.
\<close>

theorem neutral_defect_even_grid:
  "perform_es_corr U lat 0 dielectric qm energy_cutoff mad_tol step \<noteq> None
   \<and> (d \<noteq> 0 \<and> bohr_volume U lat \<noteq> 0
        \<and> (\<forall>a1 a2 a3 encut. 0 \<notin> set (generate_reciprocal_vectors_squared U a1 a2 a3 encut))
       \<longrightarrow> perform_es_corr U lat 0 (Finite d) qm energy_cutoff mad_tol step = Some (Finite 0))
   \<and> (d \<noteq> 0
        \<and> well_formed_pot_input U axis_grid pureavg defavg lat coords axis mad_tol widthsample
       \<longrightarrow> (\<exists>md. perform_pot_corr U axis_grid pureavg defavg lat 0 coords axis (Finite d) qm
                   mad_tol widthsample = Inr (Finite 0, md)))"
proof (intro conjI impI)
  show "perform_es_corr U lat 0 dielectric qm energy_cutoff mad_tol step \<noteq> None"
    by (rule perform_es_corr_returns)
next
  assume "d \<noteq> 0 \<and> bohr_volume U lat \<noteq> 0
        \<and> (\<forall>a1 a2 a3 encut. 0 \<notin> set (generate_reciprocal_vectors_squared U a1 a2 a3 encut))"
  then show "perform_es_corr U lat 0 (Finite d) qm energy_cutoff mad_tol step = Some (Finite 0)"
    by (intro perform_es_corr_zero_charge_finite) auto
next
  assume "d \<noteq> 0
        \<and> well_formed_pot_input U axis_grid pureavg defavg lat coords axis mad_tol widthsample"
  then show "\<exists>md. perform_pot_corr U axis_grid pureavg defavg lat 0 coords axis (Finite d) qm
                   mad_tol widthsample = Inr (Finite 0, md)"
    using pot_corr_zero_charge_returns by blast
qed

lemma sample_bohr_volume: "bohr_volume sample_utils cubic10 \<noteq> 0"
  by (simp add: bohr_volume_def bohr_vectors_def scale3_def cross3_def dot3_def cubic10_def
      sample_utils_def)

lemma sample_well_formed:
  "well_formed_pot_input sample_utils [0, 5] [1, 2] [3, 5] cubic10 (Some (0, 0, 0)) 0
     (1 / 10000) 1"
  by (simp add: well_formed_pot_input_def sample_utils_def cubic10_def py_get3_def py_get_def
      list3_def py_int_def)

theorem neutral_defect_even_grid_witness:
  "perform_es_corr sample_utils cubic10 0 (Finite 10) gauss_model 520 (1 / 10000) (1 / 10000)
     = Some (Finite 0)
   \<and> (\<exists>md. perform_pot_corr sample_utils [0, 5] [1, 2] [3, 5] cubic10 0 (Some (0, 0, 0)) 0
              (Finite 10) gauss_model (1 / 10000) 1 = Inr (Finite 0, md))"
proof -
  have h: "(10::real) \<noteq> 0 \<and> bohr_volume sample_utils cubic10 \<noteq> 0
        \<and> (\<forall>a1 a2 a3 encut.
              0 \<notin> set (generate_reciprocal_vectors_squared sample_utils a1 a2 a3 encut))"
    using sample_bohr_volume by (simp add: sample_utils_def)
  note inst = neutral_defect_even_grid[of sample_utils cubic10 "Finite 10" gauss_model 520
      "1 / 10000" "1 / 10000" 10 "[0, 5]" "[1, 2]" "[3, 5]" "Some (0, 0, 0)" 0 1]
  from inst h have a: "perform_es_corr sample_utils cubic10 0 (Finite 10) gauss_model 520
      (1 / 10000) (1 / 10000) = Some (Finite 0)" by blast
  have w: "(10::real) \<noteq> 0
        \<and> well_formed_pot_input sample_utils [0, 5] [1, 2] [3, 5] cubic10 (Some (0, 0, 0)) 0
            (1 / 10000) 1"
    using sample_well_formed by simp
  from inst w
  have b: "\<exists>md. perform_pot_corr sample_utils [0, 5] [1, 2] [3, 5] cubic10 0 (Some (0, 0, 0)) 0
              (Finite 10) gauss_model (1 / 10000) 1 = Inr (Finite 0, md)" by blast
  from a b show ?thesis by blast
qed


lemma neutral_model_potential_odd:
  "model_potential sample_utils 3 cubic10 0 0 (Finite 10) gauss_model
   = Inr [Finite 0, Finite 0, NaN]"
  by (simp add: model_potential_def reciprocal_step_def py_get3_def py_get_def list3_def
      cubic10_def sample_utils_def build_v_G_def v_G_limit_def g_grid_3 v_G_bin_def
      gauss_model_def Let_def f_inf_def)

lemma neutral_fft_odd:
  "np_fft [Finite 0, Finite 0, NaN] = [(NaN, Finite 0), (NaN, NaN), (NaN, NaN)]"
  by (simp add: np_fft_def fft_term_def Let_def upt_conv_Cons)

lemma neutral_real_space_odd:
  "real_space_potential sample_utils cubic10 (1 / 10000) [Finite 0, Finite 0, NaN]
   = Inr [NaN, NaN, NaN]"
  by (simp add: real_space_potential_def neutral_fft_odd Let_def cubic10_def sample_utils_def
      np_max_def f_max_def np_cdiv_def)

lemma neutral_align_odd:
  "align_window [0, 10 / 3, 20 / 3] [1, 2, 3] [3, 5, 7] 0 [NaN, NaN, NaN] 1
   = Inr (NaN,
       \<lparr>plot_Vr = [NaN, NaN, NaN], plot_x = [0, 10 / 3, 20 / 3],
        plot_dft_diff = [Finite 2, Finite 3, Finite 4],
        plot_final_shift = [NaN, NaN, NaN], plot_check = (1, 2),
        stats_sample = [NaN], potcorr = NaN\<rparr>)"
  by (simp add: align_window_def short_range_def dft_difference_def np_sub_def f_sub_def
      sampling_window_def checkdis_of_def py_get_def py_int_def py_range_def np_mean_def Let_def
      upto_1_1 upt_conv_Cons)


text \<open>
  C1, on a grid of odd length. For a defect of charge 0 on the grid of three points
  \<open>0, 10/3, 20/3\<close> of a cell of 10 angstrom, line 268 leaves
  \<open>4 pi / (10 * 0) * -0 = nan\<close> in the last bin of \<open>v_G\<close>; the transform spreads it over every real part, the test of line 274
  compares \<open>nan\<close> with the tolerance and raises nothing, and \<open>perform_pot_corr\<close>
  returns the correction \<open>-0 * nan = nan\<close>, not 0.
\<close>

theorem neutral_defect_odd_grid_nan:
  "perform_pot_corr sample_utils [0, 10 / 3, 20 / 3] [1, 2, 3] [3, 5, 7] cubic10 0 (Some (0, 0, 0)) 0
     (Finite 10) gauss_model (1 / 10000) 1
   = Inr (NaN,
       \<lparr>plot_Vr = [NaN, NaN, NaN], plot_x = [0, 10 / 3, 20 / 3],
        plot_dft_diff = [Finite 2, Finite 3, Finite 4],
        plot_final_shift = [NaN, NaN, NaN], plot_check = (1, 2),
        stats_sample = [NaN], potcorr = NaN\<rparr>)"
proof -
  have h1: "defect_axis_position cubic10 (Some (0, 0, 0)) 0 = Inr 0"
    by (simp add: defect_axis_position_def py_get3_def py_get_def list3_def cubic10_def
        wrap_axbulkval_def)
  have h2: "shift_profiles 0 [0, 10 / 3, 20 / 3] [1, 2, 3] [3, 5, 7] = Inr ([1, 2, 3], [3, 5, 7])"
    by (simp add: shift_profiles_def)
  have len: "length [0, 10 / 3, 20 / 3 :: real] = 3" by simp
  show ?thesis
    unfolding perform_pot_corr_def align_shifted_def h1 len neutral_model_potential_odd
    by (simp only: sum.case h2 prod.case neutral_real_space_odd neutral_align_odd)
qed

section \<open>The calls of get_freysoldt_correction\<close>

lemma np_diag_square:
  assumes "m \<noteq> []" "\<forall>row \<in> set m. length row = length m"
  shows "np_diag m = map (\<lambda>i. m ! i ! i) [0..<length m]"
proof -
  have "hd m \<in> set m" using assms(1) by simp
  then have "length (hd m) = length m" using assms(2) by blast
  then show ?thesis by (simp add: np_diag_def)
qed

lemma np_mean_three: "np_mean [c0, c1, c2] = f_div (f_add c0 (f_add c1 c2)) (Finite 3)"
  by (simp add: np_mean_def f_add_zero)

lemma freysoldt_four_calls:
  "get_freysoldt_correction U q dielectric dl bl coords energy_cutoff mad_tol qm step
   = (case perform_es_corr U (structure_lattice dl) q (dielectric_scalar dielectric) qm
             energy_cutoff mad_tol step of
        None \<Rightarrow> None
      | Some es_corr \<Rightarrow>
     (case perform_pot_corr U (get_axis_grid dl 0) (get_average_along_axis bl 0)
             (get_average_along_axis dl 0) (structure_lattice dl) q coords 0
             (dielectric_scalar dielectric) qm mad_tol 1 of
        Inl e \<Rightarrow> Some ([Call_perform_es_corr, Call_perform_pot_corr 0], Inl e)
      | Inr (c0, md0) \<Rightarrow>
     (case perform_pot_corr U (get_axis_grid dl 1) (get_average_along_axis bl 1)
             (get_average_along_axis dl 1) (structure_lattice dl) q coords 1
             (dielectric_scalar dielectric) qm mad_tol 1 of
        Inl e \<Rightarrow> Some ([Call_perform_es_corr, Call_perform_pot_corr 0,
                         Call_perform_pot_corr 1], Inl e)
      | Inr (c1, md1) \<Rightarrow>
     (case perform_pot_corr U (get_axis_grid dl 2) (get_average_along_axis bl 2)
             (get_average_along_axis dl 2) (structure_lattice dl) q coords 2
             (dielectric_scalar dielectric) qm mad_tol 1 of
        Inl e \<Rightarrow> Some ([Call_perform_es_corr, Call_perform_pot_corr 0,
                         Call_perform_pot_corr 1, Call_perform_pot_corr 2], Inl e)
      | Inr (c2, md2) \<Rightarrow>
          Some ([Call_perform_es_corr, Call_perform_pot_corr 0, Call_perform_pot_corr 1,
                 Call_perform_pot_corr 2],
            Inr (\<lparr>freysoldt_electrostatic = es_corr,
                  freysoldt_potential_alignment = f_div (f_add c0 (f_add c1 c2)) (Finite 3)\<rparr>,
                 [(0, md0), (1, md1), (2, md2)]))))))"
  by (simp add: get_freysoldt_correction_def freysoldt_with_scalar_def Let_def np_mean_three
      split: option.splits sum.splits prod.splits)


lemma np_mean_finite:
  "xs \<noteq> [] \<Longrightarrow> np_mean (map Finite xs) = Finite (sum_list xs / real (length xs))"
  by (simp add: np_mean_def f_sum_finite)

text \<open>
  C7. The dielectric argument enters the computation only through one float: a scalar
  as it is, a tensor as the arithmetic mean of its diagonal entries (for a square
  matrix the entries \<open>m[i][i]\<close>). With that float \<open>eps\<close> as the dielectric constant
  \<open>get_freysoldt_correction\<close> calls \<open>perform_es_corr\<close> and, for the axes 0, 1, 2,
  \<open>perform_pot_corr\<close>, and its outcome is made of theirs.
\<close>

theorem dielectric_trace_average:
  "dielectric_scalar (Scalar s) = Finite s
   \<and> dielectric_scalar (Tensor m) = np_mean (map Finite (np_diag m))
   \<and> (np_diag m \<noteq> [] \<longrightarrow>
        dielectric_scalar (Tensor m) = Finite (sum_list (np_diag m) / real (length (np_diag m))))
   \<and> (m \<noteq> [] \<and> (\<forall>row \<in> set m. length row = length m) \<longrightarrow>
        dielectric_scalar (Tensor m) = Finite ((\<Sum>i\<leftarrow>[0..<length m]. m ! i ! i) / real (length m)))
   \<and> (let eps = dielectric_scalar dielectric; lat = structure_lattice dl
      in get_freysoldt_correction U q dielectric dl bl coords energy_cutoff mad_tol qm step
         = (case perform_es_corr U lat q eps qm energy_cutoff mad_tol step of
              None \<Rightarrow> None
            | Some es_corr \<Rightarrow>
           (case perform_pot_corr U (get_axis_grid dl 0) (get_average_along_axis bl 0)
                   (get_average_along_axis dl 0) lat q coords 0 eps qm mad_tol 1 of
              Inl e \<Rightarrow> Some ([Call_perform_es_corr, Call_perform_pot_corr 0], Inl e)
            | Inr (c0, md0) \<Rightarrow>
           (case perform_pot_corr U (get_axis_grid dl 1) (get_average_along_axis bl 1)
                   (get_average_along_axis dl 1) lat q coords 1 eps qm mad_tol 1 of
              Inl e \<Rightarrow> Some ([Call_perform_es_corr, Call_perform_pot_corr 0,
                               Call_perform_pot_corr 1], Inl e)
            | Inr (c1, md1) \<Rightarrow>
           (case perform_pot_corr U (get_axis_grid dl 2) (get_average_along_axis bl 2)
                   (get_average_along_axis dl 2) lat q coords 2 eps qm mad_tol 1 of
              Inl e \<Rightarrow> Some ([Call_perform_es_corr, Call_perform_pot_corr 0,
                               Call_perform_pot_corr 1, Call_perform_pot_corr 2], Inl e)
            | Inr (c2, md2) \<Rightarrow>
                Some ([Call_perform_es_corr, Call_perform_pot_corr 0, Call_perform_pot_corr 1,
                       Call_perform_pot_corr 2],
                  Inr (\<lparr>freysoldt_electrostatic = es_corr,
                        freysoldt_potential_alignment
                          = f_div (f_add c0 (f_add c1 c2)) (Finite 3)\<rparr>,
                       [(0, md0), (1, md1), (2, md2)])))))))"
proof -
  have a: "dielectric_scalar (Scalar s) = Finite s" by (simp add: dielectric_scalar_def)
  have b: "dielectric_scalar (Tensor m) = np_mean (map Finite (np_diag m))"
    by (simp add: dielectric_scalar_def)
  have c: "np_diag m \<noteq> [] \<longrightarrow>
        dielectric_scalar (Tensor m) = Finite (sum_list (np_diag m) / real (length (np_diag m)))"
    unfolding b by (simp add: np_mean_finite)
  have d: "m \<noteq> [] \<and> (\<forall>row \<in> set m. length row = length m) \<longrightarrow>
        dielectric_scalar (Tensor m) = Finite ((\<Sum>i\<leftarrow>[0..<length m]. m ! i ! i) / real (length m))"
  proof
    assume h: "m \<noteq> [] \<and> (\<forall>row \<in> set m. length row = length m)"
    then have dg: "np_diag m = map (\<lambda>i. m ! i ! i) [0..<length m]"
      by (intro np_diag_square) auto
    then have "np_diag m \<noteq> []" using h by simp
    with c show "dielectric_scalar (Tensor m)
        = Finite ((\<Sum>i\<leftarrow>[0..<length m]. m ! i ! i) / real (length m))"
      by (simp add: dg)
  qed
  from a b c d show ?thesis
    unfolding Let_def using freysoldt_four_calls[of U q dielectric dl bl coords energy_cutoff
        mad_tol qm step] by blast
qed


lemma sample_align_axis:
  "\<exists>md. align_window [0, 5] [1, 2] [3, d] 1 [Finite v, Finite v] 1
         = Inr (Finite (d - 2 - v), md)"
  by (simp add: align_window_def short_range_def dft_difference_def np_sub_def f_sub_def
      sampling_window_def checkdis_of_def py_get_def py_int_def py_range_def np_mean_def Let_def
      upto_1_1 upt_conv_Cons)

lemma sample_pot_corr_axis:
  assumes "a = 0 \<or> a = 1 \<or> a = 2"
  shows "\<exists>md. perform_pot_corr sample_utils [0, 5] [1, 2] [3, d] cubic10 1 (Some (0, 0, 0)) a
           (Finite 1) gauss_model (1 / 10000) 1 = Inr (Finite (d - 2 - sample_v), md)"
proof -
  have h1: "defect_axis_position cubic10 (Some (0, 0, 0)) a = Inr 0"
    using assms
    by (auto simp: defect_axis_position_def py_get3_def py_get_def list3_def cubic10_def
        wrap_axbulkval_def)
  have h2: "shift_profiles 0 [0, 5] [1, 2] [3, d] = Inr ([1, 2], [3, d])"
    by (simp add: shift_profiles_def)
  have h3: "model_potential sample_utils 2 cubic10 1 a (Finite 1) gauss_model
            = Inr [Finite pi, Finite 0]"
    using assms
    by (auto simp: model_potential_def reciprocal_step_def py_get3_def py_get_def list3_def
      cubic10_def sample_utils_def build_v_G_def v_G_limit_def g_grid_2 v_G_bin_def
      gauss_model_def Let_def)
  have len: "length [0, 5 :: real] = 2" by simp
  obtain md where md: "align_window [0, 5] [1, 2] [3, d] 1 [Finite sample_v, Finite sample_v] 1
      = Inr (Finite (d - 2 - sample_v), md)"
    using sample_align_axis[of d sample_v] by blast
  have "perform_pot_corr sample_utils [0, 5] [1, 2] [3, d] cubic10 1 (Some (0, 0, 0)) a
           (Finite 1) gauss_model (1 / 10000) 1 = Inr (Finite (d - 2 - sample_v), md)"
    unfolding perform_pot_corr_def align_shifted_def h1 len h3
    by (simp only: sum.case h2 prod.case sample_real_space md)
  then show ?thesis by blast
qed

lemma sample_freysoldt_value:
  assumes "dielectric_scalar dielectric = Finite 1"
  shows "\<exists>es md0 md1 md2.
     perform_es_corr sample_utils cubic10 1 (Finite 1) gauss_model 520 (1 / 10000) (1 / 10000)
       = Some es
     \<and> get_freysoldt_correction sample_utils 1 dielectric sample_defect_locpot
         sample_bulk_locpot (Some (0, 0, 0)) 520 (1 / 10000) gauss_model (1 / 10000)
       = Some ([Call_perform_es_corr, Call_perform_pot_corr 0, Call_perform_pot_corr 1,
                Call_perform_pot_corr 2],
           Inr (\<lparr>freysoldt_electrostatic = es,
                 freysoldt_potential_alignment = Finite (4 - sample_v)\<rparr>,
                [(0, md0), (1, md1), (2, md2)]))"
proof -
  obtain es where es: "perform_es_corr sample_utils cubic10 1 (Finite 1) gauss_model 520
      (1 / 10000) (1 / 10000) = Some es"
    using perform_es_corr_returns[of sample_utils cubic10 1 "Finite 1" gauss_model 520
        "1 / 10000" "1 / 10000"] by auto
  obtain md0 where p0: "perform_pot_corr sample_utils [0, 5] [1, 2] [3, 5] cubic10 1
      (Some (0, 0, 0)) 0 (Finite 1) gauss_model (1 / 10000) 1
      = Inr (Finite (5 - 2 - sample_v), md0)"
    using sample_pot_corr_axis[of 0 5] by auto
  obtain md1 where p1: "perform_pot_corr sample_utils [0, 5] [1, 2] [3, 6] cubic10 1
      (Some (0, 0, 0)) 1 (Finite 1) gauss_model (1 / 10000) 1
      = Inr (Finite (6 - 2 - sample_v), md1)"
    using sample_pot_corr_axis[of 1 6] by auto
  obtain md2 where p2: "perform_pot_corr sample_utils [0, 5] [1, 2] [3, 7] cubic10 1
      (Some (0, 0, 0)) 2 (Finite 1) gauss_model (1 / 10000) 1
      = Inr (Finite (7 - 2 - sample_v), md2)"
    using sample_pot_corr_axis[of 2 7] by auto
  have "get_freysoldt_correction sample_utils 1 dielectric sample_defect_locpot
         sample_bulk_locpot (Some (0, 0, 0)) 520 (1 / 10000) gauss_model (1 / 10000)
       = Some ([Call_perform_es_corr, Call_perform_pot_corr 0, Call_perform_pot_corr 1,
                Call_perform_pot_corr 2],
           Inr (\<lparr>freysoldt_electrostatic = es,
                 freysoldt_potential_alignment = Finite (4 - sample_v)\<rparr>,
                [(0, md0), (1, md1), (2, md2)]))"
    by (simp add: freysoldt_four_calls assms sample_defect_locpot_def sample_bulk_locpot_def
        es p0 p1 p2)
  with es show ?thesis by blast
qed

theorem dielectric_trace_average_witness:
  "dielectric_scalar (Tensor [[1 / 2, 7, 0], [3, 1, 0], [0, 0, 3 / 2]]) = Finite 1
   \<and> (\<exists>es md0 md1 md2.
        perform_es_corr sample_utils cubic10 1 (Finite 1) gauss_model 520 (1 / 10000)
          (1 / 10000) = Some es
      \<and> perform_pot_corr sample_utils [0, 5] [1, 2] [3, 5] cubic10 1 (Some (0, 0, 0)) 0
          (Finite 1) gauss_model (1 / 10000) 1 = Inr (Finite (3 - sample_v), md0)
      \<and> perform_pot_corr sample_utils [0, 5] [1, 2] [3, 6] cubic10 1 (Some (0, 0, 0)) 1
          (Finite 1) gauss_model (1 / 10000) 1 = Inr (Finite (4 - sample_v), md1)
      \<and> perform_pot_corr sample_utils [0, 5] [1, 2] [3, 7] cubic10 1 (Some (0, 0, 0)) 2
          (Finite 1) gauss_model (1 / 10000) 1 = Inr (Finite (5 - sample_v), md2)
      \<and> get_freysoldt_correction sample_utils 1
          (Tensor [[1 / 2, 7, 0], [3, 1, 0], [0, 0, 3 / 2]]) sample_defect_locpot
          sample_bulk_locpot (Some (0, 0, 0)) 520 (1 / 10000) gauss_model (1 / 10000)
        = Some ([Call_perform_es_corr, Call_perform_pot_corr 0, Call_perform_pot_corr 1,
                 Call_perform_pot_corr 2],
            Inr (\<lparr>freysoldt_electrostatic = es,
                  freysoldt_potential_alignment = Finite (4 - sample_v)\<rparr>,
                 [(0, md0), (1, md1), (2, md2)])))"
proof -
  let ?m = "[[1 / 2, 7, 0], [3, 1, 0], [0, 0, 3 / 2 :: real]]"
  note inst = dielectric_trace_average[of _ ?m "Tensor ?m" sample_defect_locpot sample_utils 1
      sample_bulk_locpot "Some (0, 0, 0)" 520 "1 / 10000" gauss_model "1 / 10000"]
  have h: "?m \<noteq> [] \<and> (\<forall>row \<in> set ?m. length row = length ?m)" by simp
  have v: "(\<Sum>i\<leftarrow>[0..<length ?m]. ?m ! i ! i) / real (length ?m) = 1"
    by (simp add: upt_conv_Cons)
  from inst[THEN conjunct2, THEN conjunct2, THEN conjunct2, THEN conjunct1] h
  have eps: "dielectric_scalar (Tensor ?m) = Finite 1" unfolding v by blast
  obtain es where es: "perform_es_corr sample_utils cubic10 1 (Finite 1) gauss_model 520
      (1 / 10000) (1 / 10000) = Some es"
    using perform_es_corr_returns[of sample_utils cubic10 1 "Finite 1" gauss_model 520
        "1 / 10000" "1 / 10000"] by auto
  obtain md0 where p0: "perform_pot_corr sample_utils [0, 5] [1, 2] [3, 5] cubic10 1
      (Some (0, 0, 0)) 0 (Finite 1) gauss_model (1 / 10000) 1
      = Inr (Finite (3 - sample_v), md0)"
    using sample_pot_corr_axis[of 0 5] by auto
  obtain md1 where p1: "perform_pot_corr sample_utils [0, 5] [1, 2] [3, 6] cubic10 1
      (Some (0, 0, 0)) 1 (Finite 1) gauss_model (1 / 10000) 1
      = Inr (Finite (4 - sample_v), md1)"
    using sample_pot_corr_axis[of 1 6] by auto
  obtain md2 where p2: "perform_pot_corr sample_utils [0, 5] [1, 2] [3, 7] cubic10 1
      (Some (0, 0, 0)) 2 (Finite 1) gauss_model (1 / 10000) 1
      = Inr (Finite (5 - sample_v), md2)"
    using sample_pot_corr_axis[of 2 7] by auto
  from inst[THEN conjunct2, THEN conjunct2, THEN conjunct2, THEN conjunct2]
  have r: "get_freysoldt_correction sample_utils 1 (Tensor ?m) sample_defect_locpot
          sample_bulk_locpot (Some (0, 0, 0)) 520 (1 / 10000) gauss_model (1 / 10000)
        = Some ([Call_perform_es_corr, Call_perform_pot_corr 0, Call_perform_pot_corr 1,
                 Call_perform_pot_corr 2],
            Inr (\<lparr>freysoldt_electrostatic = es,
                  freysoldt_potential_alignment = Finite (4 - sample_v)\<rparr>,
                 [(0, md0), (1, md1), (2, md2)]))"
    unfolding Let_def eps
    by (simp add: sample_defect_locpot_def sample_bulk_locpot_def es p0 p1 p2)
  from eps es p0 p1 p2 r show ?thesis by blast
qed

text \<open>
  C6. When \<open>get_freysoldt_correction\<close> returns its result, it has called
  \<open>perform_es_corr\<close> once, then \<open>perform_pot_corr\<close> once for each of the axes 0, 1
  and 2 (on that axis's grid and planar averages); the electrostatic term is what the
  first call returned and the potential-alignment term is the arithmetic mean of the
  three corrections.
\<close>

theorem freysoldt_calls_and_mean:
  assumes "get_freysoldt_correction U q dielectric dl bl coords energy_cutoff mad_tol qm step
           = Some (calls, Inr (fc, plot_data))"
  shows "calls = [Call_perform_es_corr, Call_perform_pot_corr 0, Call_perform_pot_corr 1,
                  Call_perform_pot_corr 2]
     \<and> (\<exists>eps c0 c1 c2 md0 md1 md2.
           dielectric_scalar dielectric = eps
         \<and> perform_es_corr U (structure_lattice dl) q eps qm energy_cutoff mad_tol step
             = Some (freysoldt_electrostatic fc)
         \<and> perform_pot_corr U (get_axis_grid dl 0) (get_average_along_axis bl 0)
             (get_average_along_axis dl 0) (structure_lattice dl) q coords 0 eps qm mad_tol 1
             = Inr (c0, md0)
         \<and> perform_pot_corr U (get_axis_grid dl 1) (get_average_along_axis bl 1)
             (get_average_along_axis dl 1) (structure_lattice dl) q coords 1 eps qm mad_tol 1
             = Inr (c1, md1)
         \<and> perform_pot_corr U (get_axis_grid dl 2) (get_average_along_axis bl 2)
             (get_average_along_axis dl 2) (structure_lattice dl) q coords 2 eps qm mad_tol 1
             = Inr (c2, md2)
         \<and> freysoldt_potential_alignment fc = f_div (f_add c0 (f_add c1 c2)) (Finite 3)
         \<and> plot_data = [(0, md0), (1, md1), (2, md2)])"
proof -
  let ?lat = "structure_lattice dl"
  let ?eps = "dielectric_scalar dielectric"
  note u = assms[unfolded freysoldt_four_calls]
  from u obtain es where es: "perform_es_corr U ?lat q ?eps qm energy_cutoff mad_tol step = Some es"
    by (auto split: option.splits)
  from u obtain c0 md0 where p0: "perform_pot_corr U (get_axis_grid dl 0)
      (get_average_along_axis bl 0) (get_average_along_axis dl 0) ?lat q coords 0 ?eps qm
      mad_tol 1 = Inr (c0, md0)"
    unfolding es by (auto split: sum.splits)
  from u obtain c1 md1 where p1: "perform_pot_corr U (get_axis_grid dl 1)
      (get_average_along_axis bl 1) (get_average_along_axis dl 1) ?lat q coords 1 ?eps qm
      mad_tol 1 = Inr (c1, md1)"
    unfolding es p0 by (auto split: sum.splits)
  from u obtain c2 md2 where p2: "perform_pot_corr U (get_axis_grid dl 2)
      (get_average_along_axis bl 2) (get_average_along_axis dl 2) ?lat q coords 2 ?eps qm
      mad_tol 1 = Inr (c2, md2)"
    unfolding es p0 p1 by (auto split: sum.splits)
  from u have r: "calls = [Call_perform_es_corr, Call_perform_pot_corr 0,
        Call_perform_pot_corr 1, Call_perform_pot_corr 2]"
      "fc = \<lparr>freysoldt_electrostatic = es,
              freysoldt_potential_alignment = f_div (f_add c0 (f_add c1 c2)) (Finite 3)\<rparr>"
      "plot_data = [(0, md0), (1, md1), (2, md2)]"
    unfolding es p0 p1 p2 by simp_all
  have e: "perform_es_corr U ?lat q ?eps qm energy_cutoff mad_tol step
             = Some (freysoldt_electrostatic fc)"
    unfolding es r(2) by simp
  have m: "freysoldt_potential_alignment fc = f_div (f_add c0 (f_add c1 c2)) (Finite 3)"
    unfolding r(2) by simp
  from e p0 p1 p2 m r(3) have "\<exists>eps c0 c1 c2 md0 md1 md2.
           dielectric_scalar dielectric = eps
         \<and> perform_es_corr U (structure_lattice dl) q eps qm energy_cutoff mad_tol step
             = Some (freysoldt_electrostatic fc)
         \<and> perform_pot_corr U (get_axis_grid dl 0) (get_average_along_axis bl 0)
             (get_average_along_axis dl 0) (structure_lattice dl) q coords 0 eps qm mad_tol 1
             = Inr (c0, md0)
         \<and> perform_pot_corr U (get_axis_grid dl 1) (get_average_along_axis bl 1)
             (get_average_along_axis dl 1) (structure_lattice dl) q coords 1 eps qm mad_tol 1
             = Inr (c1, md1)
         \<and> perform_pot_corr U (get_axis_grid dl 2) (get_average_along_axis bl 2)
             (get_average_along_axis dl 2) (structure_lattice dl) q coords 2 eps qm mad_tol 1
             = Inr (c2, md2)
         \<and> freysoldt_potential_alignment fc = f_div (f_add c0 (f_add c1 c2)) (Finite 3)
         \<and> plot_data = [(0, md0), (1, md1), (2, md2)]"
    by blast
  with r(1) show ?thesis by (rule conjI)
qed

theorem freysoldt_calls_and_mean_witness:
  "\<exists>calls fc plot_data.
     get_freysoldt_correction sample_utils 1 (Scalar 1) sample_defect_locpot sample_bulk_locpot
       (Some (0, 0, 0)) 520 (1 / 10000) gauss_model (1 / 10000)
     = Some (calls, Inr (fc, plot_data))
     \<and> calls = [Call_perform_es_corr, Call_perform_pot_corr 0, Call_perform_pot_corr 1,
                 Call_perform_pot_corr 2]
     \<and> freysoldt_potential_alignment fc = Finite (4 - sample_v)"
proof -
  have d: "dielectric_scalar (Scalar 1) = Finite 1" by (simp add: dielectric_scalar_def)
  from sample_freysoldt_value[OF d] obtain calls fc plot_data where r:
    "get_freysoldt_correction sample_utils 1 (Scalar 1) sample_defect_locpot sample_bulk_locpot
       (Some (0, 0, 0)) 520 (1 / 10000) gauss_model (1 / 10000)
     = Some (calls, Inr (fc, plot_data))"
    by blast
  from freysoldt_calls_and_mean[OF r] obtain eps c0 c1 c2 md0 md1 md2 where
      c: "calls = [Call_perform_es_corr, Call_perform_pot_corr 0, Call_perform_pot_corr 1,
                  Call_perform_pot_corr 2]"
      and eps: "dielectric_scalar (Scalar 1) = eps"
      and p0: "perform_pot_corr sample_utils (get_axis_grid sample_defect_locpot 0)
             (get_average_along_axis sample_bulk_locpot 0)
             (get_average_along_axis sample_defect_locpot 0)
             (structure_lattice sample_defect_locpot) 1 (Some (0, 0, 0)) 0 eps gauss_model
             (1 / 10000) 1 = Inr (c0, md0)"
      and p1: "perform_pot_corr sample_utils (get_axis_grid sample_defect_locpot 1)
             (get_average_along_axis sample_bulk_locpot 1)
             (get_average_along_axis sample_defect_locpot 1)
             (structure_lattice sample_defect_locpot) 1 (Some (0, 0, 0)) 1 eps gauss_model
             (1 / 10000) 1 = Inr (c1, md1)"
      and p2: "perform_pot_corr sample_utils (get_axis_grid sample_defect_locpot 2)
             (get_average_along_axis sample_bulk_locpot 2)
             (get_average_along_axis sample_defect_locpot 2)
             (structure_lattice sample_defect_locpot) 1 (Some (0, 0, 0)) 2 eps gauss_model
             (1 / 10000) 1 = Inr (c2, md2)"
      and m: "freysoldt_potential_alignment fc = f_div (f_add c0 (f_add c1 c2)) (Finite 3)"
    by blast
  from eps d have e1: "eps = Finite 1" by simp
  have v0: "c0 = Finite (3 - sample_v)"
    using p0 sample_pot_corr_axis[of 0 5]
    by (auto simp: e1 sample_defect_locpot_def sample_bulk_locpot_def)
  have v1: "c1 = Finite (4 - sample_v)"
    using p1 sample_pot_corr_axis[of 1 6]
    by (auto simp: e1 sample_defect_locpot_def sample_bulk_locpot_def)
  have v2: "c2 = Finite (5 - sample_v)"
    using p2 sample_pot_corr_axis[of 2 7]
    by (auto simp: e1 sample_defect_locpot_def sample_bulk_locpot_def)
  have "freysoldt_potential_alignment fc = Finite (4 - sample_v)"
    unfolding m v0 v1 v2 by simp
  with r c show ?thesis by blast
qed

section \<open>The inputs of the corrections are not written to\<close>

lemma unchanged_below_refl: "n \<le> next_addr st \<Longrightarrow> unchanged_below n st st"
  by (simp add: unchanged_below_def)

lemma unchanged_below_trans:
  "unchanged_below n st st1 \<Longrightarrow> unchanged_below n st1 st2 \<Longrightarrow> unchanged_below n st st2"
  by (auto simp: unchanged_below_def)

lemma unchanged_below_alloc:
  "alloc v st = (a, st') \<Longrightarrow> n \<le> next_addr st \<Longrightarrow> unchanged_below n st st'"
  by (auto simp: alloc_def unchanged_below_def)

lemma alloc_addr: "alloc v st = (a, st') \<Longrightarrow> a = next_addr st \<and> next_addr st' = Suc a \<and> mem st' a = Some v"
  by (auto simp: alloc_def)

lemma unchanged_below_write:
  "n \<le> a \<Longrightarrow> n \<le> next_addr st \<Longrightarrow> unchanged_below n st (write_obj a v st)"
  by (auto simp: write_obj_def unchanged_below_def)

lemma unchanged_below_next: "unchanged_below n st st' \<Longrightarrow> n \<le> next_addr st'"
  by (auto simp: unchanged_below_def)

lemma shift_profiles_st_frame:
  assumes "shift_profiles_st p axis_grid pureavg defavg st = (st', r)" "n \<le> next_addr st"
  shows "unchanged_below n st st'"
proof -
  have "unchanged_below n st (fst (shift_profiles_st p axis_grid pureavg defavg st))"
    using assms(2)
    by (auto simp: shift_profiles_st_def alloc_def unchanged_below_def
        split: sum.splits prod.splits)
  with assms(1) show ?thesis by simp
qed

lemma model_potential_st_frame:
  assumes "model_potential_st U nx lat q axis dielectric qm st = (st', r)" "n \<le> next_addr st"
  shows "unchanged_below n st st'"
proof -
  have "unchanged_below n st (fst (model_potential_st U nx lat q axis dielectric qm st))"
    using assms(2)
    by (auto simp: model_potential_st_def alloc_def write_obj_def unchanged_below_def
        split: sum.splits prod.splits)
  with assms(1) show ?thesis by simp
qed

lemma real_space_potential_st_frame:
  assumes "real_space_potential_st U lat mad_tol v_G st = (st', r)" "n \<le> next_addr st"
  shows "unchanged_below n st st'"
proof -
  have "unchanged_below n st (fst (real_space_potential_st U lat mad_tol v_G st))"
    using assms(2)
    by (auto simp: real_space_potential_st_def alloc_def write_obj_def unchanged_below_def Let_def
        split: sum.splits prod.splits)
  with assms(1) show ?thesis by simp
qed

lemma align_window_st_frame:
  assumes "align_window_st axis_grid pureavg defavg q v_R w st = (st', r)" "n \<le> next_addr st"
  shows "unchanged_below n st st'"
proof -
  have "unchanged_below n st (fst (align_window_st axis_grid pureavg defavg q v_R w st))"
    using assms(2)
    by (auto simp: align_window_st_def alloc_def unchanged_below_def
        split: sum.splits prod.splits)
  with assms(1) show ?thesis by simp
qed

lemma perform_pot_corr_st_frame:
  assumes "perform_pot_corr_st U axis_grid pureavg defavg lattice_ref q coords axis dielectric qm
             mad_tol w st = (st', r)"
      and "n \<le> next_addr st"
  shows "unchanged_below n st st'"
proof -
  let ?lat = "lattice_at st lattice_ref"
  show ?thesis
  proof (cases "defect_axis_position ?lat coords axis")
    case (Inl e)
    then have "st' = st" using assms(1) by (simp add: perform_pot_corr_st_def)
    then show ?thesis using assms(2) by (simp add: unchanged_below_refl)
  next
    case (Inr p)
    obtain st1 r1 where s1: "shift_profiles_st p axis_grid pureavg defavg st = (st1, r1)"
      by (cases "shift_profiles_st p axis_grid pureavg defavg st") auto
    note f1 = shift_profiles_st_frame[OF s1 assms(2)]
    show ?thesis
    proof (cases r1)
      case (Inl e)
      then have "st' = st1" using assms(1) Inr s1 by (simp add: perform_pot_corr_st_def)
      then show ?thesis using f1 by simp
    next
      case r1: (Inr pd)
      obtain pu de where pd: "pd = (pu, de)" by (cases pd) auto
      obtain st2 r2 where s2: "model_potential_st U (length (floats_at st1 axis_grid)) ?lat q axis
          dielectric qm st1 = (st2, r2)"
        by (cases "model_potential_st U (length (floats_at st1 axis_grid)) ?lat q axis
          dielectric qm st1") auto
      note f2 = unchanged_below_trans[OF f1
          model_potential_st_frame[OF s2 unchanged_below_next[OF f1]]]
      show ?thesis
      proof (cases r2)
        case (Inl e)
        then have "st' = st2" using assms(1) Inr s1 r1 pd s2
          by (simp add: perform_pot_corr_st_def)
        then show ?thesis using f2 by simp
      next
        case r2: (Inr v_G)
        obtain st3 r3 where s3: "real_space_potential_st U ?lat mad_tol v_G st2 = (st3, r3)"
          by (cases "real_space_potential_st U ?lat mad_tol v_G st2") auto
        note f3 = unchanged_below_trans[OF f2
            real_space_potential_st_frame[OF s3 unchanged_below_next[OF f2]]]
        show ?thesis
        proof (cases r3)
          case (Inl e)
          then have "st' = st3" using assms(1) Inr s1 r1 pd s2 r2 s3
            by (simp add: perform_pot_corr_st_def)
          then show ?thesis using f3 by simp
        next
          case r3: (Inr v_R)
          have "align_window_st axis_grid pu de q v_R w st3 = (st', r)"
            using assms(1) Inr s1 r1 pd s2 r2 s3 r3 by (simp add: perform_pot_corr_st_def)
          from unchanged_below_trans[OF f3
              align_window_st_frame[OF this unchanged_below_next[OF f3]]]
          show ?thesis .
        qed
      qed
    qed
  qed
qed


lemma unchanged_below_floats:
  "unchanged_below n st st' \<Longrightarrow> a < n \<Longrightarrow> floats_at st' a = floats_at st a"
  by (simp add: unchanged_below_def floats_at_def)

lemma unchanged_below_lattice:
  "unchanged_below n st st' \<Longrightarrow> a < n \<Longrightarrow> lattice_at st' a = lattice_at st a"
  by (simp add: unchanged_below_def lattice_at_def)

lemma unchanged_below_locpot:
  "unchanged_below n st st' \<Longrightarrow> a < n \<Longrightarrow> locpot_at st' a = locpot_at st a"
  by (simp add: unchanged_below_def locpot_at_def)

lemma unchanged_below_weaken:
  "unchanged_below n st st' \<Longrightarrow> m \<le> n \<Longrightarrow> unchanged_below m st st'"
  by (auto simp: unchanged_below_def)

lemma shift_profiles_st_result:
  assumes "shift_profiles_st p g pu de st = (st1, r1)"
      and "pu < next_addr st" "de < next_addr st"
  shows "case shift_profiles p (floats_at st g) (floats_at st pu) (floats_at st de) of
           Inl e \<Rightarrow> r1 = Inl e
         | Inr (a, b) \<Rightarrow>
             \<exists>pu' de'. r1 = Inr (pu', de') \<and> pu' < next_addr st1 \<and> de' < next_addr st1
               \<and> floats_at st1 pu' = a \<and> floats_at st1 de' = b"
proof (cases "p = 0")
  case True
  then have "shift_profiles p (floats_at st g) (floats_at st pu) (floats_at st de)
             = Inr (floats_at st pu, floats_at st de)"
    by (simp add: shift_profiles_def)
  moreover from this True assms(1) have "st1 = st" "r1 = Inr (pu, de)"
    by (simp_all add: shift_profiles_st_def)
  ultimately show ?thesis using assms(2,3) by auto
next
  case False
  then show ?thesis using assms(1)
    by (auto simp: shift_profiles_st_def alloc_def floats_at_def
        split: sum.splits prod.splits)
qed

lemma model_potential_st_result:
  assumes "model_potential_st U nx lat q axis dielectric qm st = (st2, r2)"
  shows "case model_potential U nx lat q axis dielectric qm of
           Inl e \<Rightarrow> r2 = Inl e
         | Inr v \<Rightarrow> \<exists>v_G. r2 = Inr v_G \<and> complexes_at st2 v_G = map (\<lambda>x. (x, Finite 0)) v"
  using assms
  by (auto simp: model_potential_st_def model_potential_def alloc_def write_obj_def
      complexes_at_def split: sum.splits prod.splits)

lemma real_space_potential_st_result:
  assumes "real_space_potential_st U lat mad_tol v_G st = (st3, r3)"
      and "complexes_at st v_G = map (\<lambda>x. (x, Finite 0)) v"
  shows "case real_space_potential U lat mad_tol v of
           Inl e \<Rightarrow> r3 = Inl e
         | Inr x \<Rightarrow> \<exists>v_R. r3 = Inr v_R \<and> v_R < next_addr st3 \<and> ext_floats_at st3 v_R = x"
proof -
  have m: "map fst (map (\<lambda>x. (x, Finite 0)) v) = v" by (simp add: comp_def)
  show ?thesis
    using assms(1) unfolding real_space_potential_st_def real_space_potential_def assms(2) m
    by (auto simp: alloc_def write_obj_def complexes_at_def ext_floats_at_def Let_def comp_def
        split: sum.splits prod.splits if_splits)
qed

lemma align_window_st_result:
  "snd (align_window_st g pu de q v_R w st)
   = (case align_window (floats_at st g) (floats_at st pu) (floats_at st de) q (ext_floats_at st v_R) w of
        Inl e \<Rightarrow> Inl e
      | Inr (pot_corr, md) \<Rightarrow> Inr (pot_corr, md, g))"
  by (auto simp: align_window_st_def alloc_def split: sum.splits prod.splits)


lemma perform_pot_corr_st_result:
  assumes "axis_grid < next_addr st" "pureavg < next_addr st" "defavg < next_addr st"
  shows "snd (perform_pot_corr_st U axis_grid pureavg defavg lattice_ref q coords axis dielectric
               qm mad_tol w st)
         = (case perform_pot_corr U (floats_at st axis_grid) (floats_at st pureavg)
                  (floats_at st defavg) (lattice_at st lattice_ref) q coords axis dielectric qm
                  mad_tol w of
              Inl e \<Rightarrow> Inl e
            | Inr (pot_corr, md) \<Rightarrow> Inr (pot_corr, md, axis_grid))"
proof -
  let ?lat = "lattice_at st lattice_ref"
  let ?g = "floats_at st axis_grid"
  show ?thesis
  proof (cases "defect_axis_position ?lat coords axis")
    case (Inl e)
    then show ?thesis by (simp add: perform_pot_corr_st_def perform_pot_corr_def align_shifted_def)
  next
    case (Inr p)
    obtain st1 r1 where s1: "shift_profiles_st p axis_grid pureavg defavg st = (st1, r1)"
      by (cases "shift_profiles_st p axis_grid pureavg defavg st") auto
    note f1 = shift_profiles_st_frame[OF s1 order_refl]
    note c1 = shift_profiles_st_result[OF s1 assms(2,3)]
    have g1: "floats_at st1 axis_grid = ?g"
      by (rule unchanged_below_floats[OF f1 assms(1)])
    show ?thesis
    proof (cases "shift_profiles p ?g (floats_at st pureavg) (floats_at st defavg)")
      case (Inl e)
      with c1 have "r1 = Inl e" by simp
      then show ?thesis using Inr Inl s1
        by (simp add: perform_pot_corr_st_def perform_pot_corr_def align_shifted_def)
    next
      case sp: (Inr ab)
      obtain a b where ab: "ab = (a, b)" by (cases ab) auto
      from c1 sp ab obtain pu' de' where r1: "r1 = Inr (pu', de')"
          and v1: "pu' < next_addr st1" "de' < next_addr st1"
             "floats_at st1 pu' = a" "floats_at st1 de' = b"
        by auto
      obtain st2 r2 where s2: "model_potential_st U (length ?g) ?lat q axis dielectric qm st1
          = (st2, r2)"
        by (cases "model_potential_st U (length ?g) ?lat q axis dielectric qm st1") auto
      note f2 = model_potential_st_frame[OF s2 order_refl]
      note c2 = model_potential_st_result[OF s2]
      show ?thesis
      proof (cases "model_potential U (length ?g) ?lat q axis dielectric qm")
        case (Inl e)
        with c2 have "r2 = Inl e" by simp
        then show ?thesis using Inr sp ab s1 r1 s2 g1 Inl
          by (simp add: perform_pot_corr_st_def perform_pot_corr_def align_shifted_def)
      next
        case mp: (Inr v)
        from c2 mp obtain v_G where r2: "r2 = Inr v_G"
            and v2: "complexes_at st2 v_G = map (\<lambda>x. (x, Finite 0)) v" by auto
        obtain st3 r3 where s3: "real_space_potential_st U ?lat mad_tol v_G st2 = (st3, r3)"
          by (cases "real_space_potential_st U ?lat mad_tol v_G st2") auto
        note f3 = real_space_potential_st_frame[OF s3 order_refl]
        note c3 = real_space_potential_st_result[OF s3 v2]
        show ?thesis
        proof (cases "real_space_potential U ?lat mad_tol v")
          case (Inl e)
          with c3 have "r3 = Inl e" by simp
          then show ?thesis using Inr sp ab s1 r1 s2 g1 mp r2 s3 Inl
            by (simp add: perform_pot_corr_st_def perform_pot_corr_def align_shifted_def)
        next
          case rs: (Inr x)
          from c3 rs obtain v_R where r3: "r3 = Inr v_R"
              and v3: "ext_floats_at st3 v_R = x" by auto
          have f13: "unchanged_below (next_addr st1) st1 st3"
            by (rule unchanged_below_trans[OF f2
                  unchanged_below_weaken[OF f3 unchanged_below_next[OF f2, THEN order_trans]]])
              (simp add: unchanged_below_def)
          have g3: "floats_at st3 axis_grid = ?g"
          proof -
            have "axis_grid < next_addr st1" using f1 assms(1) by (auto simp: unchanged_below_def)
            from unchanged_below_floats[OF f13 this] g1 show ?thesis by simp
          qed
          have p3: "floats_at st3 pu' = a" "floats_at st3 de' = b"
            using unchanged_below_floats[OF f13 v1(1)] unchanged_below_floats[OF f13 v1(2)] v1(3,4)
            by simp_all
          have "perform_pot_corr_st U axis_grid pureavg defavg lattice_ref q coords axis dielectric
               qm mad_tol w st = align_window_st axis_grid pu' de' q v_R w st3"
            using Inr s1 r1 s2 g1 r2 s3 r3 by (simp add: perform_pot_corr_st_def)
          moreover have "perform_pot_corr U ?g (floats_at st pureavg) (floats_at st defavg) ?lat q
                  coords axis dielectric qm mad_tol w = align_window ?g a b q x w"
            using Inr sp ab mp rs by (simp add: perform_pot_corr_def align_shifted_def)
          ultimately show ?thesis
            by (simp add: align_window_st_result g3 p3 v3)
        qed
      qed
    qed
  qed
qed


lemma perform_es_corr_st_frame:
  assumes "perform_es_corr_st U lattice_ref q dielectric qm energy_cutoff mad_tol step st
           = Some (st', r)" "n \<le> next_addr st"
  shows "unchanged_below n st st'"
  using assms
  by (auto simp: perform_es_corr_st_def alloc_def unchanged_below_def Let_def
      split: prod.splits option.splits)

lemma perform_es_corr_st_result:
  "map_option snd (perform_es_corr_st U lattice_ref q dielectric qm energy_cutoff mad_tol step st)
   = perform_es_corr U (lattice_at st lattice_ref) q dielectric qm energy_cutoff mad_tol step"
  by (auto simp: perform_es_corr_st_def Let_def split: prod.splits option.splits)

lemma alloc_all_frame:
  "alloc_all xss st = (as, st') \<Longrightarrow> n \<le> next_addr st \<Longrightarrow> unchanged_below n st st'"
proof (induction xss arbitrary: st as st')
  case Nil
  then show ?case by (simp add: unchanged_below_refl)
next
  case (Cons xs xss)
  obtain a st1 where a: "alloc (Floats xs) st = (a, st1)" by (cases "alloc (Floats xs) st") auto
  obtain bs st2 where b: "alloc_all xss st1 = (bs, st2)" by (cases "alloc_all xss st1") auto
  from Cons.prems(1) a b have e: "st' = st2" by simp
  note f1 = unchanged_below_alloc[OF a Cons.prems(2)]
  from unchanged_below_trans[OF f1 Cons.IH[OF b unchanged_below_next[OF f1]]] e
  show ?case by simp
qed

lemma pot_corr_loop_st_frame:
  "pot_corr_loop_st U lattice_ref q coords dielectric qm mad_tol zs pot_corrs plot_data calls st
     = (st', r) \<Longrightarrow> n \<le> next_addr st \<Longrightarrow> unchanged_below n st st'"
proof (induction zs arbitrary: pot_corrs plot_data calls st)
  case Nil
  then show ?case by (simp add: unchanged_below_refl)
next
  case (Cons z zs)
  obtain x pu de axis where z: "z = (x, pu, de, axis)" by (cases z) auto
  obtain st1 r1 where s1: "perform_pot_corr_st U x pu de lattice_ref q coords axis dielectric qm
      mad_tol 1 st = (st1, r1)"
    by (cases "perform_pot_corr_st U x pu de lattice_ref q coords axis dielectric qm
      mad_tol 1 st") auto
  note f1 = perform_pot_corr_st_frame[OF s1 Cons.prems(2)]
  show ?case
  proof (cases r1)
    case (Inl e)
    then have "st' = st1" using Cons.prems(1) z s1 by simp
    then show ?thesis using f1 by simp
  next
    case (Inr t)
    obtain c md xr where t: "t = (c, md, xr)" by (cases t) auto
    have "pot_corr_loop_st U lattice_ref q coords dielectric qm mad_tol zs
            (pot_corrs @ [(axis, c)]) (plot_data @ [(axis, md)])
            (calls @ [Call_perform_pot_corr axis]) st1 = (st', r)"
      using Cons.prems(1) z s1 Inr t by simp
    from unchanged_below_trans[OF f1 Cons.IH[OF this unchanged_below_next[OF f1]]]
    show ?thesis .
  qed
qed

lemma get_freysoldt_correction_st_frame:
  assumes "get_freysoldt_correction_st U q dielectric defect_locpot bulk_locpot coords
             energy_cutoff mad_tol qm step st = Some (st', r)"
      and "n \<le> next_addr st"
  shows "unchanged_below n st st'"
proof -
  define eps where "eps = dielectric_scalar (dielectric_arg_at st dielectric)"
  obtain gs st1 where a1: "alloc_all (map (get_axis_grid (locpot_at st defect_locpot)) [0, 1, 2]) st
      = (gs, st1)"
    by (cases "alloc_all (map (get_axis_grid (locpot_at st defect_locpot)) [0, 1, 2]) st") auto
  obtain ds st2 where a2: "alloc_all (map (get_average_along_axis (locpot_at st1 defect_locpot))
      [0, 1, 2]) st1 = (ds, st2)"
    by (cases "alloc_all (map (get_average_along_axis (locpot_at st1 defect_locpot))
      [0, 1, 2]) st1") auto
  obtain bs st3 where a3: "alloc_all (map (get_average_along_axis (locpot_at st2 bulk_locpot))
      [0, 1, 2]) st2 = (bs, st3)"
    by (cases "alloc_all (map (get_average_along_axis (locpot_at st2 bulk_locpot))
      [0, 1, 2]) st2") auto
  obtain l st4 where a4: "alloc (Lattice_obj (structure_lattice (locpot_at st3 defect_locpot))) st3
      = (l, st4)"
    by (cases "alloc (Lattice_obj (structure_lattice (locpot_at st3 defect_locpot))) st3") auto
  note f1 = alloc_all_frame[OF a1 assms(2)]
  note f2 = unchanged_below_trans[OF f1 alloc_all_frame[OF a2 unchanged_below_next[OF f1]]]
  note f3 = unchanged_below_trans[OF f2 alloc_all_frame[OF a3 unchanged_below_next[OF f2]]]
  note f4 = unchanged_below_trans[OF f3 unchanged_below_alloc[OF a4 unchanged_below_next[OF f3]]]
  from assms(1) a1 a2 a3 a4 obtain st5 r5 where
      e: "perform_es_corr_st U l q eps qm energy_cutoff mad_tol step st4 = Some (st5, r5)"
    by (auto simp: get_freysoldt_correction_st_def eps_def Let_def split: option.splits)
  note f5 = unchanged_below_trans[OF f4 perform_es_corr_st_frame[OF e unchanged_below_next[OF f4]]]
  obtain st6 cs r6 where lp: "pot_corr_loop_st U l q coords eps qm mad_tol
      (zip gs (zip bs (zip ds [0, 1, 2]))) [] [] [Call_perform_es_corr] st5 = (st6, cs, r6)"
    by (cases "pot_corr_loop_st U l q coords eps qm mad_tol
      (zip gs (zip bs (zip ds [0, 1, 2]))) [] [] [Call_perform_es_corr] st5") auto
  have "st' = st6" using assms(1) a1 a2 a3 a4 e lp
    by (auto simp: get_freysoldt_correction_st_def eps_def Let_def
        simp del: pot_corr_loop_st.simps split: sum.splits prod.splits)
  with unchanged_below_trans[OF f5 pot_corr_loop_st_frame[OF lp unchanged_below_next[OF f5]]]
  show ?thesis by simp
qed


lemma alloc_all_result:
  "alloc_all xss st = (as, st') \<Longrightarrow>
   length as = length xss
   \<and> (\<forall>i < length xss. as ! i < next_addr st' \<and> floats_at st' (as ! i) = xss ! i)"
proof (induction xss arbitrary: st as st')
  case Nil
  then show ?case by simp
next
  case (Cons xs xss)
  obtain a st1 where a: "alloc (Floats xs) st = (a, st1)" by (cases "alloc (Floats xs) st") auto
  obtain bs st2 where b: "alloc_all xss st1 = (bs, st2)" by (cases "alloc_all xss st1") auto
  from Cons.prems a b have e: "st' = st2" "as = a # bs" by simp_all
  note ih = Cons.IH[OF b]
  note f = alloc_all_frame[OF b order_refl]
  from alloc_addr[OF a] have a1: "a < next_addr st1" "floats_at st1 a = xs"
    by (auto simp: floats_at_def)
  have a2: "a < next_addr st2" "floats_at st2 a = xs"
    using unchanged_below_floats[OF f a1(1)] a1 f by (auto simp: unchanged_below_def)
  show ?case
    unfolding e using ih a2 by (auto simp: nth_Cons split: nat.splits)
qed

lemma pot_corr_loop_st_result:
  assumes "\<forall>z \<in> set zs. case z of (x, pu, de, axis) \<Rightarrow>
             x < next_addr st \<and> pu < next_addr st \<and> de < next_addr st
             \<and> floats_at st x = get_axis_grid dlp axis
             \<and> floats_at st pu = get_average_along_axis blp axis
             \<and> floats_at st de = get_average_along_axis dlp axis"
      and "l < next_addr st"
  shows "snd (pot_corr_loop_st U l q coords eps qm mad_tol zs pot_corrs plot_data calls st)
         = pot_corr_loop U dlp blp (lattice_at st l) q coords eps qm mad_tol
             (map (\<lambda>z. snd (snd (snd z))) zs) pot_corrs plot_data calls"
  using assms
proof (induction zs arbitrary: pot_corrs plot_data calls st)
  case Nil
  then show ?case by simp
next
  case (Cons z zs)
  obtain x pu de axis where z: "z = (x, pu, de, axis)" by (cases z) auto
  from Cons.prems(1) z have v: "x < next_addr st" "pu < next_addr st" "de < next_addr st"
      "floats_at st x = get_axis_grid dlp axis"
      "floats_at st pu = get_average_along_axis blp axis"
      "floats_at st de = get_average_along_axis dlp axis"
    by auto
  obtain st1 r1 where s1: "perform_pot_corr_st U x pu de l q coords axis eps qm mad_tol 1 st
      = (st1, r1)"
    by (cases "perform_pot_corr_st U x pu de l q coords axis eps qm mad_tol 1 st") auto
  note f1 = perform_pot_corr_st_frame[OF s1 order_refl]
  have r1: "r1 = (case perform_pot_corr U (get_axis_grid dlp axis)
                  (get_average_along_axis blp axis) (get_average_along_axis dlp axis)
                  (lattice_at st l) q coords axis eps qm mad_tol 1 of
              Inl e \<Rightarrow> Inl e
            | Inr (pot_corr, md) \<Rightarrow> Inr (pot_corr, md, x))"
    using perform_pot_corr_st_result[OF v(1,2,3), of U l q coords axis eps qm mad_tol 1] s1 v(4,5,6)
    by simp
  show ?case
  proof (cases "perform_pot_corr U (get_axis_grid dlp axis)
                  (get_average_along_axis blp axis) (get_average_along_axis dlp axis)
                  (lattice_at st l) q coords axis eps qm mad_tol 1")
    case (Inl e)
    then show ?thesis using z s1 r1 by simp
  next
    case (Inr t)
    obtain c md where t: "t = (c, md)" by (cases t) auto
    have inv: "\<forall>z \<in> set zs. case z of (x, pu, de, axis) \<Rightarrow>
             x < next_addr st1 \<and> pu < next_addr st1 \<and> de < next_addr st1
             \<and> floats_at st1 x = get_axis_grid dlp axis
             \<and> floats_at st1 pu = get_average_along_axis blp axis
             \<and> floats_at st1 de = get_average_along_axis dlp axis"
    proof
      fix z' assume m: "z' \<in> set zs"
      obtain x' pu' de' axis' where z': "z' = (x', pu', de', axis')" by (cases z') auto
      from Cons.prems(1) m z' have w: "x' < next_addr st" "pu' < next_addr st" "de' < next_addr st"
          "floats_at st x' = get_axis_grid dlp axis'"
          "floats_at st pu' = get_average_along_axis blp axis'"
          "floats_at st de' = get_average_along_axis dlp axis'"
        by auto
      have le: "next_addr st \<le> next_addr st1" using f1 by (simp add: unchanged_below_def)
      show "case z' of (x, pu, de, axis) \<Rightarrow>
             x < next_addr st1 \<and> pu < next_addr st1 \<and> de < next_addr st1
             \<and> floats_at st1 x = get_axis_grid dlp axis
             \<and> floats_at st1 pu = get_average_along_axis blp axis
             \<and> floats_at st1 de = get_average_along_axis dlp axis"
        unfolding z' using w le
          unfolding prod.case
        by (simp add: unchanged_below_floats[OF f1])
    qed
    have l1: "l < next_addr st1" "lattice_at st1 l = lattice_at st l"
      using f1 Cons.prems(2) unchanged_below_lattice[OF f1 Cons.prems(2)]
      by (auto simp: unchanged_below_def)
    from Cons.IH[OF inv l1(1)] l1(2) show ?thesis
      using z s1 r1 Inr t by simp
  qed
qed

lemma length3E:
  assumes "length xs = 3"
  obtains a b c where "xs = [a, b, c]"
proof -
  from assms obtain a ys where 1: "xs = a # ys" "length ys = 2" by (cases xs) auto
  then obtain b zs where 2: "ys = b # zs" "length zs = 1" by (cases ys) auto
  then obtain c where 3: "zs = [c]" by (cases zs) auto
  from 1 2 3 that show ?thesis by simp
qed

lemma get_freysoldt_correction_st_result:
  assumes "defect_locpot < next_addr st" "bulk_locpot < next_addr st"
  shows "map_option snd (get_freysoldt_correction_st U q dielectric defect_locpot bulk_locpot
            coords energy_cutoff mad_tol qm step st)
         = get_freysoldt_correction U q (dielectric_arg_at st dielectric)
             (locpot_at st defect_locpot) (locpot_at st bulk_locpot) coords energy_cutoff mad_tol
             qm step"
proof -
  define eps where "eps = dielectric_scalar (dielectric_arg_at st dielectric)"
  let ?dlp = "locpot_at st defect_locpot"
  let ?blp = "locpot_at st bulk_locpot"
  let ?lat = "structure_lattice ?dlp"
  obtain gs st1 where a1: "alloc_all (map (get_axis_grid ?dlp) [0, 1, 2]) st = (gs, st1)"
    by (cases "alloc_all (map (get_axis_grid ?dlp) [0, 1, 2]) st") auto
  note f1 = alloc_all_frame[OF a1 order_refl]
  have d1: "locpot_at st1 defect_locpot = ?dlp" "locpot_at st1 bulk_locpot = ?blp"
    using unchanged_below_locpot[OF f1] assms by simp_all
  obtain ds st2 where a2: "alloc_all (map (get_average_along_axis ?dlp) [0, 1, 2]) st1 = (ds, st2)"
    by (cases "alloc_all (map (get_average_along_axis ?dlp) [0, 1, 2]) st1") auto
  note f2 = alloc_all_frame[OF a2 order_refl]
  note f02 = unchanged_below_trans[OF f1 alloc_all_frame[OF a2 unchanged_below_next[OF f1]]]
  have d2: "locpot_at st2 defect_locpot = ?dlp" "locpot_at st2 bulk_locpot = ?blp"
    using unchanged_below_locpot[OF f02] assms by simp_all
  obtain bs st3 where a3: "alloc_all (map (get_average_along_axis ?blp) [0, 1, 2]) st2 = (bs, st3)"
    by (cases "alloc_all (map (get_average_along_axis ?blp) [0, 1, 2]) st2") auto
  note f3 = alloc_all_frame[OF a3 order_refl]
  note f03 = unchanged_below_trans[OF f02 alloc_all_frame[OF a3 unchanged_below_next[OF f02]]]
  have d3: "locpot_at st3 defect_locpot = ?dlp"
    using unchanged_below_locpot[OF f03] assms by simp
  obtain l st4 where a4: "alloc (Lattice_obj ?lat) st3 = (l, st4)"
    by (cases "alloc (Lattice_obj ?lat) st3") auto
  note f4 = unchanged_below_alloc[OF a4 order_refl]
  have l4: "l < next_addr st4" "lattice_at st4 l = ?lat"
    using alloc_addr[OF a4] by (auto simp: lattice_at_def)
  note r1 = alloc_all_result[OF a1]
  note r2 = alloc_all_result[OF a2]
  note r3 = alloc_all_result[OF a3]
  have lens: "length gs = 3" "length ds = 3" "length bs = 3" using r1 r2 r3 by simp_all
  obtain g0 g1 g2 where gs: "gs = [g0, g1, g2]" by (rule length3E[OF lens(1)])
  obtain d0 d1 d2 where ds: "ds = [d0, d1, d2]" by (rule length3E[OF lens(2)])
  obtain b0 b1 b2 where bs: "bs = [b0, b1, b2]" by (rule length3E[OF lens(3)])
  have le: "next_addr st1 \<le> next_addr st2" "next_addr st2 \<le> next_addr st3"
      "next_addr st3 \<le> next_addr st4"
    using f2 f3 f4 by (simp_all add: unchanged_below_def)
  have f24: "unchanged_below (next_addr st2) st2 st4"
    by (rule unchanged_below_trans[OF f3 unchanged_below_weaken[OF f4 le(2)]])
  have f14: "unchanged_below (next_addr st1) st1 st4"
    by (rule unchanged_below_trans[OF f2 unchanged_below_weaken[OF f24 le(1)]])
  note e1 = r1[THEN conjunct2, rule_format]
  note e2 = r2[THEN conjunct2, rule_format]
  note e3 = r3[THEN conjunct2, rule_format]
  have gv1: "g0 < next_addr st1 \<and> floats_at st1 g0 = get_axis_grid ?dlp 0"
      "g1 < next_addr st1 \<and> floats_at st1 g1 = get_axis_grid ?dlp 1"
      "g2 < next_addr st1 \<and> floats_at st1 g2 = get_axis_grid ?dlp 2"
    using e1[of 0] e1[of 1] e1[of 2] gs by simp_all
  have dv2: "d0 < next_addr st2 \<and> floats_at st2 d0 = get_average_along_axis ?dlp 0"
      "d1 < next_addr st2 \<and> floats_at st2 d1 = get_average_along_axis ?dlp 1"
      "d2 < next_addr st2 \<and> floats_at st2 d2 = get_average_along_axis ?dlp 2"
    using e2[of 0] e2[of 1] e2[of 2] ds by simp_all
  have bv3: "b0 < next_addr st3 \<and> floats_at st3 b0 = get_average_along_axis ?blp 0"
      "b1 < next_addr st3 \<and> floats_at st3 b1 = get_average_along_axis ?blp 1"
      "b2 < next_addr st3 \<and> floats_at st3 b2 = get_average_along_axis ?blp 2"
    using e3[of 0] e3[of 1] e3[of 2] bs by simp_all
  have gv: "g0 < next_addr st4 \<and> floats_at st4 g0 = get_axis_grid ?dlp 0"
      "g1 < next_addr st4 \<and> floats_at st4 g1 = get_axis_grid ?dlp 1"
      "g2 < next_addr st4 \<and> floats_at st4 g2 = get_axis_grid ?dlp 2"
    using gv1 unchanged_below_floats[OF f14] le by auto
  have dv: "d0 < next_addr st4 \<and> floats_at st4 d0 = get_average_along_axis ?dlp 0"
      "d1 < next_addr st4 \<and> floats_at st4 d1 = get_average_along_axis ?dlp 1"
      "d2 < next_addr st4 \<and> floats_at st4 d2 = get_average_along_axis ?dlp 2"
    using dv2 unchanged_below_floats[OF f24] le by auto
  have bv: "b0 < next_addr st4 \<and> floats_at st4 b0 = get_average_along_axis ?blp 0"
      "b1 < next_addr st4 \<and> floats_at st4 b1 = get_average_along_axis ?blp 1"
      "b2 < next_addr st4 \<and> floats_at st4 b2 = get_average_along_axis ?blp 2"
    using bv3 unchanged_below_floats[OF f4] le by auto
  have zs: "zip [g0, g1, g2] (zip [b0, b1, b2] (zip [d0, d1, d2] [0, 1, 2 :: int]))
      = [(g0, b0, d0, 0), (g1, b1, d1, 1), (g2, b2, d2, 2)]" by simp
  have st_unfold: "get_freysoldt_correction_st U q dielectric defect_locpot bulk_locpot
            coords energy_cutoff mad_tol qm step st
        = (case perform_es_corr_st U l q eps qm energy_cutoff mad_tol step st4 of
              None \<Rightarrow> None
            | Some (st5, es_corr) \<Rightarrow>
                (case pot_corr_loop_st U l q coords eps qm mad_tol
                        [(g0, b0, d0, 0), (g1, b1, d1, 1), (g2, b2, d2, 2)]
                        [] [] [Call_perform_es_corr] st5 of
                   (st6, calls, Inl e) \<Rightarrow> Some (st6, calls, Inl e)
                 | (st6, calls, Inr (pot_corrs, plot_data)) \<Rightarrow>
                     Some (st6, calls,
                       Inr (\<lparr>freysoldt_electrostatic = es_corr,
                             freysoldt_potential_alignment = np_mean (map snd pot_corrs)\<rparr>,
                            plot_data))))"
    unfolding get_freysoldt_correction_st_def Let_def eps_def[symmetric] a1 prod.case d1 a2 d2
      a3 d3 a4 gs ds bs zs by (rule refl)
  have pure_unfold: "get_freysoldt_correction U q (dielectric_arg_at st dielectric) ?dlp ?blp
      coords energy_cutoff mad_tol qm step
      = freysoldt_with_scalar U q eps ?dlp ?blp coords energy_cutoff mad_tol qm step"
    by (simp add: get_freysoldt_correction_def eps_def)
  show ?thesis
  proof (cases "perform_es_corr U ?lat q eps qm energy_cutoff mad_tol step")
    case None
    then have "perform_es_corr_st U l q eps qm energy_cutoff mad_tol step st4 = None"
      using perform_es_corr_st_result[of U l q eps qm energy_cutoff mad_tol step st4] l4(2)
      by simp
    then show ?thesis unfolding st_unfold pure_unfold
      by (simp add: freysoldt_with_scalar_def None)
  next
    case (Some r)
    then obtain st5 where e: "perform_es_corr_st U l q eps qm energy_cutoff mad_tol step st4
        = Some (st5, r)"
      using perform_es_corr_st_result[of U l q eps qm energy_cutoff mad_tol step st4] l4(2)
      by (cases "perform_es_corr_st U l q eps qm energy_cutoff mad_tol step st4") auto
    note f5 = perform_es_corr_st_frame[OF e order_refl]
    show ?thesis
    proof -
      have le5: "next_addr st4 \<le> next_addr st5" using f5 by (simp add: unchanged_below_def)
      have inv: "\<forall>z \<in> set [(g0, b0, d0, 0), (g1, b1, d1, 1), (g2, b2, d2, 2)].
          case z of (x, pu, de, axis) \<Rightarrow>
             x < next_addr st5 \<and> pu < next_addr st5 \<and> de < next_addr st5
             \<and> floats_at st5 x = get_axis_grid ?dlp axis
             \<and> floats_at st5 pu = get_average_along_axis ?blp axis
             \<and> floats_at st5 de = get_average_along_axis ?dlp axis"
        using gv dv bv le5 unchanged_below_floats[OF f5] by auto
      have l5: "l < next_addr st5" "lattice_at st5 l = ?lat"
        using l4 le5 unchanged_below_lattice[OF f5 l4(1)] by auto
      have loop: "snd (pot_corr_loop_st U l q coords eps qm mad_tol
                        [(g0, b0, d0, 0), (g1, b1, d1, 1), (g2, b2, d2, 2)]
                        [] [] [Call_perform_es_corr] st5)
          = pot_corr_loop U ?dlp ?blp ?lat q coords eps qm mad_tol [0, 1, 2] [] []
              [Call_perform_es_corr]"
        using pot_corr_loop_st_result[OF inv l5(1), of U q coords eps qm mad_tol "[]" "[]"
            "[Call_perform_es_corr]"] l5(2)
        by simp
      obtain st6 cs r6 where lp: "pot_corr_loop_st U l q coords eps qm mad_tol
                        [(g0, b0, d0, 0), (g1, b1, d1, 1), (g2, b2, d2, 2)]
                        [] [] [Call_perform_es_corr] st5 = (st6, cs, r6)"
        by (cases "pot_corr_loop_st U l q coords eps qm mad_tol
                        [(g0, b0, d0, 0), (g1, b1, d1, 1), (g2, b2, d2, 2)]
                        [] [] [Call_perform_es_corr] st5") auto
      with loop have pl: "pot_corr_loop U ?dlp ?blp ?lat q coords eps qm mad_tol [0, 1, 2] [] []
              [Call_perform_es_corr] = (cs, r6)" by simp
      show ?thesis unfolding st_unfold pure_unfold e
        by (simp add: freysoldt_with_scalar_def Some lp pl Let_def
            del: pot_corr_loop.simps pot_corr_loop_st.simps split: sum.splits prod.splits)
    qed
  qed
qed

lemma sample_store_reads:
  "next_addr sample_store = 6"
  "lattice_at sample_store 2 = cubic10"
  "floats_at sample_store 3 = [0, 5]"
  "floats_at sample_store 4 = [1, 2]"
  "floats_at sample_store 5 = [3, 5]"
  "locpot_at sample_store 0 = sample_defect_locpot"
  "locpot_at sample_store (Suc 0) = sample_bulk_locpot"
  "mem sample_store 3 = Some (Floats [0, 5])"
  "mem sample_store 0 = Some (Locpot_obj sample_defect_locpot)"
  by (simp_all add: sample_store_def lattice_at_def floats_at_def locpot_at_def)

text \<open>
  C8. Whatever \<open>perform_pot_corr\<close>, \<open>perform_es_corr\<close> and
  \<open>get_freysoldt_correction\<close> are called with, every object that exists in the store
  before the call (the lattice, a dielectric tensor, the potentials, the profiles and
  grids among them) holds after the call what it held before; the writes of the three
  functions go to arrays they created themselves.
\<close>

theorem inputs_never_mutated:
  assumes "a < next_addr st"
  shows "mem (fst (perform_pot_corr_st U axis_grid pureavg defavg lattice_ref q coords axis
                     dielectric qm mad_tol w st)) a = mem st a
     \<and> (\<forall>st' r. perform_es_corr_st U lattice_ref q dielectric qm energy_cutoff mad_tol step st
                   = Some (st', r) \<longrightarrow> mem st' a = mem st a)
     \<and> (\<forall>st' r. get_freysoldt_correction_st U q d defect_locpot bulk_locpot coords energy_cutoff
                   mad_tol qm step st = Some (st', r) \<longrightarrow> mem st' a = mem st a)"
proof -
  have 1: "mem (fst (perform_pot_corr_st U axis_grid pureavg defavg lattice_ref q coords axis
                     dielectric qm mad_tol w st)) a = mem st a"
    using perform_pot_corr_st_frame[OF prod.collapse[symmetric] order_refl] assms
    by (simp add: unchanged_below_def)
  have 2: "mem st' a = mem st a"
    if "perform_es_corr_st U lattice_ref q dielectric qm energy_cutoff mad_tol step st
          = Some (st', r)" for st' r
    using perform_es_corr_st_frame[OF that order_refl] assms by (simp add: unchanged_below_def)
  have 3: "mem st' a = mem st a"
    if "get_freysoldt_correction_st U q d defect_locpot bulk_locpot coords energy_cutoff
          mad_tol qm step st = Some (st', r)" for st' r
    using get_freysoldt_correction_st_frame[OF that order_refl] assms
    by (simp add: unchanged_below_def)
  from 1 2 3 show ?thesis by blast
qed

theorem inputs_never_mutated_witness:
  "(3::nat) < next_addr sample_store
   \<and> (\<exists>c md. snd (perform_pot_corr_st sample_utils 3 4 5 2 1 (Some (0, 0, 0)) 0 (Finite 1)
                     gauss_model (1 / 10000) 1 sample_store) = Inr (c, md, 3))
   \<and> mem (fst (perform_pot_corr_st sample_utils 3 4 5 2 1 (Some (0, 0, 0)) 0 (Finite 1)
                 gauss_model (1 / 10000) 1 sample_store)) 3 = Some (Floats [0, 5])
   \<and> (\<exists>st' r. perform_es_corr_st sample_utils 2 1 (Finite 1) gauss_model 520 (1 / 10000)
                 (1 / 10000) sample_store = Some (st', r)
              \<and> mem st' 3 = Some (Floats [0, 5]))
   \<and> (\<exists>st' r. get_freysoldt_correction_st sample_utils 1 (Scalar_value 1) 0 1 (Some (0, 0, 0))
                 520 (1 / 10000) gauss_model (1 / 10000) sample_store = Some (st', r)
              \<and> mem st' 3 = Some (Floats [0, 5]))"
proof -
  have lt: "(3::nat) < next_addr sample_store" by (simp add: sample_store_reads)
  note inst = inputs_never_mutated[OF lt]
  have p1: "\<exists>c md. snd (perform_pot_corr_st sample_utils 3 4 5 2 1 (Some (0, 0, 0)) 0 (Finite 1)
                     gauss_model (1 / 10000) 1 sample_store) = Inr (c, md, 3)"
    using perform_pot_corr_st_result[of 3 sample_store 4 5 sample_utils 2 1 "Some (0, 0, 0)" 0
        "Finite 1" gauss_model "1 / 10000" 1]
    by (simp add: sample_store_reads sample_perform_pot_corr)
  have p2: "mem (fst (perform_pot_corr_st sample_utils 3 4 5 2 1 (Some (0, 0, 0)) 0 (Finite 1)
                 gauss_model (1 / 10000) 1 sample_store)) 3 = Some (Floats [0, 5])"
    using inst[THEN conjunct1, of sample_utils 3 4 5 2 1 "Some (0, 0, 0)" 0 "Finite 1"
        gauss_model "1 / 10000" 1]
    by (simp add: sample_store_reads)
  obtain es where es: "perform_es_corr sample_utils cubic10 1 (Finite 1) gauss_model 520
      (1 / 10000) (1 / 10000) = Some es"
    using perform_es_corr_returns[of sample_utils cubic10 1 "Finite 1" gauss_model 520
        "1 / 10000" "1 / 10000"] by auto
  have "map_option snd (perform_es_corr_st sample_utils 2 1 (Finite 1) gauss_model 520
          (1 / 10000) (1 / 10000) sample_store) = Some es"
    by (simp only: perform_es_corr_st_result sample_store_reads es)
  then obtain st1 r1 where e1: "perform_es_corr_st sample_utils 2 1 (Finite 1) gauss_model 520
          (1 / 10000) (1 / 10000) sample_store = Some (st1, r1)"
    by (cases "perform_es_corr_st sample_utils 2 1 (Finite 1) gauss_model 520
          (1 / 10000) (1 / 10000) sample_store") auto
  have e2: "mem st1 3 = Some (Floats [0, 5])"
    using inst[THEN conjunct2, THEN conjunct1, rule_format, OF e1]
    by (simp add: sample_store_reads)
  have d: "dielectric_scalar (Scalar 1) = Finite 1" by (simp add: dielectric_scalar_def)
  from sample_freysoldt_value[OF d] obtain calls fc plot_data where f:
    "get_freysoldt_correction sample_utils 1 (Scalar 1) sample_defect_locpot sample_bulk_locpot
       (Some (0, 0, 0)) 520 (1 / 10000) gauss_model (1 / 10000)
     = Some (calls, Inr (fc, plot_data))"
    by blast
  have "map_option snd (get_freysoldt_correction_st sample_utils 1 (Scalar_value 1) 0 1
          (Some (0, 0, 0)) 520 (1 / 10000) gauss_model (1 / 10000) sample_store)
        = Some (calls, Inr (fc, plot_data))"
    using get_freysoldt_correction_st_result[of 0 sample_store 1 sample_utils 1 "Scalar_value 1"
        "Some (0, 0, 0)" 520 "1 / 10000" gauss_model "1 / 10000"] f
    by (simp add: sample_store_reads dielectric_arg_at_def)
  then obtain st2 r2 where g1: "get_freysoldt_correction_st sample_utils 1 (Scalar_value 1) 0 1
          (Some (0, 0, 0)) 520 (1 / 10000) gauss_model (1 / 10000) sample_store = Some (st2, r2)"
    by (cases "get_freysoldt_correction_st sample_utils 1 (Scalar_value 1) 0 1
          (Some (0, 0, 0)) 520 (1 / 10000) gauss_model (1 / 10000) sample_store") auto
  have g2: "mem st2 3 = Some (Floats [0, 5])"
    using inst[THEN conjunct2, THEN conjunct2, rule_format, OF g1]
    by (simp add: sample_store_reads)
  from lt p1 p2 e1 e2 g1 g2 show ?thesis by blast
qed

end
